(* ===== verification/Prelude.thy ===== *)
theory Prelude
  imports Main "HOL-Library.AList"
begin

text \<open>
  Shared vocabulary of the library-management model: the identifier and time types,
  the collections of lemmas the component theories feed to the simplifier, and generic
  facts about association lists.  MongoDB collections are modelled as association
  lists \<open>(oid \<times> 'doc) list\<close> in insertion order (the order \<open>find()\<close> returns them in),
  read with \<open>map_of\<close>, written in place with \<open>AList.update\<close> and \<open>AList.map_entry\<close>
  and shrunk with \<open>AList.delete\<close>.
\<close>

type_synonym oid = nat
  \<comment> \<open>a MongoDB ObjectId; fresh ids come from a counter of the store\<close>

type_synonym time = int
  \<comment> \<open>a JavaScript \<open>Date\<close> as milliseconds since the epoch, as \<open>Date.now()\<close> returns it\<close>

type_synonym 'v collection = "(oid \<times> 'v) list"

named_theorems handler_defs "definitions of the request handlers, unfolded by the component proofs"

abbreviation keys :: "'v collection \<Rightarrow> oid list" where
  "keys c \<equiv> map fst c"

subsection \<open>Association lists\<close>

text \<open>An executable \<open>list_all\<close> over a collection with distinct keys is the same as a
  statement about every key that \<open>map_of\<close> finds.\<close>

lemma list_all_map_of:
  assumes "distinct (map fst al)"
  shows "list_all P al \<longleftrightarrow> (\<forall>k v. map_of al k = Some v \<longrightarrow> P (k, v))"
  using assms by (auto simp: list_all_iff dest: map_of_SomeD intro: map_of_is_SomeI)

text \<open>Counting the entries of a collection that satisfy a predicate, across the three
  ways the handlers write a collection.\<close>

lemma length_filter_update:
  assumes "map_of al k = Some v0"
  shows "length (filter P (AList.update k v al)) + of_bool (P (k, v0))
       = length (filter P al) + of_bool (P (k, v))"
  using assms by (induction al) auto

lemma length_filter_map_entry:
  assumes "map_of al k = Some v0"
  shows "length (filter P (AList.map_entry k f al)) + of_bool (P (k, v0))
       = length (filter P al) + of_bool (P (k, f v0))"
  using assms by (induction al) auto

lemma map_entry_absent [simp]:
  "map_of al k = None \<Longrightarrow> AList.map_entry k f al = al"
  by (induction al) auto

lemma map_of_map_entry_same [simp]:
  "map_of (AList.map_entry k f al) k = map_option f (map_of al k)"
  by (induction al) auto

lemma map_of_map_entry_other [simp]:
  "k' \<noteq> k \<Longrightarrow> map_of (AList.map_entry k f al) k' = map_of al k'"
  by (induction al) auto

lemma keys_map_entry [simp]:
  "map fst (AList.map_entry k f al) = map fst al"
  by (induction al) auto

lemma map_entry_as_update:
  "map_of al k = Some v \<Longrightarrow> AList.map_entry k f al = AList.update k (f v) al"
  by (induction al) auto

lemma update_fresh:
  "k \<notin> set (map fst al) \<Longrightarrow> AList.update k v al = al @ [(k, v)]"
  by (induction al) auto

lemma map_entry_map_entry [simp]:
  "AList.map_entry k f (AList.map_entry k g al) = AList.map_entry k (f \<circ> g) al"
  by (induction al) auto

lemma map_entry_fixed:
  "map_of al k = Some v \<Longrightarrow> f v = v \<Longrightarrow> AList.map_entry k f al = al"
  by (induction al) (auto split: if_splits)

lemma update_append_fresh:
  "k \<notin> set (map fst al) \<Longrightarrow> AList.update k v (al @ [(k, w)]) = al @ [(k, v)]"
  by (induction al) auto

lemma map_of_update_same [simp]:
  "map_of (AList.update k v al) k = Some v"
  by (simp add: update_conv')

lemma map_of_update_other [simp]:
  "k' \<noteq> k \<Longrightarrow> map_of (AList.update k v al) k' = map_of al k'"
  by (simp add: update_conv')

lemma keys_update_present [simp]:
  "map_of al k = Some v0 \<Longrightarrow> map fst (AList.update k v al) = map fst al"
  by (induction al) auto

lemma map_of_Some_key:
  "map_of al k = Some v \<Longrightarrow> k \<in> set (map fst al)"
  by (induction al) (auto split: if_splits)

lemma distinct_fresh_append:
  "distinct xs \<Longrightarrow> \<forall>k \<in> set xs. k < n \<Longrightarrow> distinct (xs @ [n :: nat])"
  by (induction xs) auto

lemma set_update_subset:
  "set (AList.update k v al) \<subseteq> insert (k, v) (set al)"
  by (induction al) auto

lemma update_present_same:
  "map_of al k = Some v \<Longrightarrow> AList.update k v al = al"
  by (induction al) (auto split: if_splits)

lemma map_replace_same:
  "distinct (map fst al) \<Longrightarrow> map_of al k = Some v \<Longrightarrow>
   map (\<lambda>(k', v'). if k' = k then (k, v) else (k', v')) al = al"
proof (induction al)
  case (Cons a al)
  have "map (\<lambda>(k', v'). if k' = k then (k, v) else (k', v')) al = al" if "k \<notin> set (map fst al)"
    using that by (induction al) auto
  with Cons show ?case by (cases a) (auto split: if_splits)
qed simp

subsection \<open>Results\<close>

lemma map_sum_Inr_iff: "map_sum f g x = Inr y \<longleftrightarrow> (\<exists>z. x = Inr z \<and> y = g z)"
  by (cases x) auto

lemma list_all_update:
  "list_all P al \<Longrightarrow> P (k, v) \<Longrightarrow> list_all P (AList.update k v al)"
  using set_update_subset [of k v al] by (auto simp: list_all_iff)

end
