(* ===== verification/Model.thy ===== *)
theory Model
  imports Prelude
begin

text \<open>
  The data model of the backend: the Mongoose schemas of
  \<open>backend/models/Book.js\<close> and \<open>backend/models/IssuedBook.js\<close> as records, the
  \<open>status\<close> enum as a datatype, the user roles (the \<open>User\<close> model is not among the
  sources and follows the spec), the database as a record of collections with a fresh-id
  counter, the persistence writes the controllers perform, and the inventory ledger
  invariant that ties the two collections together.
\<close>

subsection \<open>Documents\<close>

record book =
  name :: string
  author :: string
  category :: string
  totalCopies :: int
  availableCopies :: int

datatype loan_status = Issued | Returned

record issued_book =
  bookId :: oid
  userId :: oid
  issueDate :: time
  dueDate :: time
  returnDate :: "time option"
  status :: loan_status
  fineAmount :: int

datatype role = Admin | Student

record user =
  user_name :: string
  email :: string
  role :: role

text \<open>The authenticated principal that the \<open>protect\<close> middleware puts into
  \<open>req.user\<close>: its id and its role.\<close>

record principal =
  principal_id :: oid
  principal_role :: role

subsection \<open>The store\<close>

record db =
  books :: "book collection"
  loans :: "issued_book collection"
  users :: "user collection"
  next_oid :: oid

definition empty_db :: db where
  "empty_db = \<lparr>books = [], loans = [], users = [], next_oid = 0\<rparr>"

datatype error =
    BookNotFound          \<comment> \<open>404 'Book not found'\<close>
  | BookNotAvailable      \<comment> \<open>400 'Book is not available'\<close>
  | IssuedBookNotFound    \<comment> \<open>404 'Issued book record not found'\<close>
  | ValidationError       \<comment> \<open>a rejected \<open>save()\<close>: the handler has no catch\<close>
  | NotAuthorized         \<comment> \<open>401 from the \<open>protect\<close> middleware\<close>
  | NotAdmin              \<comment> \<open>401 from the \<open>admin\<close> middleware\<close>
  | UserNotFound          \<comment> \<open>404 from the user controller\<close>
  | RouteNotFound         \<comment> \<open>404 from Express: no route matches\<close>

subsection \<open>Persistence writes\<close>

text \<open>\<open>new Model(doc).save()\<close>: the document gets a fresh ObjectId and is appended to the
  collection.\<close>

definition insert_book :: "book \<Rightarrow> db \<Rightarrow> oid \<times> db" where
  "insert_book b d = (let k = next_oid d in (k, d\<lparr>books := books d @ [(k, b)], next_oid := Suc k\<rparr>))"

definition insert_loan :: "issued_book \<Rightarrow> db \<Rightarrow> oid \<times> db" where
  "insert_loan ib d = (let k = next_oid d in (k, d\<lparr>loans := loans d @ [(k, ib)], next_oid := Suc k\<rparr>))"

text \<open>\<open>book.save()\<close> after \<open>book.availableCopies = v\<close>: Mongoose sends only the modified
  path, \<open>$set availableCopies: v\<close>, to the document with that id; a document that no longer
  exists is not written (Mongoose then rejects with \<open>DocumentNotFoundError\<close>, which only
  changes the response).\<close>

definition save_available :: "oid \<Rightarrow> int \<Rightarrow> db \<Rightarrow> db" where
  "save_available k v d = d\<lparr>books := AList.map_entry k (\<lambda>b. b\<lparr>availableCopies := v\<rparr>) (books d)\<rparr>"

text \<open>\<open>doc.save()\<close> of a document read before and modified in several fields.\<close>

definition save_book :: "oid \<Rightarrow> book \<Rightarrow> db \<Rightarrow> db" where
  "save_book k b d = d\<lparr>books := AList.update k b (books d)\<rparr>"

definition save_loan :: "oid \<Rightarrow> issued_book \<Rightarrow> db \<Rightarrow> db" where
  "save_loan k ib d = d\<lparr>loans := AList.update k ib (loans d)\<rparr>"

subsection \<open>Well-formedness and the ledger invariant\<close>

text \<open>Ids are distinct within a collection and below the counter; every loan refers to an
  id that was handed out (the book may since have been deleted).\<close>

definition wf_db :: "db \<Rightarrow> bool" where
  "wf_db d \<longleftrightarrow>
     distinct (keys (books d)) \<and> distinct (keys (loans d)) \<and>
     list_all (\<lambda>k. k < next_oid d) (keys (books d)) \<and>
     list_all (\<lambda>k. k < next_oid d) (keys (loans d)) \<and>
     list_all (\<lambda>(_, ib). bookId ib < next_oid d) (loans d)"

text \<open>The copies of a title that are out: its loans still in state \<open>Issued\<close>.\<close>

definition outstanding :: "issued_book collection \<Rightarrow> oid \<Rightarrow> nat" where
  "outstanding ls k = length (filter (\<lambda>(_, ib). bookId ib = k \<and> status ib = Issued) ls)"

text \<open>Conservation: for every book, \<open>totalCopies - availableCopies\<close> is the number of its
  copies out on loan.  With \<open>0 \<le> availableCopies\<close> this is the spec's
  \<open>0 \<le> availableCopies \<le> totalCopies\<close>, strengthened until every operation keeps it.\<close>

definition copies_balanced :: "db \<Rightarrow> bool" where
  "copies_balanced d \<longleftrightarrow>
     list_all (\<lambda>(k, b). totalCopies b - availableCopies b = int (outstanding (loans d) k)) (books d)"

definition copies_nonneg :: "db \<Rightarrow> bool" where
  "copies_nonneg d \<longleftrightarrow> list_all (\<lambda>(_, b). 0 \<le> availableCopies b) (books d)"

definition ledger_inv :: "db \<Rightarrow> bool" where
  "ledger_inv d \<longleftrightarrow> wf_db d \<and> copies_balanced d \<and> copies_nonneg d"

text \<open>A small store for the examples: one title with two copies.\<close>

abbreviation sicp :: "int \<Rightarrow> book" where
  "sicp a \<equiv> \<lparr>name = ''SICP'', author = ''Abelson'', category = ''CS'', totalCopies = 2, availableCopies = a\<rparr>"

abbreviation demo_store :: "int \<Rightarrow> issued_book collection \<Rightarrow> oid \<Rightarrow> db" where
  "demo_store a ls n \<equiv> \<lparr>books = [(0, sicp a)], loans = ls, users = [], next_oid = n\<rparr>"

subsection \<open>Lemmas on the store\<close>

lemma wf_db_iff:
  "wf_db d \<longleftrightarrow>
     distinct (keys (books d)) \<and> distinct (keys (loans d)) \<and>
     (\<forall>k \<in> set (keys (books d)). k < next_oid d) \<and>
     (\<forall>k \<in> set (keys (loans d)). k < next_oid d) \<and>
     (\<forall>(k, ib) \<in> set (loans d). bookId ib < next_oid d)"
  by (simp add: wf_db_def list_all_iff)

lemma copies_balanced_iff:
  "distinct (keys (books d)) \<Longrightarrow> copies_balanced d \<longleftrightarrow>
     (\<forall>k b. map_of (books d) k = Some b \<longrightarrow>
        totalCopies b - availableCopies b = int (outstanding (loans d) k))"
  by (simp add: copies_balanced_def list_all_map_of)

lemma copies_nonneg_iff:
  "distinct (keys (books d)) \<Longrightarrow> copies_nonneg d \<longleftrightarrow>
     (\<forall>k b. map_of (books d) k = Some b \<longrightarrow> 0 \<le> availableCopies b)"
  by (simp add: copies_nonneg_def list_all_map_of)

lemma copies_balancedD:
  "copies_balanced d \<Longrightarrow> distinct (keys (books d)) \<Longrightarrow> map_of (books d) k = Some b \<Longrightarrow>
   totalCopies b - availableCopies b = int (outstanding (loans d) k)"
  using copies_balanced_iff by blast

lemma copies_nonnegD:
  "copies_nonneg d \<Longrightarrow> distinct (keys (books d)) \<Longrightarrow> map_of (books d) k = Some b \<Longrightarrow>
   0 \<le> availableCopies b"
  using copies_nonneg_iff by blast

lemma outstanding_append [simp]:
  "outstanding (ls @ [(k, ib)]) j = outstanding ls j + of_bool (bookId ib = j \<and> status ib = Issued)"
  by (simp add: outstanding_def)

lemma outstanding_update:
  assumes "map_of ls k = Some ib0"
  shows "outstanding (AList.update k ib ls) j + of_bool (bookId ib0 = j \<and> status ib0 = Issued)
       = outstanding ls j + of_bool (bookId ib = j \<and> status ib = Issued)"
  using length_filter_update [OF assms, of "\<lambda>(_, ib). bookId ib = j \<and> status ib = Issued" ib]
  by (simp add: outstanding_def)

lemma outstanding_fresh:
  "\<forall>(k, ib) \<in> set ls. bookId ib < n \<Longrightarrow> outstanding ls n = 0"
  by (induction ls) (auto simp: outstanding_def)

lemma books_save_available [simp]: "books (save_available k v d) = AList.map_entry k (\<lambda>b. b\<lparr>availableCopies := v\<rparr>) (books d)"
  and loans_save_available [simp]: "loans (save_available k v d) = loans d"
  and users_save_available [simp]: "users (save_available k v d) = users d"
  and next_oid_save_available [simp]: "next_oid (save_available k v d) = next_oid d"
  by (simp_all add: save_available_def)

lemmas store_defs = insert_book_def insert_loan_def save_book_def save_loan_def

end
