(* ===== verification/Fine.thy ===== *)
theory Fine
  imports Complex_Main Model
begin

text \<open>
  The overdue fine of \<open>returnBook\<close> (\<open>backend/controllers/issuedBookController.js\<close>,
  lines 77--85): for a return after the due date the fine is \<open>Math.ceil\<close> of the elapsed
  time in days, times 5.  JavaScript divides as a float and rounds up; the model divides
  integers and rounds up with \<open>div\<close>, and the lemmas show the two agree exactly, so that
  the integer definition can be evaluated by \<open>simp\<close>.
\<close>

definition ms_per_day :: int where
  "ms_per_day = 1000 * 60 * 60 * 24"

definition fine_per_day :: int where
  "fine_per_day = 5"

text \<open>Integer division rounded up, \<open>Math.ceil(a / b)\<close>.\<close>

definition ceil_div :: "int \<Rightarrow> int \<Rightarrow> int" where
  "ceil_div a b = - ((- a) div b)"

text \<open>Lines 82--84: \<open>diffTime = Math.abs(returnDate - dueDate)\<close>,
  \<open>diffDays = Math.ceil(diffTime / (1000 * 60 * 60 * 24))\<close>, \<open>fineAmount = diffDays * 5\<close>.\<close>

definition late_fine :: "time \<Rightarrow> time \<Rightarrow> int" where
  "late_fine due ret =
     (let diffTime = \<bar>ret - due\<bar>;
          diffDays = ceil_div diffTime ms_per_day
      in diffDays * fine_per_day)"

subsection \<open>Rounding up\<close>

lemma ceil_div_real: "ceil_div a b = \<lceil>real_of_int a / real_of_int b\<rceil>"
proof -
  have "\<lfloor>real_of_int (- a) / real_of_int b\<rfloor> = (- a) div b"
    by (rule floor_divide_of_int_eq)
  then show ?thesis by (simp add: ceiling_def ceil_div_def)
qed

lemma ceil_div_bounds:
  assumes "0 < b"
  shows "(ceil_div a b - 1) * b < a \<and> a \<le> ceil_div a b * b"
proof -
  define q where "q = (- a) div b"
  define r where "r = (- a) mod b"
  have e: "b * q + r = - a"
    unfolding q_def r_def by (rule mult_div_mod_eq)
  have "0 \<le> r" "r < b"
    using assms by (simp_all add: r_def)
  moreover have "(- q - 1) * b = - (b * q) - b" "- q * b = - (b * q)"
    by (simp_all add: algebra_simps)
  ultimately show ?thesis
    using e unfolding ceil_div_def q_def [symmetric] by linarith
qed

lemma ceil_div_unique:
  assumes "0 < b" and "(n - 1) * b < a" and "a \<le> n * b"
  shows "ceil_div a b = n"
proof -
  let ?c = "ceil_div a b"
  have c: "(?c - 1) * b < a" "a \<le> ?c * b"
    using ceil_div_bounds [OF assms(1)] by auto
  have "?c - 1 < n"
    using c(1) assms(3) mult_less_cancel_right_pos [OF assms(1), of "?c - 1" n] by linarith
  moreover have "n - 1 < ?c"
    using c(2) assms(2) mult_less_cancel_right_pos [OF assms(1), of "n - 1" ?c] by linarith
  ultimately show ?thesis by linarith
qed

lemma ms_per_day_pos [simp]: "0 < ms_per_day"
  by (simp add: ms_per_day_def)

lemma abs_ms_per_day [simp]: "\<bar>ms_per_day\<bar> = ms_per_day"
  by (simp add: ms_per_day_def)

lemma ceil_div_multiple:
  "0 < b \<Longrightarrow> ceil_div (n * b) b = n"
  by (rule ceil_div_unique) (simp_all add: algebra_simps)

lemma late_fine_days:
  "late_fine due ret = ceil_div \<bar>ret - due\<bar> ms_per_day * 5"
  by (simp add: late_fine_def fine_per_day_def)

lemma ceil_div_nonneg:
  assumes "0 < b" and "0 \<le> a"
  shows "0 \<le> ceil_div a b"
proof (rule ccontr)
  assume "\<not> 0 \<le> ceil_div a b"
  then have "ceil_div a b * b < 0"
    using assms(1) by (simp add: mult_less_0_iff)
  with ceil_div_bounds [OF assms(1), of a] assms(2) show False by linarith
qed

lemma late_fine_nonneg: "0 \<le> late_fine due ret"
  using ceil_div_nonneg [of ms_per_day "\<bar>ret - due\<bar>"] by (simp add: late_fine_days)

lemma ceil_div_mono: "0 < b \<Longrightarrow> a \<le> a' \<Longrightarrow> ceil_div a b \<le> ceil_div a' b"
  unfolding ceil_div_def using zdiv_mono1 [of "- a'" "- a" b] by simp

lemma ceil_div_pos:
  assumes "0 < b" and "0 < a"
  shows "0 < ceil_div a b"
proof (rule ccontr)
  assume "\<not> 0 < ceil_div a b"
  then have "ceil_div a b * b \<le> 0"
    using assms(1) by (simp add: mult_le_0_iff)
  with ceil_div_bounds [OF assms(1), of a] assms(2) show False by linarith
qed

lemma late_fine_pos: "due < ret \<Longrightarrow> 0 < late_fine due ret"
  using ceil_div_pos [of ms_per_day "\<bar>ret - due\<bar>"] by (simp add: late_fine_days)

lemma late_fine_mono: "due \<le> ret \<Longrightarrow> ret \<le> ret' \<Longrightarrow> late_fine due ret \<le> late_fine due ret'"
  using ceil_div_mono [of ms_per_day "\<bar>ret - due\<bar>" "\<bar>ret' - due\<bar>"] by (simp add: late_fine_days)

subsection \<open>The fine\<close>

text \<open>The integer fine equals the JavaScript computation: \<open>Math.ceil\<close> of the absolute
  time difference divided by the milliseconds of a day, times 5.\<close>

theorem late_fine_Math_ceil:
  "late_fine due ret = \<lceil>real_of_int \<bar>ret - due\<bar> / real_of_int ms_per_day\<rceil> * 5"
  by (simp add: late_fine_days ceil_div_real)

text \<open>A return a whole number of days after the due date is fined 5 per day: three
  days late gives 15, on the due date itself 0.\<close>

theorem late_fine_whole_days:
  "late_fine due (due + n * ms_per_day) = 5 * \<bar>n\<bar>"
  using ceil_div_multiple [of ms_per_day "\<bar>n\<bar>"]
  by (simp add: late_fine_days abs_mult abs_of_pos)

text \<open>A partial day counts as a whole day: between \<open>n\<close> and \<open>n + 1\<close> days late the
  fine is \<open>5 * (n + 1)\<close>.\<close>

theorem late_fine_partial_day:
  assumes "0 \<le> n" and "0 < r" and "r \<le> ms_per_day"
  shows "late_fine due (due + n * ms_per_day + r) = 5 * (n + 1)"
proof -
  have "ceil_div (n * ms_per_day + r) ms_per_day = n + 1"
    using assms by (intro ceil_div_unique) (simp_all add: algebra_simps)
  moreover have "\<bar>due + n * ms_per_day + r - due\<bar> = n * ms_per_day + r"
    using assms by simp
  ultimately show ?thesis by (simp add: late_fine_days)
qed

theorem late_fine_partial_day_witness:
  "late_fine 0 (0 + 3 * ms_per_day + 1) = 20"
  using late_fine_partial_day [of 3 1 0] by (simp add: ms_per_day_def)

end
