(* ===== verification/Loans.thy ===== *)
theory Loans
  imports Fine
begin

text \<open>
  The loan lifecycle manager, \<open>backend/controllers/issuedBookController.js\<close>:
  \<open>getIssuedBooks\<close> (lines 8--26), \<open>issueBook\<close> (lines 31--65) and \<open>returnBook\<close>
  (lines 70--100), each a function from the store to an error or a result with the new
  store.  Every early \<open>return\<close> of the source is an \<open>Inl\<close>; no handler writes before
  its last check, so an error leaves the store as it was.
\<close>

subsection \<open>Issuing a copy\<close>

text \<open>Lines 46--52: the new record; \<open>fineAmount\<close> takes the schema default 0 and
  \<open>returnDate\<close> is absent.\<close>

definition new_issued_book :: "oid \<Rightarrow> oid \<Rightarrow> time \<Rightarrow> time \<Rightarrow> issued_book" where
  "new_issued_book bid uid now due =
     \<lparr>bookId = bid, userId = uid, issueDate = now, dueDate = due,
      returnDate = None, status = Issued, fineAmount = 0\<rparr>"

text \<open>\<open>issueBook now bid uid due\<close> is the handler at time \<open>now\<close> for the body
  \<open>{bookId, userId, dueDate}\<close>; a body without \<open>dueDate\<close> (\<open>None\<close>) makes
  \<open>issuedBook.save()\<close> reject (the schema requires it) before anything is written.
  The book is written after the loan, from the copy read at line 34.\<close>

definition issueBook :: "time \<Rightarrow> oid \<Rightarrow> oid \<Rightarrow> time option \<Rightarrow> db \<Rightarrow> error + ((oid \<times> issued_book) \<times> db)" where
  "issueBook now bid uid due d =
     (case map_of (books d) bid of
        None \<Rightarrow> Inl BookNotFound
      | Some book \<Rightarrow>
          if availableCopies book < 1 then Inl BookNotAvailable
          else (case due of
                  None \<Rightarrow> Inl ValidationError
                | Some dd \<Rightarrow>
                    let ib = new_issued_book bid uid now dd;
                        (lid, d1) = insert_loan ib d
                    in Inr ((lid, ib), save_available bid (availableCopies book - 1) d1)))"

subsection \<open>Returning a copy\<close>

text \<open>Lines 74--85: the record is marked returned at \<open>now\<close>; a fine is set only when
  the return is strictly after the due date, otherwise \<open>fineAmount\<close> keeps its value.\<close>

definition return_update :: "time \<Rightarrow> issued_book \<Rightarrow> issued_book" where
  "return_update now ib =
     (let ib1 = ib\<lparr>returnDate := Some now, status := Returned\<rparr>
      in if dueDate ib1 < now then ib1\<lparr>fineAmount := late_fine (dueDate ib1) now\<rparr> else ib1)"

text \<open>Lines 70--100.  There is no check of the loan's status, and the book is looked up
  again after the loan is saved; a deleted book is skipped.\<close>

definition returnBook :: "time \<Rightarrow> oid \<Rightarrow> db \<Rightarrow> error + (issued_book \<times> db)" where
  "returnBook now lid d =
     (case map_of (loans d) lid of
        None \<Rightarrow> Inl IssuedBookNotFound
      | Some ib \<Rightarrow>
          let ib' = return_update now ib;
              d1 = save_loan lid ib' d
          in (case map_of (books d1) (bookId ib') of
                None \<Rightarrow> Inr (ib', d1)
              | Some book \<Rightarrow> Inr (ib', save_available (bookId ib') (availableCopies book + 1) d1)))"

subsection \<open>Listing loans\<close>

text \<open>\<open>populate('bookId', 'name author')\<close> and \<open>populate('userId', 'name email')\<close>:
  the referenced document's selected fields, or \<open>null\<close> when it was deleted.\<close>

type_synonym loan_view = "oid \<times> issued_book \<times> (string \<times> string) option \<times> (string \<times> string) option"

definition populate :: "db \<Rightarrow> oid \<times> issued_book \<Rightarrow> loan_view" where
  "populate d l =
     (let (lid, ib) = l
      in (lid, ib, map_option (\<lambda>b. (name b, author b)) (map_of (books d) (bookId ib)),
          map_option (\<lambda>u. (user_name u, email u)) (map_of (users d) (userId ib))))"

text \<open>Lines 10--18: the query is \<open>{}\<close> for an admin and \<open>{userId: req.user._id}\<close>
  otherwise.\<close>

definition loan_query :: "principal \<Rightarrow> oid option" where
  "loan_query p = (if principal_role p \<noteq> Admin then Some (principal_id p) else None)"

definition getIssuedBooks :: "principal \<Rightarrow> db \<Rightarrow> loan_view list" where
  "getIssuedBooks p d =
     map (populate d)
       (filter (\<lambda>(_, ib). case loan_query p of None \<Rightarrow> True | Some u \<Rightarrow> userId ib = u) (loans d))"

text \<open>The loan record a populated view was built from.\<close>

definition loan_key :: "loan_view \<Rightarrow> oid \<times> issued_book" where
  "loan_key v = (fst v, fst (snd v))"

declare issueBook_def [handler_defs] returnBook_def [handler_defs]

text \<open>The loan of user 7 on book 0 that the examples use.\<close>

abbreviation demo_loan :: issued_book where
  "demo_loan \<equiv> new_issued_book 0 7 0 100"

subsection \<open>Lemmas on the handlers\<close>

lemma issueBook_Inr:
  assumes "issueBook now bid uid due d = Inr (r, d')"
  obtains book dd where "map_of (books d) bid = Some book" and "1 \<le> availableCopies book"
    and "due = Some dd" and "r = (next_oid d, new_issued_book bid uid now dd)"
    and "d' = save_available bid (availableCopies book - 1)
                (d\<lparr>loans := loans d @ [(next_oid d, new_issued_book bid uid now dd)],
                   next_oid := Suc (next_oid d)\<rparr>)"
  using assms
  by (auto simp: issueBook_def insert_loan_def Let_def split: option.splits if_splits)

lemma return_update_fields [simp]:
  "bookId (return_update now ib) = bookId ib"
  "userId (return_update now ib) = userId ib"
  "issueDate (return_update now ib) = issueDate ib"
  "dueDate (return_update now ib) = dueDate ib"
  "returnDate (return_update now ib) = Some now"
  "status (return_update now ib) = Returned"
  "fineAmount (return_update now ib) = (if dueDate ib < now then late_fine (dueDate ib) now else fineAmount ib)"
  by (simp_all add: return_update_def Let_def)

lemma returnBook_Inr:
  assumes "returnBook now lid d = Inr (r, d')"
  obtains ib where "map_of (loans d) lid = Some ib" and "r = return_update now ib"
    and "d' = (case map_of (books d) (bookId ib) of
                 None \<Rightarrow> save_loan lid r d
               | Some book \<Rightarrow> save_available (bookId ib) (availableCopies book + 1) (save_loan lid r d))"
  using assms
  by (auto simp: returnBook_def save_loan_def Let_def split: option.splits)

subsection \<open>The ledger invariant across issue and return\<close>

lemma issueBook_keeps_balance:
  assumes wf: "wf_db d" and bal: "copies_balanced d" and ok: "issueBook now bid uid due d = Inr (r, d')"
  shows "wf_db d' \<and> copies_balanced d'"
proof -
  from ok obtain book dd where
    b: "map_of (books d) bid = Some book" and
    d': "d' = save_available bid (availableCopies book - 1)
                (d\<lparr>loans := loans d @ [(next_oid d, new_issued_book bid uid now dd)],
                   next_oid := Suc (next_oid d)\<rparr>)"
    by (rule issueBook_Inr)
  have dk: "distinct (keys (books d))"
    using wf by (simp add: wf_db_iff)
  have bid_lt: "bid < next_oid d"
    using wf b by (auto simp: wf_db_iff dest: map_of_Some_key)
  have wf': "wf_db d'"
    using wf bid_lt by (auto simp: wf_db_iff d' new_issued_book_def intro: distinct_fresh_append)
  have dk': "distinct (keys (books d'))"
    using dk by (simp add: d')
  have out: "outstanding (loans d') k = outstanding (loans d) k + of_bool (k = bid)" for k
    by (auto simp: d' new_issued_book_def)
  have "copies_balanced d'"
    unfolding copies_balanced_iff [OF dk']
  proof (intro allI impI)
    fix k c
    assume c: "map_of (books d') k = Some c"
    show "totalCopies c - availableCopies c = int (outstanding (loans d') k)"
    proof (cases "k = bid")
      case True
      with c b have "c = book\<lparr>availableCopies := availableCopies book - 1\<rparr>"
        by (simp add: d')
      with True b bal dk show ?thesis
        by (simp add: copies_balanced_iff out)
    next
      case False
      with c have "map_of (books d) k = Some c"
        by (simp add: d')
      with False bal dk show ?thesis
        by (simp add: copies_balanced_iff out)
    qed
  qed
  with wf' show ?thesis by simp
qed

lemma issueBook_keeps_ledger_inv:
  assumes inv: "ledger_inv d" and ok: "issueBook now bid uid due d = Inr (r, d')"
  shows "ledger_inv d'"
proof -
  from ok obtain book dd where
    b: "map_of (books d) bid = Some book" and avail: "1 \<le> availableCopies book" and
    d': "d' = save_available bid (availableCopies book - 1)
                (d\<lparr>loans := loans d @ [(next_oid d, new_issued_book bid uid now dd)],
                   next_oid := Suc (next_oid d)\<rparr>)"
    by (rule issueBook_Inr)
  from inv have wf: "wf_db d" and bal: "copies_balanced d" and nn: "copies_nonneg d"
    by (simp_all add: ledger_inv_def)
  have dk: "distinct (keys (books d))"
    using wf by (simp add: wf_db_iff)
  have dk': "distinct (keys (books d'))"
    using dk by (simp add: d')
  have "copies_nonneg d'"
    unfolding copies_nonneg_iff [OF dk']
  proof (intro allI impI)
    fix k c
    assume c: "map_of (books d') k = Some c"
    show "0 \<le> availableCopies c"
    proof (cases "k = bid")
      case True
      with c b avail show ?thesis by (auto simp: d')
    next
      case False
      with c nn dk show ?thesis by (simp add: d' copies_nonneg_iff)
    qed
  qed
  with issueBook_keeps_balance [OF wf bal ok] show ?thesis
    by (simp add: ledger_inv_def)
qed

text \<open>C1: issuing a copy keeps the inventory ledger invariant: ids stay well formed,
  \<open>totalCopies - availableCopies\<close> stays the number of outstanding loans of each book,
  and \<open>availableCopies\<close> stays non-negative.\<close>

theorem issueBook_preserves_ledger_inv:
  assumes inv: "ledger_inv d" and ok: "issueBook now bid uid due d = Inr (r, d')"
  shows "ledger_inv d'"
  using assms by (rule issueBook_keeps_ledger_inv)

theorem issueBook_preserves_ledger_inv_witness:
  "ledger_inv (demo_store 2 [] 1) \<and>
   issueBook 0 0 7 (Some 100) (demo_store 2 [] 1)
     = Inr ((1, demo_loan), (demo_store 1 [(1, demo_loan)] 2)) \<and>
   ledger_inv (demo_store 1 [(1, demo_loan)] 2)"
proof -
  have h1: "ledger_inv (demo_store 2 [] 1)"
    by (simp add: ledger_inv_def wf_db_def copies_balanced_def copies_nonneg_def outstanding_def)
  have h2: "issueBook 0 0 7 (Some 100) (demo_store 2 [] 1)
     = Inr ((1, demo_loan), (demo_store 1 [(1, demo_loan)] 2))"
    by (simp add: issueBook_def insert_loan_def save_available_def Let_def)
  show ?thesis
    using h1 h2 issueBook_preserves_ledger_inv [OF h1 h2] by simp
qed

lemma returnBook_keeps_balance:
  assumes wf: "wf_db d" and bal: "copies_balanced d" and lid: "map_of (loans d) lid = Some ib"
    and st: "status ib = Issued" and ok: "returnBook now lid d = Inr (r, d')"
  shows "wf_db d' \<and> copies_balanced d'"
proof -
  from ok lid have r: "r = return_update now ib"
    and d': "d' = (case map_of (books d) (bookId ib) of
                 None \<Rightarrow> save_loan lid r d
               | Some book \<Rightarrow> save_available (bookId ib) (availableCopies book + 1) (save_loan lid r d))"
    by (auto elim: returnBook_Inr)
  have dk: "distinct (keys (books d))"
    using wf by (simp add: wf_db_iff)
  have loans': "loans d' = AList.update lid r (loans d)"
    by (simp add: d' save_loan_def split: option.splits)
  have keys': "keys (books d') = keys (books d)" "next_oid d' = next_oid d"
    by (simp_all add: d' save_loan_def split: option.splits)
  have out: "outstanding (loans d') k + of_bool (k = bookId ib) = outstanding (loans d) k" for k
    using outstanding_update [OF lid, of r k] st by (auto simp: loans' r)
  have wf': "wf_db d'"
  proof -
    have "\<forall>(k, ib) \<in> set (loans d'). bookId ib < next_oid d"
      using wf lid set_update_subset [of lid r "loans d"]
      by (fastforce simp: wf_db_iff loans' r dest: map_of_SomeD)
    then show ?thesis
      using wf lid by (simp add: wf_db_iff loans' keys')
  qed
  have dk': "distinct (keys (books d'))"
    using dk by (simp add: keys')
  have "copies_balanced d'"
    unfolding copies_balanced_iff [OF dk']
  proof (intro allI impI)
    fix k c
    assume c: "map_of (books d') k = Some c"
    show "totalCopies c - availableCopies c = int (outstanding (loans d') k)"
    proof (cases "k = bookId ib")
      case True
      with c obtain c0 where c0: "map_of (books d) k = Some c0"
        and "c = c0\<lparr>availableCopies := availableCopies c0 + 1\<rparr>"
        by (auto simp: d' save_loan_def split: option.splits)
      with True copies_balancedD [OF bal dk c0] out [of k] show ?thesis
        by simp
    next
      case False
      with c have "map_of (books d) k = Some c"
        by (simp add: d' save_loan_def split: option.splits)
      with False copies_balancedD [OF bal dk] out [of k] show ?thesis
        by simp
    qed
  qed
  with wf' show ?thesis by simp
qed

lemma returnBook_keeps_ledger_inv:
  assumes inv: "ledger_inv d" and lid: "map_of (loans d) lid = Some ib" and st: "status ib = Issued"
    and ok: "returnBook now lid d = Inr (r, d')"
  shows "ledger_inv d'"
proof -
  from ok lid have d': "d' = (case map_of (books d) (bookId ib) of
                 None \<Rightarrow> save_loan lid r d
               | Some book \<Rightarrow> save_available (bookId ib) (availableCopies book + 1) (save_loan lid r d))"
    by (auto elim: returnBook_Inr)
  from inv have wf: "wf_db d" and bal: "copies_balanced d" and nn: "copies_nonneg d"
    by (simp_all add: ledger_inv_def)
  have dk: "distinct (keys (books d))"
    using wf by (simp add: wf_db_iff)
  have dk': "distinct (keys (books d'))"
    using dk by (simp add: d' save_loan_def split: option.splits)
  have "copies_nonneg d'"
    unfolding copies_nonneg_iff [OF dk']
  proof (intro allI impI)
    fix k c
    assume c: "map_of (books d') k = Some c"
    then obtain c0 where "map_of (books d) k = Some c0" and "availableCopies c0 \<le> availableCopies c"
      by (cases "k = bookId ib") (auto simp: d' save_loan_def split: option.splits)
    with copies_nonnegD [OF nn dk] show "0 \<le> availableCopies c"
      by fastforce
  qed
  with returnBook_keeps_balance [OF wf bal lid st ok] show ?thesis
    by (simp add: ledger_inv_def)
qed

text \<open>C2: returning a loan that is still \<open>Issued\<close> keeps the ledger invariant; the
  copy goes back to its book if the book still exists.\<close>

theorem returnBook_preserves_ledger_inv:
  assumes inv: "ledger_inv d" and lid: "map_of (loans d) lid = Some ib" and st: "status ib = Issued"
    and ok: "returnBook now lid d = Inr (r, d')"
  shows "ledger_inv d'"
  using assms by (rule returnBook_keeps_ledger_inv)

theorem returnBook_preserves_ledger_inv_witness:
  "ledger_inv (demo_store 1 [(1, demo_loan)] 2) \<and>
   returnBook 50 1 (demo_store 1 [(1, demo_loan)] 2)
     = Inr (return_update 50 (demo_loan), (demo_store 2 [(1, return_update 50 demo_loan)] 2)) \<and>
   ledger_inv (demo_store 2 [(1, return_update 50 demo_loan)] 2)"
proof -
  have h1: "ledger_inv (demo_store 1 [(1, demo_loan)] 2)"
    by (simp add: ledger_inv_def wf_db_def copies_balanced_def copies_nonneg_def outstanding_def
        new_issued_book_def)
  have h2: "map_of (loans (demo_store 1 [(1, demo_loan)] 2)) 1 = Some (demo_loan)"
    by simp
  have h3: "status (demo_loan) = Issued"
    by (simp add: new_issued_book_def)
  have h4: "returnBook 50 1 (demo_store 1 [(1, demo_loan)] 2)
     = Inr (return_update 50 (demo_loan), (demo_store 2 [(1, return_update 50 demo_loan)] 2))"
    by (simp add: returnBook_def save_loan_def save_available_def new_issued_book_def Let_def)
  show ?thesis
    using h1 h4 returnBook_preserves_ledger_inv [OF h1 h2 h3 h4] by simp
qed

subsection \<open>Returning a loan twice\<close>

text \<open>C3: \<open>returnBook\<close> has no guard on the loan's status.  Returning a loan that is
  already \<open>Returned\<close> succeeds again, puts one more copy back on an existing book, and
  so breaks the balance between copies and outstanding loans (available can exceed total).\<close>

theorem returnBook_Returned_unbalances:
  assumes inv: "ledger_inv d" and lid: "map_of (loans d) lid = Some ib" and st: "status ib = Returned"
    and b: "map_of (books d) (bookId ib) = Some book"
  shows "\<exists>d'. returnBook now lid d = Inr (return_update now ib, d')
       \<and> map_of (books d') (bookId ib) = Some (book\<lparr>availableCopies := availableCopies book + 1\<rparr>)
       \<and> \<not> copies_balanced d'"
proof -
  define r where "r = return_update now ib"
  define d' where "d' = save_available (bookId ib) (availableCopies book + 1) (save_loan lid r d)"
  have ok: "returnBook now lid d = Inr (r, d')"
    using lid b by (simp add: returnBook_def save_loan_def Let_def r_def d'_def)
  from inv have wf: "wf_db d" and bal: "copies_balanced d"
    by (simp_all add: ledger_inv_def)
  have dk': "distinct (keys (books d'))"
    using wf by (simp add: wf_db_iff d'_def save_loan_def)
  have out: "outstanding (loans d') k = outstanding (loans d) k" for k
    using outstanding_update [OF lid, of r k] st by (simp add: d'_def save_loan_def r_def)
  have new: "map_of (books d') (bookId ib) = Some (book\<lparr>availableCopies := availableCopies book + 1\<rparr>)"
    using b by (simp add: d'_def save_loan_def)
  have old: "totalCopies book - availableCopies book = int (outstanding (loans d) (bookId ib))"
    using copies_balancedD [OF bal _ b] wf by (simp add: wf_db_iff)
  have "\<not> copies_balanced d'"
  proof
    assume "copies_balanced d'"
    from copies_balancedD [OF this dk' new] old out show False by simp
  qed
  with ok new show ?thesis by (auto simp: r_def)
qed

theorem returnBook_Returned_unbalances_witness:
  "ledger_inv (demo_store 2 [(1, return_update 50 demo_loan)] 2) \<and>
   (\<exists>d'. returnBook 60 1 (demo_store 2 [(1, return_update 50 demo_loan)] 2)
          = Inr (return_update 60 (return_update 50 demo_loan), d')
     \<and> map_of (books d') 0 = Some (sicp 3) \<and> \<not> copies_balanced d') \<and>
   availableCopies (sicp 3) > totalCopies (sicp 3)"
proof -
  have h1: "ledger_inv (demo_store 2 [(1, return_update 50 demo_loan)] 2)"
    by (simp add: ledger_inv_def wf_db_def copies_balanced_def copies_nonneg_def outstanding_def
        new_issued_book_def)
  have h2: "map_of (loans (demo_store 2 [(1, return_update 50 demo_loan)] 2)) 1 = Some (return_update 50 demo_loan)"
    by simp
  have h3: "status (return_update 50 demo_loan) = Returned"
    by simp
  have h4: "map_of (books (demo_store 2 [(1, return_update 50 demo_loan)] 2)) (bookId (return_update 50 demo_loan)) = Some (sicp 2)"
    by (simp add: new_issued_book_def)
  show ?thesis
    using h1 returnBook_Returned_unbalances [OF h1 h2 h3 h4, of 60] by (simp add: new_issued_book_def)
qed

subsection \<open>Issuing: errors and effect\<close>

text \<open>C4: \<open>issueBook\<close> fails with \<open>BookNotAvailable\<close> (400) exactly when the book exists
  and has no copy left; as every error, it returns no new store.\<close>

theorem issueBook_unavailable_iff:
  "issueBook now bid uid due d = Inl BookNotAvailable \<longleftrightarrow>
     (\<exists>book. map_of (books d) bid = Some book \<and> availableCopies book < 1)"
  by (auto simp: issueBook_def Let_def split: option.splits prod.splits)

theorem issueBook_unavailable_iff_witness:
  "issueBook 0 0 7 (Some 100) (demo_store 0 [] 1) = Inl BookNotAvailable"
  using issueBook_unavailable_iff [of 0 0 7 "Some 100" "demo_store 0 [] 1"] by simp

text \<open>C5: when the book exists with a copy free and a due date is given, \<open>issueBook\<close>
  appends one \<open>Issued\<close> loan with a fresh id, no fine and no return date, decrements that
  book's \<open>availableCopies\<close> by one and changes no other book.\<close>

theorem issueBook_success:
  assumes "map_of (books d) bid = Some book" and "1 \<le> availableCopies book"
  shows "\<exists>d'. issueBook now bid uid (Some due) d = Inr ((next_oid d, new_issued_book bid uid now due), d')
    \<and> loans d' = loans d @ [(next_oid d, new_issued_book bid uid now due)]
    \<and> map_of (books d') bid = Some (book\<lparr>availableCopies := availableCopies book - 1\<rparr>)
    \<and> (\<forall>k. k \<noteq> bid \<longrightarrow> map_of (books d') k = map_of (books d) k)
    \<and> next_oid d' = Suc (next_oid d)"
  using assms by (simp add: issueBook_def insert_loan_def Let_def)

theorem issueBook_success_witness:
  "\<exists>d'. issueBook 0 0 7 (Some 100) (demo_store 2 [] 1) = Inr ((1, demo_loan), d')
     \<and> map_of (books d') 0 = Some (sicp 1)"
proof -
  have h1: "map_of (books (demo_store 2 [] 1)) 0 = Some (sicp 2)" by simp
  have h2: "1 \<le> availableCopies (sicp 2)" by simp
  show ?thesis using issueBook_success [OF h1 h2, of 0 7 100] by auto
qed

subsection \<open>Returning: effect and fine\<close>

text \<open>C6: \<open>returnBook\<close> of an existing loan always succeeds; it stores the record marked
  \<open>Returned\<close> with \<open>returnDate = now\<close>, and its fine is \<open>Math.ceil\<close> of the days past the
  due date times 5 when the return is late, and the old fine otherwise.\<close>

theorem returnBook_success:
  assumes "map_of (loans d) lid = Some ib"
  shows "\<exists>d'. returnBook now lid d = Inr (return_update now ib, d')
    \<and> map_of (loans d') lid = Some (return_update now ib)
    \<and> status (return_update now ib) = Returned \<and> returnDate (return_update now ib) = Some now
    \<and> fineAmount (return_update now ib) =
        (if dueDate ib < now then \<lceil>real_of_int (now - dueDate ib) / real_of_int ms_per_day\<rceil> * 5
         else fineAmount ib)"
  using assms by (auto simp: returnBook_def save_loan_def Let_def late_fine_days ceil_div_real
      split: option.splits)

theorem returnBook_success_witness:
  "\<exists>d'. returnBook 50 1 (demo_store 1 [(1, demo_loan)] 2) = Inr (return_update 50 demo_loan, d')
     \<and> fineAmount (return_update 50 demo_loan) = 0"
proof -
  have h: "map_of (loans (demo_store 1 [(1, demo_loan)] 2)) 1 = Some demo_loan" by simp
  show ?thesis using returnBook_success [OF h, of 50] by (auto simp: new_issued_book_def)
qed

text \<open>C7: on a fresh loan (fine 0, the schema default of every issued record) the fine a
  return stores is zero exactly when the copy comes back by its due date, and a later
  return is never fined less than an earlier one.\<close>

theorem return_fine_on_time_and_monotone:
  assumes "fineAmount ib = 0"
  shows "(fineAmount (return_update now ib) = 0 \<longleftrightarrow> now \<le> dueDate ib) \<and>
         (now \<le> now' \<longrightarrow> fineAmount (return_update now ib) \<le> fineAmount (return_update now' ib))"
  using assms late_fine_pos [of "dueDate ib" now] late_fine_nonneg [of "dueDate ib" now']
    late_fine_mono [of "dueDate ib" now now']
  by (auto simp: return_update_def Let_def)

theorem return_fine_on_time_and_monotone_witness:
  "fineAmount (return_update 50 demo_loan) = 0 \<and>
   fineAmount (return_update (100 + ms_per_day) demo_loan) \<noteq> 0 \<and>
   fineAmount (return_update 50 demo_loan) \<le> fineAmount (return_update 200 demo_loan)"
  using return_fine_on_time_and_monotone [of demo_loan 50 200]
    return_fine_on_time_and_monotone [of demo_loan "100 + ms_per_day" 0]
  by (simp add: new_issued_book_def ms_per_day_def)

text \<open>C13: issue and return are inverse on the inventory: issuing a copy of a book and
  then returning the new loan leaves the books exactly as they were, and appends the loan
  record, marked returned, to the loans.\<close>

theorem issue_return_roundtrip:
  assumes wf: "wf_db d" and b: "map_of (books d) bid = Some book" and a: "1 \<le> availableCopies book"
  shows "\<exists>d1 d2. issueBook now bid uid (Some due) d = Inr ((next_oid d, new_issued_book bid uid now due), d1)
     \<and> returnBook ret (next_oid d) d1 = Inr (return_update ret (new_issued_book bid uid now due), d2)
     \<and> books d2 = books d
     \<and> loans d2 = loans d @ [(next_oid d, return_update ret (new_issued_book bid uid now due))]"
proof -
  let ?ib = "new_issued_book bid uid now due" and ?n = "next_oid d"
  define d1 where "d1 = save_available bid (availableCopies book - 1)
                          (d\<lparr>loans := loans d @ [(?n, ?ib)], next_oid := Suc ?n\<rparr>)"
  define d2 where "d2 = save_available bid (availableCopies book - 1 + 1) (save_loan ?n (return_update ret ?ib) d1)"
  have fresh: "?n \<notin> set (keys (loans d))"
    using wf by (auto simp: wf_db_iff)
  then have "map_of (loans d) ?n = None"
    by (simp add: map_of_eq_None_iff)
  then have l1: "map_of (loans d1) ?n = Some ?ib"
    by (simp add: d1_def map_add_def)
  have b1: "map_of (books d1) bid = Some (book\<lparr>availableCopies := availableCopies book - 1\<rparr>)"
    using b by (simp add: d1_def)
  have "issueBook now bid uid (Some due) d = Inr ((?n, ?ib), d1)"
    using b a by (simp add: issueBook_def insert_loan_def Let_def d1_def)
  moreover have "returnBook ret ?n d1 = Inr (return_update ret ?ib, d2)"
    using l1 b1 by (simp add: returnBook_def save_loan_def Let_def d2_def new_issued_book_def)
  moreover have "books d2 = books d"
    using b by (simp add: d2_def d1_def save_loan_def comp_def map_entry_fixed)
  moreover have "loans d2 = loans d @ [(?n, return_update ret ?ib)]"
    using fresh by (simp add: d2_def d1_def save_loan_def update_append_fresh)
  ultimately show ?thesis by blast
qed

theorem issue_return_roundtrip_witness:
  "\<exists>d1 d2. issueBook 0 0 7 (Some 100) (demo_store 2 [] 1) = Inr ((1, demo_loan), d1)
     \<and> returnBook 150 1 d1 = Inr (return_update 150 demo_loan, d2)
     \<and> books d2 = [(0, sicp 2)] \<and> loans d2 = [(1, return_update 150 demo_loan)]"
proof -
  have h1: "wf_db (demo_store 2 [] 1)" by (simp add: wf_db_def)
  have h2: "map_of (books (demo_store 2 [] 1)) 0 = Some (sicp 2)" by simp
  have h3: "1 \<le> availableCopies (sicp 2)" by simp
  show ?thesis using issue_return_roundtrip [OF h1 h2 h3, of 0 7 100 150] by simp
qed

text \<open>The spec's example end to end: a loan issued at time 0 and due fourteen days
  later, returned three days after the due date, is fined 15; returned on the due date, 0.\<close>

theorem returnBook_fine_example:
  "\<exists>d1 d2.
     returnBook (17 * ms_per_day) 1 (demo_store 1 [(1, new_issued_book 0 7 0 (14 * ms_per_day))] 2)
       = Inr (return_update (17 * ms_per_day) (new_issued_book 0 7 0 (14 * ms_per_day)), d1)
   \<and> fineAmount (return_update (17 * ms_per_day) (new_issued_book 0 7 0 (14 * ms_per_day))) = 15
   \<and> returnBook (14 * ms_per_day) 1 (demo_store 1 [(1, new_issued_book 0 7 0 (14 * ms_per_day))] 2)
       = Inr (return_update (14 * ms_per_day) (new_issued_book 0 7 0 (14 * ms_per_day)), d2)
   \<and> fineAmount (return_update (14 * ms_per_day) (new_issued_book 0 7 0 (14 * ms_per_day))) = 0"
proof -
  have "late_fine (14 * ms_per_day) (17 * ms_per_day) = 15"
    using ceil_div_multiple [of ms_per_day 3] by (simp add: late_fine_days abs_mult)
  then have "fineAmount (return_update (17 * ms_per_day) (new_issued_book 0 7 0 (14 * ms_per_day))) = 15"
    by (simp add: new_issued_book_def algebra_simps)
  then show ?thesis
    by (simp add: returnBook_def save_loan_def save_available_def new_issued_book_def Let_def)
qed

text \<open>A loan whose book was deleted can still be returned: the loan is updated and
  the books are left as they were.\<close>

theorem returnBook_deleted_book:
  assumes "map_of (loans d) lid = Some ib" and "map_of (books d) (bookId ib) = None"
  shows "returnBook now lid d = Inr (return_update now ib, save_loan lid (return_update now ib) d)
    \<and> books (save_loan lid (return_update now ib) d) = books d"
  using assms by (simp add: returnBook_def save_loan_def Let_def)

theorem returnBook_deleted_book_witness:
  "returnBook 50 1 (demo_store 1 [(1, new_issued_book 5 7 0 100)] 2)
     = Inr (return_update 50 (new_issued_book 5 7 0 100),
            save_loan 1 (return_update 50 (new_issued_book 5 7 0 100)) (demo_store 1 [(1, new_issued_book 5 7 0 100)] 2))"
proof -
  have h1: "map_of (loans (demo_store 1 [(1, new_issued_book 5 7 0 100)] 2)) 1 = Some (new_issued_book 5 7 0 100)"
    by simp
  have h2: "map_of (books (demo_store 1 [(1, new_issued_book 5 7 0 100)] 2)) (bookId (new_issued_book 5 7 0 100)) = None"
    by (simp add: new_issued_book_def)
  show ?thesis using returnBook_deleted_book [OF h1 h2, of 50] by simp
qed

subsection \<open>Listing loans\<close>

lemma populate_key [simp]: "loan_key (populate d l) = l"
  by (cases l) (simp add: populate_def loan_key_def)

lemma unpopulate: "loan_key \<circ> populate d = id"
  by (simp add: fun_eq_iff)

text \<open>C12: a caller who is not an admin gets exactly their own loans, in the stored order,
  and never another user's.\<close>

theorem getIssuedBooks_own:
  assumes "principal_role p \<noteq> Admin"
  shows "map loan_key (getIssuedBooks p d)
       = filter (\<lambda>(_, ib). userId ib = principal_id p) (loans d)"
  using assms by (simp add: getIssuedBooks_def loan_query_def unpopulate)

theorem getIssuedBooks_own_witness:
  "map loan_key
     (getIssuedBooks \<lparr>principal_id = 8, principal_role = Student\<rparr> (demo_store 1 [(1, demo_loan)] 2)) = []"
  using getIssuedBooks_own [of "\<lparr>principal_id = 8, principal_role = Student\<rparr>" "demo_store 1 [(1, demo_loan)] 2"]
  by (simp add: new_issued_book_def)

end
