(* ===== verification/Books.thy ===== *)
theory Books
  imports Model
begin

text \<open>
  The inventory edits of \<open>backend/controllers/bookController.js\<close>: \<open>getBooks\<close>
  (lines 6--9), \<open>addBook\<close> (lines 14--27), \<open>updateBook\<close> (lines 32--53) and
  \<open>deleteBook\<close> (lines 58--67).  The request body is a record whose missing fields are
  JavaScript's falsy values: \<open>''\<close> for a string, \<open>None\<close> for \<open>totalCopies\<close>.  The
  lemmas show which edits keep the ledger invariant of \<open>Model\<close> and which do not.
\<close>

record book_body =
  body_name :: string
  body_author :: string
  body_category :: string
  body_totalCopies :: "int option"

text \<open>\<open>x || d\<close> on a number: \<open>undefined\<close> and \<open>0\<close> are falsy.\<close>

definition js_or_int :: "int option \<Rightarrow> int \<Rightarrow> int" where
  "js_or_int x dflt = (case x of None \<Rightarrow> dflt | Some n \<Rightarrow> if n = 0 then dflt else n)"

text \<open>\<open>s || d\<close> on a string: \<open>undefined\<close> and \<open>''\<close> are falsy.\<close>

definition js_or_str :: "string \<Rightarrow> string \<Rightarrow> string" where
  "js_or_str s dflt = (if s = [] then dflt else s)"

definition getBooks :: "db \<Rightarrow> book collection" where
  "getBooks d = books d"

text \<open>Lines 14--27.  \<open>totalCopies || 1\<close> sets both counters; the schema's
  \<open>required\<close> strings reject an empty name, author or category, and the rejected
  \<open>save()\<close> is not caught.\<close>

definition addBook :: "book_body \<Rightarrow> db \<Rightarrow> error + ((oid \<times> book) \<times> db)" where
  "addBook body d =
     (let book = \<lparr>name = body_name body, author = body_author body, category = body_category body,
                  totalCopies = js_or_int (body_totalCopies body) 1,
                  availableCopies = js_or_int (body_totalCopies body) 1\<rparr>
      in if name book = [] \<or> author book = [] \<or> category book = [] then Inl ValidationError
         else (let (bid, d') = insert_book book d in Inr ((bid, book), d')))"

text \<open>Lines 32--53.  The strings fall back to the stored ones; a given
  \<open>totalCopies\<close> (0 included: the test is \<open>!== undefined\<close>) moves \<open>availableCopies\<close> by
  the same difference, with no bound on either.\<close>

definition updateBook :: "oid \<Rightarrow> book_body \<Rightarrow> db \<Rightarrow> error + (book \<times> db)" where
  "updateBook bid body d =
     (case map_of (books d) bid of
        None \<Rightarrow> Inl BookNotFound
      | Some book \<Rightarrow>
          let b1 = book\<lparr>name := js_or_str (body_name body) (name book),
                        author := js_or_str (body_author body) (author book),
                        category := js_or_str (body_category body) (category book)\<rparr>;
              b2 = (case body_totalCopies body of
                      None \<Rightarrow> b1
                    | Some t \<Rightarrow>
                        let difference = t - totalCopies b1
                        in b1\<lparr>totalCopies := t, availableCopies := availableCopies b1 + difference\<rparr>)
          in Inr (b2, save_book bid b2 d))"

text \<open>Lines 58--67: the book goes, its loans stay.\<close>

definition deleteBook :: "oid \<Rightarrow> db \<Rightarrow> error + db" where
  "deleteBook bid d =
     (case map_of (books d) bid of
        None \<Rightarrow> Inl BookNotFound
      | Some _ \<Rightarrow> Inr (d\<lparr>books := AList.delete bid (books d)\<rparr>))"

declare addBook_def [handler_defs] updateBook_def [handler_defs] deleteBook_def [handler_defs]

subsection \<open>Lemmas on the handlers\<close>

lemma addBook_Inr:
  assumes "addBook body d = Inr (r, d')"
  shows "r = (next_oid d, snd r) \<and> d' = d\<lparr>books := books d @ [r], next_oid := Suc (next_oid d)\<rparr>
    \<and> totalCopies (snd r) = js_or_int (body_totalCopies body) 1
    \<and> availableCopies (snd r) = js_or_int (body_totalCopies body) 1"
  using assms by (auto simp: addBook_def insert_book_def Let_def split: if_splits)

lemma updateBook_Inr:
  assumes "updateBook bid body d = Inr (b, d')"
  obtains book where "map_of (books d) bid = Some book" and "d' = save_book bid b d"
    and "totalCopies b - availableCopies b = totalCopies book - availableCopies book"
  using assms
  by (auto simp: updateBook_def Let_def split: option.splits)

lemma save_book_fields [simp]:
  "books (save_book k b d) = AList.update k b (books d)"
  "loans (save_book k b d) = loans d"
  "next_oid (save_book k b d) = next_oid d"
  by (simp_all add: save_book_def)

subsection \<open>Adding a book\<close>

text \<open>C14: \<open>totalCopies || 1\<close>: a book added with \<open>totalCopies\<close> 0 or without it gets
  one copy, total and available, and a fresh id at the end of the collection.\<close>

theorem addBook_default_copies:
  assumes "body_name body \<noteq> []" and "body_author body \<noteq> []" and "body_category body \<noteq> []"
    and "body_totalCopies body = None \<or> body_totalCopies body = Some 0"
  shows "addBook body d =
    Inr ((next_oid d, \<lparr>name = body_name body, author = body_author body, category = body_category body,
                       totalCopies = 1, availableCopies = 1\<rparr>),
         d\<lparr>books := books d @ [(next_oid d, \<lparr>name = body_name body, author = body_author body,
                 category = body_category body, totalCopies = 1, availableCopies = 1\<rparr>)],
           next_oid := Suc (next_oid d)\<rparr>)"
  using assms by (auto simp: addBook_def insert_book_def js_or_int_def Let_def)

theorem addBook_default_copies_witness:
  "addBook \<lparr>body_name = ''B'', body_author = ''A'', body_category = ''C'', body_totalCopies = Some 0\<rparr>
     (demo_store 2 [] 1)
   = Inr ((1, \<lparr>name = ''B'', author = ''A'', category = ''C'', totalCopies = 1, availableCopies = 1\<rparr>),
          \<lparr>books = [(0, sicp 2), (1, \<lparr>name = ''B'', author = ''A'', category = ''C'',
             totalCopies = 1, availableCopies = 1\<rparr>)], loans = [], users = [], next_oid = 2\<rparr>)"
  using addBook_default_copies [of "\<lparr>body_name = ''B'', body_author = ''A'', body_category = ''C'',
      body_totalCopies = Some 0\<rparr>" "demo_store 2 [] 1"]
  by simp

lemma addBook_keeps_balance:
  assumes wf: "wf_db d" and bal: "copies_balanced d" and ok: "addBook body d = Inr (r, d')"
  shows "wf_db d' \<and> copies_balanced d'"
proof -
  from addBook_Inr [OF ok] obtain b where
    d': "d' = d\<lparr>books := books d @ [(next_oid d, b)], next_oid := Suc (next_oid d)\<rparr>"
    and tc: "totalCopies b = js_or_int (body_totalCopies body) 1"
    and ac: "availableCopies b = js_or_int (body_totalCopies body) 1"
    by (cases r) auto
  have fresh: "outstanding (loans d) (next_oid d) = 0"
    using wf by (intro outstanding_fresh) (simp add: wf_db_iff)
  have "wf_db d'"
    using wf by (auto simp: wf_db_iff d' intro: distinct_fresh_append)
  moreover have "copies_balanced d'"
    using bal fresh tc ac by (simp add: copies_balanced_def d')
  ultimately show ?thesis ..
qed

lemma addBook_keeps_ledger_inv_iff:
  assumes inv: "ledger_inv d" and ok: "addBook body d = Inr (r, d')"
  shows "ledger_inv d' \<longleftrightarrow> 0 \<le> js_or_int (body_totalCopies body) 1"
proof -
  from addBook_Inr [OF ok] obtain b where r: "r = (next_oid d, b)"
    and d': "d' = d\<lparr>books := books d @ [(next_oid d, b)], next_oid := Suc (next_oid d)\<rparr>"
    and tc: "totalCopies b = js_or_int (body_totalCopies body) 1"
    and ac: "availableCopies b = js_or_int (body_totalCopies body) 1"
    by (cases r) auto
  from inv have wf: "wf_db d" and bal: "copies_balanced d" and nn: "copies_nonneg d"
    by (simp_all add: ledger_inv_def)
  have "copies_nonneg d' \<longleftrightarrow> 0 \<le> js_or_int (body_totalCopies body) 1"
    using nn ac by (simp add: copies_nonneg_def d')
  with addBook_keeps_balance [OF wf bal ok] show ?thesis
    by (simp add: ledger_inv_def)
qed

text \<open>C15: adding a book keeps the ledger invariant exactly when the stored count
  \<open>totalCopies || 1\<close> is not negative; nothing rejects a negative \<open>totalCopies\<close>.\<close>

theorem addBook_ledger_inv_iff:
  assumes inv: "ledger_inv d" and ok: "addBook body d = Inr (r, d')"
  shows "ledger_inv d' \<longleftrightarrow> 0 \<le> js_or_int (body_totalCopies body) 1"
  using assms by (rule addBook_keeps_ledger_inv_iff)

theorem addBook_ledger_inv_iff_witness:
  "ledger_inv (demo_store 2 [] 1) \<and>
   addBook \<lparr>body_name = ''B'', body_author = ''A'', body_category = ''C'', body_totalCopies = Some (-1)\<rparr>
     (demo_store 2 [] 1)
   = Inr ((1, \<lparr>name = ''B'', author = ''A'', category = ''C'', totalCopies = -1, availableCopies = -1\<rparr>),
          \<lparr>books = [(0, sicp 2), (1, \<lparr>name = ''B'', author = ''A'', category = ''C'',
             totalCopies = -1, availableCopies = -1\<rparr>)], loans = [], users = [], next_oid = 2\<rparr>) \<and>
   \<not> ledger_inv \<lparr>books = [(0, sicp 2), (1, \<lparr>name = ''B'', author = ''A'', category = ''C'',
             totalCopies = -1, availableCopies = -1\<rparr>)], loans = [], users = [], next_oid = 2\<rparr>"
proof -
  have h1: "ledger_inv (demo_store 2 [] 1)"
    by (simp add: ledger_inv_def wf_db_def copies_balanced_def copies_nonneg_def outstanding_def)
  have h2: "addBook \<lparr>body_name = ''B'', body_author = ''A'', body_category = ''C'', body_totalCopies = Some (-1)\<rparr>
     (demo_store 2 [] 1)
   = Inr ((1, \<lparr>name = ''B'', author = ''A'', category = ''C'', totalCopies = -1, availableCopies = -1\<rparr>),
          \<lparr>books = [(0, sicp 2), (1, \<lparr>name = ''B'', author = ''A'', category = ''C'',
             totalCopies = -1, availableCopies = -1\<rparr>)], loans = [], users = [], next_oid = 2\<rparr>)"
    by (simp add: addBook_def insert_book_def js_or_int_def Let_def)
  show ?thesis
    using h1 h2 addBook_ledger_inv_iff [OF h1 h2] by (simp add: js_or_int_def)
qed

subsection \<open>Editing a book\<close>

lemma updateBook_balance:
  assumes wf: "wf_db d" and bal: "copies_balanced d" and ok: "updateBook bid body d = Inr (b, d')"
  shows "wf_db d' \<and> copies_balanced d'"
proof -
  from ok obtain book where bk: "map_of (books d) bid = Some book" and d': "d' = save_book bid b d"
    and diff: "totalCopies b - availableCopies b = totalCopies book - availableCopies book"
    by (rule updateBook_Inr)
  have dk: "distinct (keys (books d))"
    using wf by (simp add: wf_db_iff)
  have wf': "wf_db d'"
    using wf bk by (simp add: wf_db_iff d')
  have dk': "distinct (keys (books d'))"
    using dk bk by (simp add: d')
  have "copies_balanced d'"
    unfolding copies_balanced_iff [OF dk']
  proof (intro allI impI)
    fix k c
    assume c: "map_of (books d') k = Some c"
    show "totalCopies c - availableCopies c = int (outstanding (loans d') k)"
    proof (cases "k = bid")
      case True
      with c have "c = b" by (simp add: d')
      with True diff copies_balancedD [OF bal dk bk] show ?thesis by (simp add: d')
    next
      case False
      with c have "map_of (books d) k = Some c" by (simp add: d')
      with copies_balancedD [OF bal dk] show ?thesis by (simp add: d')
    qed
  qed
  with wf' show ?thesis by simp
qed

text \<open>C16: \<open>updateBook\<close> moves \<open>availableCopies\<close> by the change of \<open>totalCopies\<close>, so
  it keeps the ids well formed and the balance between copies and outstanding loans.\<close>

theorem updateBook_keeps_balance:
  assumes inv: "ledger_inv d" and ok: "updateBook bid body d = Inr (b, d')"
  shows "wf_db d' \<and> copies_balanced d'"
  using inv updateBook_balance [OF _ _ ok] by (simp add: ledger_inv_def)

theorem updateBook_keeps_balance_witness:
  "ledger_inv (demo_store 2 [] 1) \<and>
   updateBook 0 \<lparr>body_name = [], body_author = [], body_category = [], body_totalCopies = Some 5\<rparr>
     (demo_store 2 [] 1) = Inr (sicp 2\<lparr>totalCopies := 5, availableCopies := 5\<rparr>,
       \<lparr>books = [(0, sicp 2\<lparr>totalCopies := 5, availableCopies := 5\<rparr>)], loans = [], users = [], next_oid = 1\<rparr>) \<and>
   copies_balanced \<lparr>books = [(0, sicp 2\<lparr>totalCopies := 5, availableCopies := 5\<rparr>)], loans = [], users = [], next_oid = 1\<rparr>"
proof -
  have h1: "ledger_inv (demo_store 2 [] 1)"
    by (simp add: ledger_inv_def wf_db_def copies_balanced_def copies_nonneg_def outstanding_def)
  have h2: "updateBook 0 \<lparr>body_name = [], body_author = [], body_category = [], body_totalCopies = Some 5\<rparr>
     (demo_store 2 [] 1) = Inr (sicp 2\<lparr>totalCopies := 5, availableCopies := 5\<rparr>,
       \<lparr>books = [(0, sicp 2\<lparr>totalCopies := 5, availableCopies := 5\<rparr>)], loans = [], users = [], next_oid = 1\<rparr>)"
    by (simp add: updateBook_def save_book_def js_or_str_def Let_def)
  show ?thesis
    using h1 h2 updateBook_keeps_balance [OF h1 h2] by simp
qed

lemma updateBook_total_avail:
  assumes inv: "ledger_inv d" and bk: "map_of (books d) bid = Some book"
    and t: "body_totalCopies body = Some t" and ok: "updateBook bid body d = Inr (b, d')"
  shows "totalCopies b = t \<and> availableCopies b = t - int (outstanding (loans d) bid)
    \<and> (ledger_inv d' \<longleftrightarrow> int (outstanding (loans d) bid) \<le> t)"
proof -
  from inv have wf: "wf_db d" and bal: "copies_balanced d" and nn: "copies_nonneg d"
    by (simp_all add: ledger_inv_def)
  have dk: "distinct (keys (books d))"
    using wf by (simp add: wf_db_iff)
  from ok bk t have b: "b = book\<lparr>name := js_or_str (body_name body) (name book),
        author := js_or_str (body_author body) (author book),
        category := js_or_str (body_category body) (category book),
        totalCopies := t, availableCopies := availableCopies book + (t - totalCopies book)\<rparr>"
    and d': "d' = save_book bid b d"
    by (auto simp: updateBook_def Let_def)
  have avail: "availableCopies b = t - int (outstanding (loans d) bid)"
    using copies_balancedD [OF bal dk bk] b by simp
  have keep: "wf_db d' \<and> copies_balanced d'"
    using wf bal updateBook_balance [OF wf bal ok] by simp
  have dk': "distinct (keys (books d'))"
    using dk bk by (simp add: d')
  have "copies_nonneg d' \<longleftrightarrow> 0 \<le> availableCopies b"
  proof
    assume "copies_nonneg d'"
    from copies_nonnegD [OF this dk', of bid b] show "0 \<le> availableCopies b" by (simp add: d')
  next
    assume "0 \<le> availableCopies b"
    then show "copies_nonneg d'"
      unfolding copies_nonneg_iff [OF dk']
      using copies_nonnegD [OF nn dk] by (auto simp: d' update_conv' split: if_splits)
  qed
  moreover have "totalCopies b = t"
    using b by simp
  ultimately show ?thesis
    using keep avail by (auto simp: ledger_inv_def)
qed

text \<open>C17: setting \<open>totalCopies\<close> to \<open>t\<close> leaves \<open>t\<close> minus the outstanding loans
  available, and the ledger invariant survives exactly when \<open>t\<close> is at least the number of
  copies out: shrinking below it makes \<open>availableCopies\<close> negative.\<close>

theorem updateBook_total:
  assumes inv: "ledger_inv d" and bk: "map_of (books d) bid = Some book"
    and t: "body_totalCopies body = Some t" and ok: "updateBook bid body d = Inr (b, d')"
  shows "totalCopies b = t \<and> availableCopies b = t - int (outstanding (loans d) bid)
    \<and> (ledger_inv d' \<longleftrightarrow> int (outstanding (loans d) bid) \<le> t)"
  using assms by (rule updateBook_total_avail)

theorem updateBook_total_witness:
  "ledger_inv (demo_store 1 [(1, \<lparr>bookId = 0, userId = 7, issueDate = 0, dueDate = 100, returnDate = None, status = Issued, fineAmount = 0\<rparr>)] 2) \<and>
   updateBook 0 \<lparr>body_name = [], body_author = [], body_category = [], body_totalCopies = Some 0\<rparr>
     (demo_store 1 [(1, \<lparr>bookId = 0, userId = 7, issueDate = 0, dueDate = 100, returnDate = None, status = Issued, fineAmount = 0\<rparr>)] 2)
   = Inr (sicp 2\<lparr>totalCopies := 0, availableCopies := -1\<rparr>,
          \<lparr>books = [(0, sicp 2\<lparr>totalCopies := 0, availableCopies := -1\<rparr>)],
           loans = [(1, \<lparr>bookId = 0, userId = 7, issueDate = 0, dueDate = 100, returnDate = None, status = Issued, fineAmount = 0\<rparr>)], users = [], next_oid = 2\<rparr>) \<and>
   \<not> ledger_inv \<lparr>books = [(0, sicp 2\<lparr>totalCopies := 0, availableCopies := -1\<rparr>)],
           loans = [(1, \<lparr>bookId = 0, userId = 7, issueDate = 0, dueDate = 100, returnDate = None, status = Issued, fineAmount = 0\<rparr>)], users = [], next_oid = 2\<rparr>"
proof -
  have h1: "ledger_inv (demo_store 1 [(1, \<lparr>bookId = 0, userId = 7, issueDate = 0, dueDate = 100, returnDate = None, status = Issued, fineAmount = 0\<rparr>)] 2)"
    by (simp add: ledger_inv_def wf_db_def copies_balanced_def copies_nonneg_def outstanding_def)
  have h2: "map_of (books (demo_store 1 [(1, \<lparr>bookId = 0, userId = 7, issueDate = 0, dueDate = 100, returnDate = None, status = Issued, fineAmount = 0\<rparr>)] 2)) 0 = Some (sicp 1)"
    by simp
  have h3: "body_totalCopies \<lparr>body_name = [], body_author = [], body_category = [], body_totalCopies = Some 0\<rparr> = Some 0"
    by simp
  have h4: "updateBook 0 \<lparr>body_name = [], body_author = [], body_category = [], body_totalCopies = Some 0\<rparr>
     (demo_store 1 [(1, \<lparr>bookId = 0, userId = 7, issueDate = 0, dueDate = 100, returnDate = None, status = Issued, fineAmount = 0\<rparr>)] 2)
   = Inr (sicp 2\<lparr>totalCopies := 0, availableCopies := -1\<rparr>,
          \<lparr>books = [(0, sicp 2\<lparr>totalCopies := 0, availableCopies := -1\<rparr>)],
           loans = [(1, \<lparr>bookId = 0, userId = 7, issueDate = 0, dueDate = 100, returnDate = None, status = Issued, fineAmount = 0\<rparr>)], users = [], next_oid = 2\<rparr>)"
    by (simp add: updateBook_def save_book_def js_or_str_def Let_def)
  show ?thesis
    using h1 h4 updateBook_total [OF h1 h2 h3 h4] by (simp add: outstanding_def)
qed

subsection \<open>Deleting a book\<close>

lemma updateBook_keeps_ledger_inv:
  assumes inv: "ledger_inv d" and ok: "updateBook bid body d = Inr (b, d')"
    and g: "\<forall>t. body_totalCopies body = Some t \<longrightarrow> int (outstanding (loans d) bid) \<le> t"
  shows "ledger_inv d'"
proof -
  from ok obtain book where bk: "map_of (books d) bid = Some book" and d': "d' = save_book bid b d"
    by (rule updateBook_Inr)
  show ?thesis
  proof (cases "body_totalCopies body")
    case (Some t)
    with updateBook_total_avail [OF inv bk Some ok] g show ?thesis by auto
  next
    case None
    from inv have wf: "wf_db d" and nn: "copies_nonneg d"
      by (simp_all add: ledger_inv_def)
    have dk: "distinct (keys (books d))"
      using wf by (simp add: wf_db_iff)
    have dk': "distinct (keys (books d'))"
      using dk bk by (simp add: d')
    from ok bk None have "availableCopies b = availableCopies book"
      by (auto simp: updateBook_def Let_def)
    with copies_nonnegD [OF nn dk bk] have "0 \<le> availableCopies b" by simp
    then have "copies_nonneg d'"
      unfolding copies_nonneg_iff [OF dk']
      using copies_nonnegD [OF nn dk] by (auto simp: d' update_conv' split: if_splits)
    with inv updateBook_balance [OF _ _ ok] show ?thesis
      by (simp add: ledger_inv_def)
  qed
qed

lemma deleteBook_keeps_balance:
  assumes wf: "wf_db d" and bal: "copies_balanced d" and ok: "deleteBook bid d = Inr d'"
  shows "wf_db d' \<and> copies_balanced d'"
proof -
  from ok have d': "d' = d\<lparr>books := AList.delete bid (books d)\<rparr>"
    by (simp add: deleteBook_def split: option.splits)
  have "wf_db d'"
    using wf by (auto simp: wf_db_iff d' delete_keys distinct_removeAll)
  moreover have "copies_balanced d'"
    using bal by (auto simp: copies_balanced_def d' AList.delete_eq list_all_iff)
  ultimately show ?thesis ..
qed

lemma deleteBook_keeps_ledger_inv:
  assumes inv: "ledger_inv d" and ok: "deleteBook bid d = Inr d'"
  shows "ledger_inv d'"
proof -
  from ok have d': "d' = d\<lparr>books := AList.delete bid (books d)\<rparr>"
    by (simp add: deleteBook_def split: option.splits)
  from inv have wf: "wf_db d" and bal: "copies_balanced d" and nn: "copies_nonneg d"
    by (simp_all add: ledger_inv_def)
  have "wf_db d'"
    using wf by (auto simp: wf_db_iff d' delete_keys distinct_removeAll)
  moreover have "copies_balanced d'" "copies_nonneg d'"
    using bal nn by (auto simp: copies_balanced_def copies_nonneg_def d' AList.delete_eq list_all_iff)
  ultimately show ?thesis by (simp add: ledger_inv_def)
qed

text \<open>C18: deleting an existing book succeeds and removes exactly that book: every other
  book and every loan stay as they were (the book's loans stay behind and refer to an id
  no book has any more), and the ledger invariant is kept.\<close>

theorem deleteBook_preserves_ledger_inv:
  assumes inv: "ledger_inv d" and bk: "map_of (books d) bid = Some b"
  shows "\<exists>d'. deleteBook bid d = Inr d' \<and> ledger_inv d'
     \<and> map_of (books d') = (map_of (books d))(bid := None) \<and> loans d' = loans d \<and> next_oid d' = next_oid d"
proof -
  define d' where "d' = d\<lparr>books := AList.delete bid (books d)\<rparr>"
  have ok: "deleteBook bid d = Inr d'"
    using bk by (simp add: deleteBook_def d'_def)
  moreover have "ledger_inv d'"
    using inv ok by (rule deleteBook_keeps_ledger_inv)
  moreover have "map_of (books d') = (map_of (books d))(bid := None)"
    by (simp add: d'_def delete_conv')
  ultimately show ?thesis
    by (auto simp: d'_def)
qed

theorem deleteBook_preserves_ledger_inv_witness:
  "ledger_inv (demo_store 1 [(1, \<lparr>bookId = 0, userId = 7, issueDate = 0, dueDate = 100, returnDate = None, status = Issued, fineAmount = 0\<rparr>)] 2) \<and>
   (\<exists>d'. deleteBook 0 (demo_store 1 [(1, \<lparr>bookId = 0, userId = 7, issueDate = 0, dueDate = 100, returnDate = None, status = Issued, fineAmount = 0\<rparr>)] 2) = Inr d' \<and> ledger_inv d'
      \<and> map_of (books d') 0 = None \<and> loans d' = [(1, \<lparr>bookId = 0, userId = 7, issueDate = 0, dueDate = 100, returnDate = None, status = Issued, fineAmount = 0\<rparr>)])"
proof -
  have h1: "ledger_inv (demo_store 1 [(1, \<lparr>bookId = 0, userId = 7, issueDate = 0, dueDate = 100, returnDate = None, status = Issued, fineAmount = 0\<rparr>)] 2)"
    by (simp add: ledger_inv_def wf_db_def copies_balanced_def copies_nonneg_def outstanding_def)
  have h2: "map_of (books (demo_store 1 [(1, \<lparr>bookId = 0, userId = 7, issueDate = 0, dueDate = 100, returnDate = None, status = Issued, fineAmount = 0\<rparr>)] 2)) 0 = Some (sicp 1)"
    by simp
  show ?thesis
    using h1 deleteBook_preserves_ledger_inv [OF h1 h2] by (auto dest: fun_cong [where x = 0])
qed

end
