(* ===== verification/Lifecycle.thy ===== *)
theory Lifecycle
  imports Loans Books
begin

text \<open>
  The server as a whole, one request at a time (the spec's single-request semantics): a
  datatype of the state-changing requests of \<open>bookRoutes.js\<close> and
  \<open>issuedBookRoutes.js\<close>, the step function \<open>serve\<close> that hands each to its controller,
  an executable run over a list of requests in which a failed request changes nothing, and
  the same behaviour as an inductive step relation with its reachable states.  The lemmas
  are invariants by rule induction: every loan record is consistent with its status, no
  sequence of requests deletes a loan or changes its book or user and a \<open>Returned\<close> loan
  stays returned, and under the discipline of the user interface (return only \<open>Issued\<close>
  loans) every book keeps \<open>totalCopies - availableCopies\<close> equal to its copies on loan.
\<close>

datatype request =
    ReqIssue time oid oid "time option"
  | ReqReturn time oid
  | ReqAdd book_body
  | ReqUpdate oid book_body
  | ReqDelete oid

text \<open>The dispatch of a request to its handler; the response body is dropped.\<close>

fun serve :: "request \<Rightarrow> db \<Rightarrow> error + db" where
  "serve (ReqIssue now bid uid due) d = map_sum id snd (issueBook now bid uid due d)"
| "serve (ReqReturn now lid) d = map_sum id snd (returnBook now lid d)"
| "serve (ReqAdd body) d = map_sum id snd (addBook body d)"
| "serve (ReqUpdate bid body) d = map_sum id snd (updateBook bid body d)"
| "serve (ReqDelete bid) d = deleteBook bid d"

text \<open>Requests served in order; one that fails leaves the store as it was.\<close>

fun run_requests :: "db \<Rightarrow> request list \<Rightarrow> db" where
  "run_requests d [] = d"
| "run_requests d (r # rs) = run_requests (case serve r d of Inl _ \<Rightarrow> d | Inr d' \<Rightarrow> d') rs"

inductive lib_step :: "db \<Rightarrow> db \<Rightarrow> bool" where
  serve_ok: "serve r d = Inr d' \<Longrightarrow> lib_step d d'"

inductive reachable :: "db \<Rightarrow> bool" where
  init: "reachable empty_db"
| step: "reachable d \<Longrightarrow> lib_step d d' \<Longrightarrow> reachable d'"

text \<open>A loan record agrees with its status: an \<open>Issued\<close> loan has no return date and no
  fine, a \<open>Returned\<close> one has a return date, and no fine is negative.\<close>

definition loan_record_ok :: "issued_book \<Rightarrow> bool" where
  "loan_record_ok ib \<longleftrightarrow> 0 \<le> fineAmount ib \<and>
     (case status ib of
        Issued \<Rightarrow> returnDate ib = None \<and> fineAmount ib = 0
      | Returned \<Rightarrow> returnDate ib \<noteq> None)"

text \<open>The discipline of the user interface: \<open>IssuedBooks.tsx\<close> (lines 179--193, the
  \<open>ir_return\<close> flag of \<open>Pages\<close>) offers \<open>Return\<close> only on a loan whose status is
  \<open>Issued\<close>; every other request may be sent with any body.\<close>

definition guarded :: "db \<Rightarrow> request \<Rightarrow> bool" where
  "guarded d r =
     (case r of
        ReqReturn _ lid \<Rightarrow> (case map_of (loans d) lid of None \<Rightarrow> True | Some ib \<Rightarrow> status ib = Issued)
      | _ \<Rightarrow> True)"

inductive guarded_reachable :: "db \<Rightarrow> bool" where
  init: "guarded_reachable empty_db"
| step: "guarded_reachable d \<Longrightarrow> guarded d r \<Longrightarrow> serve r d = Inr d' \<Longrightarrow> guarded_reachable d'"

subsection \<open>Lemmas on steps\<close>

inductive_cases lib_stepE: "lib_step d d'"

lemma serve_Inr_cases:
  assumes "serve r d = Inr d'"
  obtains (issue) now bid uid due res where "r = ReqIssue now bid uid due" and "issueBook now bid uid due d = Inr (res, d')"
  | (return) now lid res where "r = ReqReturn now lid" and "returnBook now lid d = Inr (res, d')"
  | (add) body res where "r = ReqAdd body" and "addBook body d = Inr (res, d')"
  | (update) bid body res where "r = ReqUpdate bid body" and "updateBook bid body d = Inr (res, d')"
  | (delete) bid where "r = ReqDelete bid" and "deleteBook bid d = Inr d'"
  using assms by (cases r) (auto simp: map_sum_def split: sum.splits)

lemma serve_loan_records:
  assumes ok: "list_all (\<lambda>(_, ib). loan_record_ok ib) (loans d)" and s: "serve r d = Inr d'"
  shows "list_all (\<lambda>(_, ib). loan_record_ok ib) (loans d')"
  using s
proof (cases rule: serve_Inr_cases)
  case (issue now bid uid due res)
  then show ?thesis
    using ok by (auto elim!: issueBook_Inr simp: loan_record_ok_def new_issued_book_def)
next
  case (return now lid res)
  from return(2) obtain ib where ib: "map_of (loans d) lid = Some ib"
    and d': "loans d' = AList.update lid (return_update now ib) (loans d)"
    by (auto elim!: returnBook_Inr simp: save_loan_def split: option.splits)
  from ok ib have "loan_record_ok ib"
    by (auto simp: list_all_iff dest: map_of_SomeD)
  then have "loan_record_ok (return_update now ib)"
    by (simp add: loan_record_ok_def late_fine_nonneg)
  with ok show ?thesis
    by (simp add: d' list_all_update)
next
  case (add body res)
  then show ?thesis using ok by (auto dest!: addBook_Inr)
next
  case (update bid body res)
  then show ?thesis using ok by (auto elim!: updateBook_Inr)
next
  case (delete bid)
  then show ?thesis using ok by (auto simp: deleteBook_def split: option.splits)
qed

subsection \<open>Invariants of the reachable states\<close>

text \<open>C19: in every state the server can reach, every loan record is consistent with its
  status: \<open>Issued\<close> loans have no return date and no fine, \<open>Returned\<close> loans a return
  date, and fines are never negative.\<close>

theorem reachable_loan_records:
  "reachable d \<Longrightarrow> list_all (\<lambda>(_, ib). loan_record_ok ib) (loans d)"
proof (induction rule: reachable.induct)
  case init
  show ?case by (simp add: empty_db_def)
next
  case (step d d')
  from step.hyps(2) obtain r where "serve r d = Inr d'" by (rule lib_stepE)
  with step.IH show ?case by (rule serve_loan_records)
qed

lemma serve_keeps_loans:
  assumes s: "serve r d = Inr d'" and ib: "map_of (loans d) lid = Some ib"
  shows "\<exists>ib'. map_of (loans d') lid = Some ib' \<and> bookId ib' = bookId ib \<and> userId ib' = userId ib
    \<and> (status ib = Returned \<longrightarrow> status ib' = Returned)"
  using s
proof (cases rule: serve_Inr_cases)
  case (issue now bid uid due res)
  then show ?thesis using ib by (auto elim!: issueBook_Inr)
next
  case (return now lid' res)
  from return(2) obtain ib0 where "map_of (loans d) lid' = Some ib0"
    and "loans d' = AList.update lid' (return_update now ib0) (loans d)"
    by (auto elim!: returnBook_Inr simp: save_loan_def split: option.splits)
  with ib show ?thesis by (cases "lid = lid'") auto
next
  case (add body res)
  then show ?thesis using ib by (auto dest!: addBook_Inr)
next
  case (update bid body res)
  then show ?thesis using ib by (auto elim!: updateBook_Inr)
next
  case (delete bid)
  then show ?thesis using ib by (auto simp: deleteBook_def split: option.splits)
qed

text \<open>C20: the loan lifecycle is one-way: whatever requests are served after a loan is
  recorded, no request deletes it or changes its book or its user, and once it is
  \<open>Returned\<close> it stays \<open>Returned\<close>.\<close>

theorem loans_survive_requests:
  assumes "map_of (loans d) lid = Some ib"
  shows "\<exists>ib'. map_of (loans (run_requests d rs)) lid = Some ib' \<and> bookId ib' = bookId ib
     \<and> userId ib' = userId ib \<and> (status ib = Returned \<longrightarrow> status ib' = Returned)"
  using assms
proof (induction rs arbitrary: d ib)
  case (Cons r rs)
  obtain ib1 where ib1: "map_of (loans (case serve r d of Inl _ \<Rightarrow> d | Inr d' \<Rightarrow> d')) lid = Some ib1"
    and same: "bookId ib1 = bookId ib" "userId ib1 = userId ib" "status ib = Returned \<longrightarrow> status ib1 = Returned"
    using Cons.prems serve_keeps_loans [of r d _ lid ib] by (cases "serve r d") auto
  from Cons.IH [OF ib1] same show ?case by auto
qed auto

lemma serve_guarded_balance:
  assumes wf: "wf_db d" and bal: "copies_balanced d" and g: "guarded d r" and s: "serve r d = Inr d'"
  shows "wf_db d' \<and> copies_balanced d'"
  using s
proof (cases rule: serve_Inr_cases)
  case (issue now bid uid due res)
  from issueBook_keeps_balance [OF wf bal issue(2)] show ?thesis .
next
  case (return now lid res)
  from return(2) obtain ib where ib: "map_of (loans d) lid = Some ib"
    by (rule returnBook_Inr)
  with g return(1) have st: "status ib = Issued" by (simp add: guarded_def)
  from returnBook_keeps_balance [OF wf bal ib st return(2)] show ?thesis .
next
  case (add body res)
  from addBook_keeps_balance [OF wf bal add(2)] show ?thesis .
next
  case (update bid body res)
  from updateBook_balance [OF wf bal update(2)] show ?thesis .
next
  case (delete bid)
  from deleteBook_keeps_balance [OF wf bal delete(2)] show ?thesis .
qed

lemma guarded_reachable_balance:
  "guarded_reachable d \<Longrightarrow> wf_db d \<and> copies_balanced d"
proof (induction rule: guarded_reachable.induct)
  case init
  show ?case by (simp add: empty_db_def wf_db_def copies_balanced_def)
next
  case (step d r d')
  with serve_guarded_balance show ?case by blast
qed

text \<open>C21: in every state reached by the requests the user interface sends, every book
  keeps \<open>totalCopies - availableCopies\<close> equal to its copies on loan, whatever the
  books added and edited.  The one discipline needed is the Return button's: returning
  a loan twice breaks the balance (\<open>returnBook_Returned_unbalances\<close>).\<close>

theorem guarded_reachable_balanced:
  assumes "guarded_reachable d" and "map_of (books d) k = Some b"
  shows "totalCopies b - availableCopies b = int (outstanding (loans d) k)"
  using guarded_reachable_balance [OF assms(1)] assms(2) by (auto simp: wf_db_iff intro: copies_balancedD)

lemma run_requests_snoc:
  "run_requests d (rs @ [r]) =
     (case serve r (run_requests d rs) of Inl _ \<Rightarrow> run_requests d rs | Inr d' \<Rightarrow> d')"
  by (induction rs arbitrary: d) (simp_all split: sum.splits)

lemma reachable_run_requests:
  "reachable d \<Longrightarrow> reachable (run_requests d rs)"
proof (induction rs arbitrary: d)
  case Nil
  then show ?case by simp
next
  case (Cons r rs)
  have "reachable (case serve r d of Inl _ \<Rightarrow> d | Inr d' \<Rightarrow> d')"
    using Cons.prems by (auto split: sum.splits intro: reachable.step lib_step.serve_ok)
  then show ?case by (simp add: Cons.IH)
qed

text \<open>The inductive reachable states are exactly the results of running a list of
  requests from the empty store.\<close>

theorem reachable_iff_run:
  "reachable d \<longleftrightarrow> (\<exists>rs. d = run_requests empty_db rs)"
proof
  assume "reachable d"
  then show "\<exists>rs. d = run_requests empty_db rs"
  proof (induction rule: reachable.induct)
    case init
    have "empty_db = run_requests empty_db []" by simp
    then show ?case ..
  next
    case (step d d')
    from step.IH obtain rs where rs: "d = run_requests empty_db rs" ..
    from step.hyps(2) obtain r where "serve r d = Inr d'" by (rule lib_stepE)
    with rs have "d' = run_requests empty_db (rs @ [r])" by (simp add: run_requests_snoc)
    then show ?case ..
  qed
next
  assume "\<exists>rs. d = run_requests empty_db rs"
  then show "reachable d" using reachable_run_requests [OF reachable.init] by blast
qed

subsection \<open>Examples\<close>

theorem reachable_loan_records_witness:
  "list_all (\<lambda>(_, ib). loan_record_ok ib)
     (loans (run_requests empty_db
        [ReqAdd \<lparr>body_name = ''SICP'', body_author = ''Abelson'', body_category = ''CS'', body_totalCopies = Some 2\<rparr>,
         ReqIssue 0 0 7 (Some 100), ReqReturn 50 1]))
   \<and> loans (run_requests empty_db
        [ReqAdd \<lparr>body_name = ''SICP'', body_author = ''Abelson'', body_category = ''CS'', body_totalCopies = Some 2\<rparr>,
         ReqIssue 0 0 7 (Some 100), ReqReturn 50 1]) = [(1, return_update 50 (new_issued_book 0 7 0 100))]"
proof -
  have r: "reachable (run_requests empty_db
        [ReqAdd \<lparr>body_name = ''SICP'', body_author = ''Abelson'', body_category = ''CS'', body_totalCopies = Some 2\<rparr>,
         ReqIssue 0 0 7 (Some 100), ReqReturn 50 1])"
    by (rule reachable_run_requests [OF reachable.init])
  have l: "loans (run_requests empty_db
        [ReqAdd \<lparr>body_name = ''SICP'', body_author = ''Abelson'', body_category = ''CS'', body_totalCopies = Some 2\<rparr>,
         ReqIssue 0 0 7 (Some 100), ReqReturn 50 1]) = [(1, return_update 50 (new_issued_book 0 7 0 100))]"
    by (simp add: empty_db_def addBook_def insert_book_def js_or_int_def issueBook_def insert_loan_def
        save_available_def returnBook_def save_loan_def Let_def)
  show ?thesis using reachable_loan_records [OF r] l by simp
qed

theorem loans_survive_requests_witness:
  "\<exists>ib'. map_of (loans (run_requests (demo_store 1 [(1, demo_loan)] 2) [ReqReturn 50 1, ReqDelete 0, ReqReturn 60 1])) 1
       = Some ib' \<and> bookId ib' = 0 \<and> userId ib' = 7 \<and> status ib' = Returned"
proof -
  have h: "map_of (loans (demo_store 1 [(1, demo_loan)] 2)) 1 = Some demo_loan" by simp
  show ?thesis
    using loans_survive_requests [OF h, of "[ReqReturn 50 1, ReqDelete 0, ReqReturn 60 1]"]
    by (simp add: new_issued_book_def returnBook_def save_loan_def save_available_def deleteBook_def Let_def)
qed

theorem guarded_reachable_balanced_witness:
  "totalCopies (sicp 1) - availableCopies (sicp 1) = int (outstanding [(1, demo_loan)] 0)"
proof -
  have h1: "guarded_reachable (demo_store 2 [] 1)"
  proof (rule guarded_reachable.step [OF guarded_reachable.init])
    show "guarded empty_db (ReqAdd \<lparr>body_name = ''SICP'', body_author = ''Abelson'', body_category = ''CS'', body_totalCopies = Some 2\<rparr>)"
      by (simp add: guarded_def)
    show "serve (ReqAdd \<lparr>body_name = ''SICP'', body_author = ''Abelson'', body_category = ''CS'', body_totalCopies = Some 2\<rparr>) empty_db = Inr (demo_store 2 [] 1)"
      by (simp add: empty_db_def addBook_def insert_book_def js_or_int_def Let_def)
  qed
  have h2: "guarded_reachable (demo_store 1 [(1, demo_loan)] 2)"
  proof (rule guarded_reachable.step [OF h1])
    show "guarded (demo_store 2 [] 1) (ReqIssue 0 0 7 (Some 100))"
      by (simp add: guarded_def)
    show "serve (ReqIssue 0 0 7 (Some 100)) (demo_store 2 [] 1) = Inr (demo_store 1 [(1, demo_loan)] 2)"
      by (simp add: issueBook_def insert_loan_def save_available_def Let_def)
  qed
  have h3: "map_of (books (demo_store 1 [(1, demo_loan)] 2)) 0 = Some (sicp 1)"
    by simp
  show ?thesis using guarded_reachable_balanced [OF h2 h3] by simp
qed

end
