(* ===== verification/Concurrency.thy ===== *)
theory Concurrency
  imports Lifecycle "HOL-Library.While_Combinator"
begin

text \<open>
  Requests interleaved.  Node runs each handler of \<open>issuedBookController.js\<close> up to an
  \<open>await\<close>, then may run another request; nothing locks a book between its read and its
  write.  A \<open>proc\<close> is a request in flight, stopped at an \<open>await\<close> with the values it
  has read; \<open>proc_step\<close> runs it to its next \<open>await\<close>; \<open>run_schedule\<close> runs the
  processes in the order a schedule (a list of process indices) gives.  The \<open>populate\<close>
  reads of \<open>issueBook\<close> (lines 57--58) change nothing and are left out.
\<close>

text \<open>The await points: \<open>IssueAt\<close> before \<open>Book.findById\<close> (line 34),
  \<open>IssueFound\<close> before \<open>issuedBook.save()\<close> (line 54) holding the \<open>availableCopies\<close> it
  read, \<open>IssueLoanSaved\<close> before \<open>book.save()\<close> (line 62); \<open>ReturnAt\<close> before
  \<open>IssuedBook.findById\<close> (line 71), \<open>ReturnLoanRead\<close> before \<open>issuedBook.save()\<close>
  (line 87), \<open>ReturnBookLookup\<close> before \<open>Book.findById\<close> (line 90),
  \<open>ReturnBookRead\<close> before \<open>book.save()\<close> (line 93); \<open>Done\<close> with the response.\<close>

datatype proc =
    IssueAt time oid oid "time option"
  | IssueFound time oid oid "time option" int
  | IssueLoanSaved oid int
  | ReturnAt time oid
  | ReturnLoanRead oid issued_book
  | ReturnBookLookup oid
  | ReturnBookRead oid int
  | Done "error + unit"

fun proc_step :: "proc \<Rightarrow> db \<Rightarrow> proc \<times> db" where
  "proc_step (IssueAt now bid uid due) d =
     (case map_of (books d) bid of
        None \<Rightarrow> (Done (Inl BookNotFound), d)
      | Some book \<Rightarrow>
          if availableCopies book < 1 then (Done (Inl BookNotAvailable), d)
          else (IssueFound now bid uid due (availableCopies book), d))"
| "proc_step (IssueFound now bid uid due a) d =
     (case due of
        None \<Rightarrow> (Done (Inl ValidationError), d)
      | Some dd \<Rightarrow> (IssueLoanSaved bid a, snd (insert_loan (new_issued_book bid uid now dd) d)))"
| "proc_step (IssueLoanSaved bid a) d = (Done (Inr ()), save_available bid (a - 1) d)"
| "proc_step (ReturnAt now lid) d =
     (case map_of (loans d) lid of
        None \<Rightarrow> (Done (Inl IssuedBookNotFound), d)
      | Some ib \<Rightarrow> (ReturnLoanRead lid (return_update now ib), d))"
| "proc_step (ReturnLoanRead lid ib) d = (ReturnBookLookup (bookId ib), save_loan lid ib d)"
| "proc_step (ReturnBookLookup bid) d =
     (case map_of (books d) bid of
        None \<Rightarrow> (Done (Inr ()), d)
      | Some book \<Rightarrow> (ReturnBookRead bid (availableCopies book), d))"
| "proc_step (ReturnBookRead bid a) d = (Done (Inr ()), save_available bid (a + 1) d)"
| "proc_step (Done r) d = (Done r, d)"

text \<open>A schedule entry that names no process is skipped.\<close>

fun run_schedule :: "db \<Rightarrow> proc list \<Rightarrow> nat list \<Rightarrow> db \<times> proc list" where
  "run_schedule d ps [] = (d, ps)"
| "run_schedule d ps (i # is) =
     (if i < length ps
      then (let (p', d') = proc_step (ps ! i) d in run_schedule d' (ps[i := p']) is)
      else run_schedule d ps is)"

text \<open>One process run alone for \<open>n\<close> steps.\<close>

primrec iter_proc :: "nat \<Rightarrow> proc \<Rightarrow> db \<Rightarrow> proc \<times> db" where
  "iter_proc 0 p d = (p, d)"
| "iter_proc (Suc n) p d = (let (p', d') = proc_step p d in iter_proc n p' d')"

text \<open>The process that serves a loan request, the number of its steps, and the schedule
  that runs the requests of a list one after another without interleaving.\<close>

fun proc_of :: "request \<Rightarrow> proc" where
  "proc_of (ReqIssue now bid uid due) = IssueAt now bid uid due"
| "proc_of (ReqReturn now lid) = ReturnAt now lid"
| "proc_of _ = Done (Inr ())"

fun proc_steps :: "request \<Rightarrow> nat" where
  "proc_steps (ReqIssue _ _ _ _) = 3"
| "proc_steps (ReqReturn _ _) = 4"
| "proc_steps _ = 0"

fun loan_request :: "request \<Rightarrow> bool" where
  "loan_request (ReqIssue _ _ _ _) = True"
| "loan_request (ReqReturn _ _) = True"
| "loan_request _ = False"

fun sequential_schedule :: "nat \<Rightarrow> request list \<Rightarrow> nat list" where
  "sequential_schedule k [] = []"
| "sequential_schedule k (r # rs) = replicate (proc_steps r) k @ sequential_schedule (Suc k) rs"

text \<open>What a process has read: a copy was free when it issues, and the count it read was
  not negative when it returns.\<close>

fun snapshot_ok :: "proc \<Rightarrow> bool" where
  "snapshot_ok (IssueFound _ _ _ _ a) = (1 \<le> a)"
| "snapshot_ok (IssueLoanSaved _ a) = (1 \<le> a)"
| "snapshot_ok (ReturnBookRead _ a) = (0 \<le> a)"
| "snapshot_ok _ = True"

text \<open>The event loop resuming one handler until it has responded: the \<open>await\<close>s of a
  handler as a loop over its state, kept as a loop with \<open>while_option\<close>.  \<open>proc_rank\<close>
  counts the awaits a handler may still pass; \<open>fair_for\<close> says that a schedule gives every
  process at least that many turns.\<close>

fun is_done :: "proc \<Rightarrow> bool" where
  "is_done (Done _) = True"
| "is_done _ = False"

fun proc_rank :: "proc \<Rightarrow> nat" where
  "proc_rank (IssueAt _ _ _ _) = 3"
| "proc_rank (IssueFound _ _ _ _ _) = 2"
| "proc_rank (IssueLoanSaved _ _) = 1"
| "proc_rank (ReturnAt _ _) = 4"
| "proc_rank (ReturnLoanRead _ _) = 3"
| "proc_rank (ReturnBookLookup _) = 2"
| "proc_rank (ReturnBookRead _ _) = 1"
| "proc_rank (Done _) = 0"

definition run_proc :: "proc \<Rightarrow> db \<Rightarrow> (proc \<times> db) option" where
  "run_proc p d = while_option (\<lambda>(p, _). \<not> is_done p) (\<lambda>(p, d). proc_step p d) (p, d)"

definition fair_for :: "proc list \<Rightarrow> nat list \<Rightarrow> bool" where
  "fair_for ps is = list_all (\<lambda>i. proc_rank (ps ! i) \<le> count_list is i) [0..<length ps]"

subsection \<open>Lemmas\<close>

lemma iter_proc_Done [simp]: "iter_proc n (Done r) d = (Done r, d)"
  by (induction n) simp_all

lemma iter_proc_add:
  "iter_proc (m + n) p d = (let (p', d') = iter_proc m p d in iter_proc n p' d')"
  by (induction m arbitrary: p d) (simp_all add: split_def Let_def)

lemma issue_atomic:
  "iter_proc 3 (IssueAt now bid uid due) d =
     (case issueBook now bid uid due d of
        Inl e \<Rightarrow> (Done (Inl e), d)
      | Inr (_, d') \<Rightarrow> (Done (Inr ()), d'))"
  by (simp add: issueBook_def insert_loan_def Let_def numeral_3_eq_3 split: option.splits)

lemma return_atomic:
  "iter_proc 4 (ReturnAt now lid) d =
     (case returnBook now lid d of
        Inl e \<Rightarrow> (Done (Inl e), d)
      | Inr (_, d') \<Rightarrow> (Done (Inr ()), d'))"
  by (simp add: returnBook_def save_loan_def Let_def eval_nat_numeral split: option.splits)

lemma run_schedule_append:
  "run_schedule d ps (xs @ ys) = (let (d', ps') = run_schedule d ps xs in run_schedule d' ps' ys)"
  by (induction d ps xs rule: run_schedule.induct) (simp_all add: split_def Let_def)

lemma run_schedule_replicate:
  "i < length ps \<Longrightarrow>
   run_schedule d ps (replicate n i) = (let (p', d') = iter_proc n (ps ! i) d in (d', ps[i := p']))"
  by (induction n arbitrary: d ps) (simp_all add: split_def Let_def)

lemma proc_of_atomic:
  "loan_request r \<Longrightarrow>
   snd (iter_proc (proc_steps r) (proc_of r) d) = (case serve r d of Inl _ \<Rightarrow> d | Inr d' \<Rightarrow> d')"
  by (cases r) (auto simp: issue_atomic return_atomic map_sum_def split: sum.splits prod.splits)

lemma run_schedule_sequential:
  "list_all loan_request rs \<Longrightarrow>
   fst (run_schedule d (ps @ map proc_of rs) (sequential_schedule (length ps) rs)) = run_requests d rs"
proof (induction rs arbitrary: d ps)
  case Nil
  show ?case by simp
next
  case (Cons r rs)
  obtain p' d' where it: "iter_proc (proc_steps r) (proc_of r) d = (p', d')"
    by (cases "iter_proc (proc_steps r) (proc_of r) d")
  have d': "d' = (case serve r d of Inl _ \<Rightarrow> d | Inr d' \<Rightarrow> d')"
    using proc_of_atomic [of r d] Cons.prems it by simp
  have upd: "(ps @ proc_of r # map proc_of rs)[length ps := p'] = (ps @ [p']) @ map proc_of rs"
    by (simp add: list_update_append)
  have "fst (run_schedule d (ps @ map proc_of (r # rs)) (sequential_schedule (length ps) (r # rs)))
      = fst (run_schedule d' ((ps @ [p']) @ map proc_of rs) (sequential_schedule (length (ps @ [p'])) rs))"
    by (simp add: run_schedule_append run_schedule_replicate nth_append it upd)
  also have "\<dots> = run_requests d' rs"
    using Cons.IH [of d' "ps @ [p']"] Cons.prems by simp
  finally show ?case using d' by simp
qed

lemma list_all_map_entry:
  "list_all P al \<Longrightarrow> (\<And>x. P (k, f x)) \<Longrightarrow> list_all P (AList.map_entry k f al)"
  by (induction al) auto

lemma proc_step_nonneg:
  assumes "copies_nonneg d" and "snapshot_ok p" and "proc_step p d = (p', d')"
  shows "copies_nonneg d' \<and> snapshot_ok p'"
  using assms
proof (induction p d rule: proc_step.induct)
  case (4 now lid d)
  then show ?case by (auto split: option.splits)
next
  case (6 bid d)
  then show ?case
    by (auto simp: copies_nonneg_def list_all_iff split: option.splits dest!: map_of_SomeD)
qed (auto simp: copies_nonneg_def insert_loan_def save_loan_def list_all_map_entry Let_def
          split: option.splits if_splits)

text \<open>C27: however the requests interleave, no \<open>availableCopies\<close> becomes negative:
  every write puts back a count read as at least 1, minus 1, or a count read as at least 0,
  plus 1.  (The spec's "driving the count negative" does not happen; see C23.)\<close>

theorem run_schedule_nonneg:
  "copies_nonneg d \<Longrightarrow> list_all snapshot_ok ps \<Longrightarrow> run_schedule d ps is = (d', ps') \<Longrightarrow>
   copies_nonneg d'"
proof (induction d ps "is" rule: run_schedule.induct)
  case (1 d ps)
  then show ?case by simp
next
  case (2 d ps i "is")
  show ?case
  proof (cases "i < length ps")
    case True
    obtain p' d1 where st: "proc_step (ps ! i) d = (p', d1)" by fastforce
    from True "2.prems"(2) have "snapshot_ok (ps ! i)" by (simp add: list_all_length)
    with proc_step_nonneg [OF "2.prems"(1) this st] have "copies_nonneg d1" "snapshot_ok p'" by auto
    moreover from this(2) "2.prems"(2) True have "list_all snapshot_ok (ps[i := p'])"
      by (auto simp: list_all_length nth_list_update)
    ultimately show ?thesis using "2.IH"(1) [OF True st [symmetric]] "2.prems"(3) True st by simp
  next
    case False
    then show ?thesis using "2.IH"(2) "2.prems" by simp
  qed
qed


subsection \<open>The await loop\<close>

lemma proc_rank_zero [simp]: "proc_rank p = 0 \<longleftrightarrow> is_done p"
  by (cases p) simp_all

lemma proc_rank_step: "proc_rank (fst (proc_step p d)) \<le> proc_rank p - 1"
  by (induction p d rule: proc_step.induct) (auto simp: Let_def split: option.splits if_splits)

lemma proc_rank_step_less: "\<not> is_done p \<Longrightarrow> proc_rank (fst (proc_step p d)) < proc_rank p"
  using proc_rank_step [of p d] proc_rank_zero [of p] by linarith

lemma run_proc_unfold:
  "run_proc p d = (if is_done p then Some (p, d) else (case proc_step p d of (p', d') \<Rightarrow> run_proc p' d'))"
  unfolding run_proc_def by (subst while_option_unfold) (simp add: split_def)

lemma run_proc_iter: "proc_rank p \<le> n \<Longrightarrow> run_proc p d = Some (iter_proc n p d)"
proof (induction n arbitrary: p d)
  case 0
  then show ?case by (simp add: run_proc_unfold)
next
  case (Suc n)
  show ?case
  proof (cases "is_done p")
    case True
    then obtain r where "p = Done r" by (cases p) simp_all
    then show ?thesis by (simp add: run_proc_unfold)
  next
    case False
    obtain p' d' where st: "proc_step p d = (p', d')" by fastforce
    have "proc_rank p' \<le> n"
      using proc_rank_step_less [OF False, of d] Suc.prems st by simp
    then show ?thesis using Suc.IH False st by (simp add: run_proc_unfold)
  qed
qed

lemma fair_for_iff: "fair_for ps is \<longleftrightarrow> (\<forall>i < length ps. proc_rank (ps ! i) \<le> count_list is i)"
  by (auto simp: fair_for_def list_all_iff)

lemma run_schedule_progress:
  "(\<forall>i < length ps. proc_rank (ps ! i) \<le> count_list is i) \<Longrightarrow>
   list_all is_done (snd (run_schedule d ps is))"
proof (induction d ps "is" rule: run_schedule.induct)
  case (1 d ps)
  then show ?case by (auto simp: list_all_length)
next
  case (2 d ps i "is")
  show ?case
  proof (cases "i < length ps")
    case True
    obtain p' d1 where st: "proc_step (ps ! i) d = (p', d1)" by fastforce
    have "\<forall>j < length (ps[i := p']). proc_rank (ps[i := p'] ! j) \<le> count_list is j"
    proof (intro allI impI)
      fix j assume j: "j < length (ps[i := p'])"
      show "proc_rank (ps[i := p'] ! j) \<le> count_list is j"
      proof (cases "j = i")
        case True
        have "proc_rank p' \<le> proc_rank (ps ! i) - 1"
          using proc_rank_step [of "ps ! i" d] st by simp
        with "2.prems" \<open>i < length ps\<close> True show ?thesis by force
      next
        case False
        with "2.prems" j show ?thesis by force
      qed
    qed
    then show ?thesis using "2.IH"(1) [OF True st [symmetric]] True st by simp
  next
    case False
    have "\<forall>j < length ps. proc_rank (ps ! j) \<le> count_list is j"
      using "2.prems" False by (metis count_list.simps(2) nat_neq_iff not_less_iff_gr_or_eq)
    then show ?thesis using "2.IH"(2) False by simp
  qed
qed

subsection \<open>Atomic handlers as step sequences\<close>

text \<open>A schedule that runs the loan requests of a list one after another, without
  interleaving, ends in the store of serving them one at a time (\<open>run_requests\<close>).\<close>

theorem sequential_schedule_refines:
  assumes "list_all loan_request rs"
  shows "fst (run_schedule d (map proc_of rs) (sequential_schedule 0 rs)) = run_requests d rs"
  using run_schedule_sequential [OF assms, of d "[]"] by simp

theorem sequential_schedule_refines_witness:
  "fst (run_schedule (demo_store 1 [(1, demo_loan)] 2)
         (map proc_of [ReqIssue 10 0 8 (Some 200), ReqIssue 10 0 9 (Some 200)])
         (sequential_schedule 0 [ReqIssue 10 0 8 (Some 200), ReqIssue 10 0 9 (Some 200)]))
   = demo_store 0 [(1, demo_loan), (2, new_issued_book 0 8 10 200)] 3"
proof -
  have h: "list_all loan_request [ReqIssue 10 0 8 (Some 200), ReqIssue 10 0 9 (Some 200)]" by simp
  show ?thesis
    using sequential_schedule_refines [OF h, of "demo_store 1 [(1, demo_loan)] 2"]
    by (simp add: issueBook_def insert_loan_def save_available_def Let_def)
qed

subsection \<open>Termination, equivalence and progress\<close>

text \<open>Every request in flight reaches its response: the await loop of a handler
  terminates from any state and any store, ending in \<open>Done\<close>.\<close>

theorem run_proc_terminates:
  "\<exists>p' d'. run_proc p d = Some (p', d') \<and> is_done p'"
proof -
  have "\<exists>s. while_option (\<lambda>(p, _). \<not> is_done p) (\<lambda>(p, d). proc_step p d) (p, d) = Some s"
    by (rule measure_while_option_Some [where P = "\<lambda>_. True" and f = "\<lambda>(p, _). proc_rank p"])
       (auto simp: split_def intro: proc_rank_step_less)
  then obtain p' d' where r: "run_proc p d = Some (p', d')" by (auto simp: run_proc_def)
  then have "\<not> (\<lambda>(p, _). \<not> is_done p) (p', d')"
    unfolding run_proc_def by (rule while_option_stop)
  with r show ?thesis by simp
qed

text \<open>Run to completion alone, the stepped issue and return handlers are the atomic
  handlers of \<open>Loans\<close>: same response kind, same store.\<close>

theorem run_proc_atomic:
  assumes "loan_request r"
  shows "run_proc (proc_of r) d =
    Some (Done (map_sum id (\<lambda>_. ()) (serve r d)), case serve r d of Inl _ \<Rightarrow> d | Inr d' \<Rightarrow> d')"
proof (cases r)
  case (ReqIssue now bid uid due)
  then show ?thesis
    using run_proc_iter [of "IssueAt now bid uid due" 3 d]
    by (simp add: issue_atomic map_sum_def split: sum.splits prod.splits)
next
  case (ReqReturn now lid)
  then show ?thesis
    using run_proc_iter [of "ReturnAt now lid" 4 d]
    by (simp add: return_atomic map_sum_def split: sum.splits prod.splits)
qed (use assms in simp_all)

theorem run_proc_atomic_witness:
  "loan_request (ReqIssue 0 0 7 (Some 100)) \<and>
   run_proc (proc_of (ReqIssue 0 0 7 (Some 100))) (demo_store 2 [] 1)
     = Some (Done (Inr ()), demo_store 1 [(1, demo_loan)] 2)"
  using run_proc_atomic [of "ReqIssue 0 0 7 (Some 100)" "demo_store 2 [] 1"]
  by (simp add: issueBook_def insert_loan_def save_available_def Let_def)

text \<open>Liveness of the interleaving: a schedule that gives every process at least as
  many turns as it has awaits left completes every request, however the turns interleave.\<close>

theorem fair_schedule_completes:
  assumes "fair_for ps is"
  shows "list_all is_done (snd (run_schedule d ps is))"
  using assms run_schedule_progress by (simp add: fair_for_iff)


theorem fair_schedule_completes_witness:
  "fair_for [IssueAt 10 0 8 (Some 200), IssueAt 10 0 9 (Some 200)] [0, 1, 0, 1, 0, 1] \<and>
   list_all is_done (snd (run_schedule (demo_store 1 [(1, demo_loan)] 2)
     [IssueAt 10 0 8 (Some 200), IssueAt 10 0 9 (Some 200)] [0, 1, 0, 1, 0, 1]))"
  using fair_schedule_completes [of "[IssueAt 10 0 8 (Some 200), IssueAt 10 0 9 (Some 200)]"
      "[0, 1, 0, 1, 0, 1]" "demo_store 1 [(1, demo_loan)] 2"]
  by (simp add: fair_for_def)

subsection \<open>The race on the last copy\<close>

text \<open>C23: the lost update.  Two issue requests for the same book, interleaved at their
  \<open>await\<close>s, both read the same \<open>availableCopies\<close>, both pass the check and save their
  loan, and both write the count they read minus one: for any store and any book with a
  free copy, both succeed, two loans are recorded, the count drops by one only, and a
  balanced ledger is no longer balanced.  With one copy left, two loans go out for it.\<close>

theorem issueBook_race_lost_update:
  assumes wf: "wf_db d" and bal: "copies_balanced d"
    and b: "map_of (books d) bid = Some book" and a: "1 \<le> availableCopies book"
  shows "\<exists>d'. run_schedule d [IssueAt now bid u1 (Some due1), IssueAt now' bid u2 (Some due2)] [0, 1, 0, 1, 0, 1]
           = (d', [Done (Inr ()), Done (Inr ())])
     \<and> loans d' = loans d @ [(next_oid d, new_issued_book bid u1 now due1),
                              (Suc (next_oid d), new_issued_book bid u2 now' due2)]
     \<and> map_of (books d') bid = Some (book\<lparr>availableCopies := availableCopies book - 1\<rparr>)
     \<and> \<not> copies_balanced d'"
proof -
  let ?l1 = "new_issued_book bid u1 now due1" and ?l2 = "new_issued_book bid u2 now' due2"
  define d' where "d' = save_available bid (availableCopies book - 1) (save_available bid (availableCopies book - 1)
      (d\<lparr>loans := loans d @ [(next_oid d, ?l1), (Suc (next_oid d), ?l2)], next_oid := Suc (Suc (next_oid d))\<rparr>))"
  have run: "run_schedule d [IssueAt now bid u1 (Some due1), IssueAt now' bid u2 (Some due2)] [0, 1, 0, 1, 0, 1]
           = (d', [Done (Inr ()), Done (Inr ())])"
    using b a by (simp add: insert_loan_def Let_def d'_def)
  have ls: "loans d' = loans d @ [(next_oid d, ?l1), (Suc (next_oid d), ?l2)]"
    by (simp add: d'_def)
  have bk: "map_of (books d') bid = Some (book\<lparr>availableCopies := availableCopies book - 1\<rparr>)"
    using b by (simp add: d'_def comp_def)
  have dk: "distinct (keys (books d))" "distinct (keys (books d'))"
    using wf by (simp_all add: wf_db_iff d'_def)
  have "\<not> copies_balanced d'"
  proof
    assume "copies_balanced d'"
    from copies_balancedD [OF this dk(2) bk] copies_balancedD [OF bal dk(1) b] show False
      by (simp add: ls new_issued_book_def outstanding_def)
  qed
  with run ls bk show ?thesis by blast
qed

theorem issueBook_race_lost_update_witness:
  "\<exists>d'. run_schedule (demo_store 1 [(1, demo_loan)] 2)
          [IssueAt 10 0 8 (Some 200), IssueAt 10 0 9 (Some 200)] [0, 1, 0, 1, 0, 1]
        = (d', [Done (Inr ()), Done (Inr ())])
     \<and> loans d' = [(1, demo_loan), (2, new_issued_book 0 8 10 200), (3, new_issued_book 0 9 10 200)]
     \<and> map_of (books d') 0 = Some (sicp 0) \<and> \<not> copies_balanced d'"
proof -
  have h1: "wf_db (demo_store 1 [(1, demo_loan)] 2)" by (simp add: wf_db_def new_issued_book_def)
  have h2: "copies_balanced (demo_store 1 [(1, demo_loan)] 2)"
    by (simp add: copies_balanced_def outstanding_def new_issued_book_def)
  have h3: "map_of (books (demo_store 1 [(1, demo_loan)] 2)) 0 = Some (sicp 1)" by simp
  have h4: "1 \<le> availableCopies (sicp 1)" by simp
  show ?thesis
    using issueBook_race_lost_update [OF h1 h2 h3 h4, of 10 8 200 10 9 200] by simp
qed

theorem run_schedule_nonneg_witness:
  "copies_nonneg (demo_store 0 [(1, demo_loan), (2, new_issued_book 0 8 10 200), (3, new_issued_book 0 9 10 200)] 4)"
proof -
  have h1: "copies_nonneg (demo_store 1 [(1, demo_loan)] 2)" by (simp add: copies_nonneg_def)
  have h2: "list_all snapshot_ok [IssueAt 10 0 8 (Some 200), IssueAt 10 0 9 (Some 200)]" by simp
  have h3: "run_schedule (demo_store 1 [(1, demo_loan)] 2)
     [IssueAt 10 0 8 (Some 200), IssueAt 10 0 9 (Some 200)] [0, 1, 0, 1, 0, 1]
   = (demo_store 0 [(1, demo_loan), (2, new_issued_book 0 8 10 200), (3, new_issued_book 0 9 10 200)] 4,
      [Done (Inr ()), Done (Inr ())])"
    by (simp add: insert_loan_def save_available_def)
  show ?thesis using run_schedule_nonneg [OF h1 h2 h3] .
qed

end
