(* ===== verification/Routes.thy ===== *)
theory Routes
  imports Lifecycle
begin

text \<open>
  The route tables of \<open>backend/routes/bookRoutes.js\<close>, \<open>issuedBookRoutes.js\<close> and
  \<open>userRoutes.js\<close>: which handler serves each method and path, behind which middleware.
  The \<open>protect\<close> and \<open>admin\<close> middleware (\<open>middleware/authMiddleware.js\<close>) and the
  user controller are not among the sources; they are modelled from the spec: \<open>protect\<close>
  rejects a request without an authenticated principal (401), \<open>admin\<close> one whose principal
  is not an admin (401), and the user handlers add, list and delete users.
\<close>

datatype http_request =
    GetBooks | PostBook book_body | PutBook oid book_body | DeleteBook oid
  | GetIssuedBooks | PostIssuedBook time oid oid "time option" | PutReturn time oid
  | PostRegister user | PostLogin oid | GetUsers | DeleteUser oid

datatype response =
    BooksList "book collection" | BookCreated "oid \<times> book" | BookUpdated book | BookRemoved
  | LoanList "loan_view list" | LoanCreated loan_view | LoanReturned "oid \<times> issued_book"
  | UserList "user collection" | UserCreated "oid \<times> user" | LoggedIn principal | UserRemoved

subsection \<open>Middleware (from the spec)\<close>

definition protect :: "principal option \<Rightarrow> error + principal" where
  "protect p = (case p of None \<Rightarrow> Inl NotAuthorized | Some u \<Rightarrow> Inr u)"

definition admin :: "principal \<Rightarrow> error + unit" where
  "admin u = (if principal_role u = Admin then Inr () else Inl NotAdmin)"

definition guard_protect :: "principal option \<Rightarrow> (principal \<Rightarrow> error + 'a) \<Rightarrow> error + 'a" where
  "guard_protect p f = (case protect p of Inl e \<Rightarrow> Inl e | Inr u \<Rightarrow> f u)"

definition guard_admin :: "principal option \<Rightarrow> (principal \<Rightarrow> error + 'a) \<Rightarrow> error + 'a" where
  "guard_admin p f = guard_protect p (\<lambda>u. case admin u of Inl e \<Rightarrow> Inl e | Inr _ \<Rightarrow> f u)"

subsection \<open>User handlers (from the spec)\<close>

definition registerUser :: "user \<Rightarrow> db \<Rightarrow> error + (response \<times> db)" where
  "registerUser u d =
     (let k = next_oid d in Inr (UserCreated (k, u), d\<lparr>users := users d @ [(k, u)], next_oid := Suc k\<rparr>))"

definition authUser :: "oid \<Rightarrow> db \<Rightarrow> error + (response \<times> db)" where
  "authUser k d =
     (case map_of (users d) k of
        None \<Rightarrow> Inl NotAuthorized
      | Some u \<Rightarrow> Inr (LoggedIn \<lparr>principal_id = k, principal_role = role u\<rparr>, d))"

definition getUsers :: "db \<Rightarrow> error + (response \<times> db)" where
  "getUsers d = Inr (UserList (users d), d)"

definition deleteUser :: "oid \<Rightarrow> db \<Rightarrow> error + (response \<times> db)" where
  "deleteUser k d =
     (case map_of (users d) k of
        None \<Rightarrow> Inl UserNotFound
      | Some _ \<Rightarrow> Inr (UserRemoved, d\<lparr>users := AList.delete k (users d)\<rparr>))"

subsection \<open>Route tables\<close>

text \<open>\<open>bookRoutes.js\<close> lines 11--15: listing is public, the writes need
  \<open>protect, admin\<close>.  \<open>None\<close>: the table has no such route.\<close>

fun book_route :: "principal option \<Rightarrow> http_request \<Rightarrow> db \<Rightarrow> (error + (response \<times> db)) option" where
  "book_route p GetBooks d = Some (Inr (BooksList (getBooks d), d))"
| "book_route p (PostBook body) d =
     Some (guard_admin p (\<lambda>_. map_sum id (\<lambda>(r, d'). (BookCreated r, d')) (addBook body d)))"
| "book_route p (PutBook bid body) d =
     Some (guard_admin p (\<lambda>_. map_sum id (\<lambda>(b, d'). (BookUpdated b, d')) (updateBook bid body d)))"
| "book_route p (DeleteBook bid) d =
     Some (guard_admin p (\<lambda>_. map_sum id (\<lambda>d'. (BookRemoved, d')) (deleteBook bid d)))"
| "book_route p _ d = None"

text \<open>\<open>issuedBookRoutes.js\<close> lines 10--11: listing needs \<open>protect\<close>, issuing and
  returning \<open>protect, admin\<close>.  The new loan is sent back populated
  (\<open>issuedBookController.js\<close> lines 57--58), the returned one as saved, with bare ids.\<close>

fun issued_route :: "principal option \<Rightarrow> http_request \<Rightarrow> db \<Rightarrow> (error + (response \<times> db)) option" where
  "issued_route p GetIssuedBooks d = Some (guard_protect p (\<lambda>u. Inr (LoanList (getIssuedBooks u d), d)))"
| "issued_route p (PostIssuedBook now bid uid due) d =
     Some (guard_admin p (\<lambda>_. map_sum id (\<lambda>(r, d'). (LoanCreated (populate d' r), d')) (issueBook now bid uid due d)))"
| "issued_route p (PutReturn now lid) d =
     Some (guard_admin p (\<lambda>_. map_sum id (\<lambda>(r, d'). (LoanReturned (lid, r), d')) (returnBook now lid d)))"
| "issued_route p _ d = None"

text \<open>\<open>userRoutes.js\<close> lines 11--14: register and login are public; listing and
  deleting users need \<open>protect\<close> only (\<open>admin\<close> is imported at line 9 but not used).\<close>

fun user_route :: "principal option \<Rightarrow> http_request \<Rightarrow> db \<Rightarrow> (error + (response \<times> db)) option" where
  "user_route p (PostRegister u) d = Some (registerUser u d)"
| "user_route p (PostLogin k) d = Some (authUser k d)"
| "user_route p GetUsers d = Some (guard_protect p (\<lambda>_. getUsers d))"
| "user_route p (DeleteUser k) d = Some (guard_protect p (\<lambda>_. deleteUser k d))"
| "user_route p _ d = None"

text \<open>The three routers mounted side by side; a request no table matches is a 404.\<close>

definition route :: "principal option \<Rightarrow> http_request \<Rightarrow> db \<Rightarrow> error + (response \<times> db)" where
  "route p req d =
     (case book_route p req d of
        Some r \<Rightarrow> r
      | None \<Rightarrow> (case issued_route p req d of
                   Some r \<Rightarrow> r
                 | None \<Rightarrow> (case user_route p req d of Some r \<Rightarrow> r | None \<Rightarrow> Inl RouteNotFound)))"

text \<open>The HTTP request that carries a state-changing request of \<open>Lifecycle\<close>.\<close>

fun http_of :: "request \<Rightarrow> http_request" where
  "http_of (ReqIssue now bid uid due) = PostIssuedBook now bid uid due"
| "http_of (ReqReturn now lid) = PutReturn now lid"
| "http_of (ReqAdd body) = PostBook body"
| "http_of (ReqUpdate bid body) = PutBook bid body"
| "http_of (ReqDelete bid) = DeleteBook bid"

text \<open>Principals and a store for the examples.\<close>

abbreviation student_p :: principal where
  "student_p \<equiv> \<lparr>principal_id = 1, principal_role = Student\<rparr>"

abbreviation admin_p :: principal where
  "admin_p \<equiv> \<lparr>principal_id = 2, principal_role = Admin\<rparr>"

abbreviation users_store :: db where
  "users_store \<equiv> \<lparr>books = [(0, sicp 2)], loans = [],
     users = [(1, \<lparr>user_name = ''ann'', email = ''ann@uni'', role = Student\<rparr>)], next_oid = 2\<rparr>"

subsection \<open>Response shapes\<close>

text \<open>Which JSON body answers which request: the shape the client's \<open>const { data }\<close>
  expects (\<open>LibraryContext.tsx\<close>), with the ids the request names.\<close>

fun response_fits :: "http_request \<Rightarrow> response \<Rightarrow> bool" where
  "response_fits GetBooks r = (case r of BooksList _ \<Rightarrow> True | _ \<Rightarrow> False)"
| "response_fits (PostBook _) r = (case r of BookCreated _ \<Rightarrow> True | _ \<Rightarrow> False)"
| "response_fits (PutBook _ _) r = (case r of BookUpdated _ \<Rightarrow> True | _ \<Rightarrow> False)"
| "response_fits (DeleteBook _) r = (case r of BookRemoved \<Rightarrow> True | _ \<Rightarrow> False)"
| "response_fits GetIssuedBooks r = (case r of LoanList _ \<Rightarrow> True | _ \<Rightarrow> False)"
| "response_fits (PostIssuedBook _ bid uid _) r =
     (case r of
        LoanCreated v \<Rightarrow> bookId (fst (snd v)) = bid \<and> userId (fst (snd v)) = uid \<and> status (fst (snd v)) = Issued
      | _ \<Rightarrow> False)"
| "response_fits (PutReturn now lid) r =
     (case r of
        LoanReturned (lid', ib) \<Rightarrow> lid' = lid \<and> status ib = Returned \<and> returnDate ib = Some now
      | _ \<Rightarrow> False)"
| "response_fits (PostRegister u) r = (case r of UserCreated (_, u') \<Rightarrow> u' = u | _ \<Rightarrow> False)"
| "response_fits (PostLogin k) r = (case r of LoggedIn q \<Rightarrow> principal_id q = k | _ \<Rightarrow> False)"
| "response_fits GetUsers r = (case r of UserList _ \<Rightarrow> True | _ \<Rightarrow> False)"
| "response_fits (DeleteUser _) r = (case r of UserRemoved \<Rightarrow> True | _ \<Rightarrow> False)"

subsection \<open>Lemmas on the middleware\<close>

lemma guard_protect_None [simp]: "guard_protect None f = Inl NotAuthorized"
  by (simp add: guard_protect_def protect_def)

lemma guard_protect_Some [simp]: "guard_protect (Some u) f = f u"
  by (simp add: guard_protect_def protect_def)

lemma guard_admin_Some:
  "guard_admin (Some u) f = (if principal_role u = Admin then f u else Inl NotAdmin)"
  by (simp add: guard_admin_def admin_def)

lemma guard_admin_None [simp]: "guard_admin None f = Inl NotAuthorized"
  by (simp add: guard_admin_def)

lemma guard_protect_Inr: "guard_protect p f = Inr x \<longleftrightarrow> (\<exists>u. p = Some u \<and> f u = Inr x)"
  by (cases p) simp_all

lemma guard_admin_Inr:
  "guard_admin p f = Inr x \<longleftrightarrow> (\<exists>u. p = Some u \<and> principal_role u = Admin \<and> f u = Inr x)"
  by (cases p) (simp_all add: guard_admin_Some)

lemma populate_record [simp]: "fst (snd (populate d (lid, ib))) = ib"
  by (simp add: populate_def)

lemma route_issue_Inr:
  assumes "route p (PostIssuedBook now bid uid due) d = Inr (r, d')"
  shows "\<exists>lid ib. issueBook now bid uid due d = Inr ((lid, ib), d') \<and> r = LoanCreated (populate d' (lid, ib))"
proof (cases "issueBook now bid uid due d")
  case (Inl e)
  with assms show ?thesis by (cases p) (simp_all add: route_def guard_admin_Some split: if_splits)
next
  case (Inr z)
  moreover obtain lid ib d1 where "z = ((lid, ib), d1)" by (metis prod.exhaust)
  ultimately show ?thesis using assms by (cases p) (auto simp: route_def guard_admin_Some split: if_splits)
qed

lemma route_return_Inr:
  assumes "route p (PutReturn now lid) d = Inr (r, d')"
  shows "\<exists>ib. returnBook now lid d = Inr (ib, d') \<and> r = LoanReturned (lid, ib)"
proof (cases "returnBook now lid d")
  case (Inl e)
  with assms show ?thesis by (cases p) (simp_all add: route_def guard_admin_Some split: if_splits)
next
  case (Inr z)
  moreover obtain ib d1 where "z = (ib, d1)" by (metis prod.exhaust)
  ultimately show ?thesis using assms by (cases p) (auto simp: route_def guard_admin_Some split: if_splits)
qed

lemma issueBook_response:
  "issueBook now bid uid due d = Inr ((lid, ib), d') \<Longrightarrow> bookId ib = bid \<and> userId ib = uid \<and> status ib = Issued"
  by (erule issueBook_Inr) (simp add: new_issued_book_def)

lemma returnBook_response:
  "returnBook now lid d = Inr (ib, d') \<Longrightarrow> status ib = Returned \<and> returnDate ib = Some now"
  by (erule returnBook_Inr) simp

subsection \<open>Properties of the route tables\<close>

text \<open>C28.  A request without an admin principal (anonymous or a student) never changes the
  books or the loans, whatever the route: every route that writes them sits behind
  \<open>protect, admin\<close>.\<close>

lemma route_non_admin_keeps_ledger:
  assumes "\<forall>u. p = Some u \<longrightarrow> principal_role u \<noteq> Admin"
      and "route p req d = Inr (r, d')"
  shows "books d' = books d \<and> loans d' = loans d"
  using assms
  by (cases req; cases p)
     (auto simp: route_def guard_admin_Some registerUser_def authUser_def getUsers_def deleteUser_def
       Let_def split: option.splits if_splits)

text \<open>C29.  A student may delete any user: \<open>router.route('/:id').delete(protect,
  deleteUser)\<close> has no \<open>admin\<close>, although the file imports it.\<close>

lemma route_student_deletes_user:
  assumes "principal_role u = Student" and "map_of (users d) k = Some x"
  shows "route (Some u) (DeleteUser k) d = Inr (UserRemoved, d\<lparr>users := AList.delete k (users d)\<rparr>)"
  using assms by (simp add: route_def deleteUser_def)

text \<open>C30.  For an admin, the route tables hand every state-changing request to the
  controller that \<open>Lifecycle.serve\<close> names, with the same outcome on the store: the route
  layer refines the step function of the lifecycle.\<close>

lemma route_admin_refines_serve:
  assumes "principal_role u = Admin"
  shows "map_sum id snd (route (Some u) (http_of rq) d) = serve rq d"
  using assms
  by (cases rq) (auto simp: route_def guard_admin_Some map_sum.compositionality comp_def
       case_prod_unfold sum.map_comp sum.map_ident intro!: sum.map_cong)

text \<open>Without a token only three requests succeed: listing the books, registering and
  logging in.\<close>

lemma route_anonymous_public:
  assumes "route None req d = Inr (r, d')"
  shows "req = GetBooks \<or> (\<exists>u. req = PostRegister u) \<or> (\<exists>k. req = PostLogin k)"
  using assms by (cases req) (simp_all add: route_def guard_admin_def)

text \<open>Every successful request is answered with the response shape the client
  expects for it: a loan issued for the requested book and user in state \<open>Issued\<close>, the
  returned loan under the requested id in state \<open>Returned\<close> at the request's time, the
  registered user as sent, a login for the requested id; so the fallback branches of the
  client's handlers never meet a successful response.\<close>

lemma route_response_fits:
  assumes "route p req d = Inr (r, d')"
  shows "response_fits req r"
proof (cases req)
  case (PostIssuedBook now bid uid due)
  with assms route_issue_Inr show ?thesis by (fastforce dest: issueBook_response)
next
  case (PutReturn now lid)
  with assms route_return_Inr show ?thesis by (fastforce dest: returnBook_response)
qed (use assms in \<open>auto simp: route_def guard_protect_Inr guard_admin_Inr registerUser_def authUser_def
       getUsers_def deleteUser_def map_sum_Inr_iff Let_def split: option.splits\<close>)



lemma route_non_admin_keeps_ledger_witness:
  "route (Some student_p) (DeleteUser 1) users_store = Inr (UserRemoved, users_store\<lparr>users := []\<rparr>) \<and>
   books (users_store\<lparr>users := []\<rparr>) = books users_store \<and> loans (users_store\<lparr>users := []\<rparr>) = loans users_store"
  using route_non_admin_keeps_ledger [of "Some student_p" "DeleteUser 1" users_store UserRemoved "users_store\<lparr>users := []\<rparr>"]
  by (simp add: route_def deleteUser_def)

lemma route_student_deletes_user_witness:
  "route (Some student_p) (DeleteUser 1) users_store = Inr (UserRemoved, users_store\<lparr>users := []\<rparr>)"
  using route_student_deletes_user [of student_p users_store 1] by simp

lemma route_admin_refines_serve_witness:
  "map_sum id snd (route (Some admin_p) (http_of (ReqDelete 0)) users_store) = serve (ReqDelete 0) users_store"
  using route_admin_refines_serve [of admin_p "ReqDelete 0" users_store] by simp

lemma route_anonymous_public_witness:
  "route None GetBooks users_store = Inr (BooksList [(0, sicp 2)], users_store) \<and> GetBooks = GetBooks"
  using route_anonymous_public [of GetBooks users_store "BooksList [(0, sicp 2)]" users_store]
  by (simp add: route_def getBooks_def)
lemma route_response_fits_witness:
  "route (Some admin_p) (PostIssuedBook 0 0 1 (Some 100)) users_store =
     Inr (LoanCreated (populate (users_store\<lparr>books := [(0, sicp 1)], loans := [(2, new_issued_book 0 1 0 100)],
                                              next_oid := 3\<rparr>) (2, new_issued_book 0 1 0 100)),
          users_store\<lparr>books := [(0, sicp 1)], loans := [(2, new_issued_book 0 1 0 100)], next_oid := 3\<rparr>) \<and>
   response_fits (PostIssuedBook 0 0 1 (Some 100))
     (LoanCreated (populate (users_store\<lparr>books := [(0, sicp 1)], loans := [(2, new_issued_book 0 1 0 100)],
                                          next_oid := 3\<rparr>) (2, new_issued_book 0 1 0 100)))"
  using route_response_fits [of "Some admin_p" "PostIssuedBook 0 0 1 (Some 100)" users_store
      "LoanCreated (populate (users_store\<lparr>books := [(0, sicp 1)], loans := [(2, new_issued_book 0 1 0 100)],
                                          next_oid := 3\<rparr>) (2, new_issued_book 0 1 0 100))"
      "users_store\<lparr>books := [(0, sicp 1)], loans := [(2, new_issued_book 0 1 0 100)], next_oid := 3\<rparr>"]
  by (simp add: route_def guard_admin_Some issueBook_def insert_loan_def save_available_def Let_def)

end
