(* ===== verification/Client.thy ===== *)
theory Client
  imports Routes
begin

text \<open>
  The client-side cache of \<open>frontend/src/context/LibraryContext.tsx\<close>: three lists kept
  in React state (\<open>books\<close>, \<open>users\<close>, \<open>issuedBooks\<close>), filled by the three \<open>fetch\<close>
  functions and patched locally after each successful write, without a refetch.  Each
  operation is a function of the cache and the server store: it calls a route of
  \<open>Routes\<close> and on success sets the state from the response.  The lists a handler patches
  are the ones its closure captured when it was created (the render's state), given as a
  separate argument \<open>cl\<close>; a handler called from the current render has \<open>cl = c\<close>.
  The axios instance of \<open>services/api.ts\<close>, not among the sources, is modelled from the
  spec: it sends the principal's token and rejects on an error status, and every handler
  catches the rejection and only logs it.
\<close>

subsection \<open>Cached state\<close>

text \<open>An entry of \<open>issuedBooks\<close>: a populated view as the list and issue routes send
  it, or a record with bare ids as the return route sends it.\<close>

datatype cached_loan = CView loan_view | CRaw oid issued_book

record ctx =
  c_books :: "book collection"
  c_users :: "user collection"
  c_issued :: "cached_loan list"

definition empty_ctx :: ctx where
  "empty_ctx = \<lparr>c_books = [], c_users = [], c_issued = []\<rparr>"

fun cached_record :: "cached_loan \<Rightarrow> oid \<times> issued_book" where
  "cached_record (CView v) = loan_key v"
| "cached_record (CRaw lid ib) = (lid, ib)"

text \<open>\<open>ib._id\<close>.\<close>

definition cached_id :: "cached_loan \<Rightarrow> oid" where
  "cached_id e = fst (cached_record e)"

subsection \<open>The API client (from the spec)\<close>

definition api :: "principal option \<Rightarrow> http_request \<Rightarrow> db \<Rightarrow> response option \<times> db" where
  "api p req d = (case route p req d of Inl _ \<Rightarrow> (None, d) | Inr (r, d') \<Rightarrow> (Some r, d'))"

subsection \<open>Fetching (lines 30--63)\<close>

definition ctx_fetchBooks :: "principal option \<Rightarrow> ctx \<times> db \<Rightarrow> ctx \<times> db" where
  "ctx_fetchBooks p s =
     (case api p GetBooks (snd s) of
        (Some (BooksList bs), d') \<Rightarrow> ((fst s)\<lparr>c_books := bs\<rparr>, d')
      | (_, d') \<Rightarrow> (fst s, d'))"

definition ctx_fetchUsers :: "principal option \<Rightarrow> ctx \<times> db \<Rightarrow> ctx \<times> db" where
  "ctx_fetchUsers p s =
     (case api p GetUsers (snd s) of
        (Some (UserList us), d') \<Rightarrow> ((fst s)\<lparr>c_users := us\<rparr>, d')
      | (_, d') \<Rightarrow> (fst s, d'))"

definition ctx_fetchIssuedBooks :: "principal option \<Rightarrow> ctx \<times> db \<Rightarrow> ctx \<times> db" where
  "ctx_fetchIssuedBooks p s =
     (case api p GetIssuedBooks (snd s) of
        (Some (LoanList vs), d') \<Rightarrow> ((fst s)\<lparr>c_issued := map CView vs\<rparr>, d')
      | (_, d') \<Rightarrow> (fst s, d'))"

text \<open>The effect of lines 57--63: on a (new) logged-in user, the three fetches in turn.\<close>

definition ctx_login :: "principal option \<Rightarrow> ctx \<times> db \<Rightarrow> ctx \<times> db" where
  "ctx_login p s =
     (if p = None then s else ctx_fetchIssuedBooks p (ctx_fetchUsers p (ctx_fetchBooks p s)))"

subsection \<open>Writes with local patches (lines 65--145)\<close>

definition ctx_addBook :: "ctx \<Rightarrow> principal option \<Rightarrow> book_body \<Rightarrow> ctx \<times> db \<Rightarrow> ctx \<times> db" where
  "ctx_addBook cl p body s =
     (case api p (PostBook body) (snd s) of
        (Some (BookCreated kb), d') \<Rightarrow> ((fst s)\<lparr>c_books := c_books cl @ [kb]\<rparr>, d')
      | (_, d') \<Rightarrow> (fst s, d'))"

definition ctx_updateBook :: "ctx \<Rightarrow> principal option \<Rightarrow> oid \<Rightarrow> book_body \<Rightarrow> ctx \<times> db \<Rightarrow> ctx \<times> db" where
  "ctx_updateBook cl p k body s =
     (case api p (PutBook k body) (snd s) of
        (Some (BookUpdated b), d') \<Rightarrow>
          ((fst s)\<lparr>c_books := map (\<lambda>(k', b'). if k' = k then (k, b) else (k', b')) (c_books cl)\<rparr>, d')
      | (_, d') \<Rightarrow> (fst s, d'))"

definition ctx_deleteBook :: "ctx \<Rightarrow> principal option \<Rightarrow> oid \<Rightarrow> ctx \<times> db \<Rightarrow> ctx \<times> db" where
  "ctx_deleteBook cl p k s =
     (case api p (DeleteBook k) (snd s) of
        (Some BookRemoved, d') \<Rightarrow> ((fst s)\<lparr>c_books := filter (\<lambda>(k', _). k' \<noteq> k) (c_books cl)\<rparr>, d')
      | (_, d') \<Rightarrow> (fst s, d'))"

definition ctx_addUser :: "ctx \<Rightarrow> principal option \<Rightarrow> user \<Rightarrow> ctx \<times> db \<Rightarrow> ctx \<times> db" where
  "ctx_addUser cl p u s =
     (case api p (PostRegister u) (snd s) of
        (Some (UserCreated ku), d') \<Rightarrow> ((fst s)\<lparr>c_users := c_users cl @ [ku]\<rparr>, d')
      | (_, d') \<Rightarrow> (fst s, d'))"

definition ctx_deleteUser :: "ctx \<Rightarrow> principal option \<Rightarrow> oid \<Rightarrow> ctx \<times> db \<Rightarrow> ctx \<times> db" where
  "ctx_deleteUser cl p k s =
     (case api p (DeleteUser k) (snd s) of
        (Some UserRemoved, d') \<Rightarrow> ((fst s)\<lparr>c_users := filter (\<lambda>(k', _). k' \<noteq> k) (c_users cl)\<rparr>, d')
      | (_, d') \<Rightarrow> (fst s, d'))"

text \<open>The spread \<open>{...b, availableCopies: b.availableCopies + delta}\<close> on the book with
  the given id.\<close>

definition shift_available :: "oid \<Rightarrow> int \<Rightarrow> book collection \<Rightarrow> book collection" where
  "shift_available k delta bs =
     map (\<lambda>(k', b). if k' = k then (k', b\<lparr>availableCopies := availableCopies b + delta\<rparr>) else (k', b)) bs"

definition ctx_issueBook :: "ctx \<Rightarrow> principal option \<Rightarrow> time \<Rightarrow> oid \<Rightarrow> oid \<Rightarrow> time option \<Rightarrow> ctx \<times> db \<Rightarrow> ctx \<times> db" where
  "ctx_issueBook cl p now bid uid due s =
     (case api p (PostIssuedBook now bid uid due) (snd s) of
        (Some (LoanCreated v), d') \<Rightarrow>
          ((fst s)\<lparr>c_issued := c_issued cl @ [CView v], c_books := shift_available bid (-1) (c_books cl)\<rparr>, d')
      | (_, d') \<Rightarrow> (fst s, d'))"

definition ctx_returnBook :: "ctx \<Rightarrow> principal option \<Rightarrow> time \<Rightarrow> oid \<Rightarrow> ctx \<times> db \<Rightarrow> ctx \<times> db" where
  "ctx_returnBook cl p now lid s =
     (case api p (PutReturn now lid) (snd s) of
        (Some (LoanReturned (lid', ib)), d') \<Rightarrow>
          ((fst s)\<lparr>c_issued := map (\<lambda>e. if cached_id e = lid then CRaw lid' ib else e) (c_issued cl),
                   c_books := shift_available (bookId ib) 1 (c_books cl)\<rparr>, d')
      | (_, d') \<Rightarrow> (fst s, d'))"

subsection \<open>A session\<close>

datatype ctx_action =
    FetchBooks | FetchUsers | FetchIssued
  | AddBookAct book_body | UpdateBookAct oid book_body | DeleteBookAct oid
  | AddUserAct user | DeleteUserAct oid
  | IssueAct time oid oid "time option" | ReturnAct time oid

fun ctx_call :: "ctx \<Rightarrow> principal option \<Rightarrow> ctx_action \<Rightarrow> ctx \<times> db \<Rightarrow> ctx \<times> db" where
  "ctx_call cl p FetchBooks s = ctx_fetchBooks p s"
| "ctx_call cl p FetchUsers s = ctx_fetchUsers p s"
| "ctx_call cl p FetchIssued s = ctx_fetchIssuedBooks p s"
| "ctx_call cl p (AddBookAct body) s = ctx_addBook cl p body s"
| "ctx_call cl p (UpdateBookAct k body) s = ctx_updateBook cl p k body s"
| "ctx_call cl p (DeleteBookAct k) s = ctx_deleteBook cl p k s"
| "ctx_call cl p (AddUserAct u) s = ctx_addUser cl p u s"
| "ctx_call cl p (DeleteUserAct k) s = ctx_deleteUser cl p k s"
| "ctx_call cl p (IssueAct now bid uid due) s = ctx_issueBook cl p now bid uid due s"
| "ctx_call cl p (ReturnAct now lid) s = ctx_returnBook cl p now lid s"

text \<open>One call from a render that shows the current state: the closure is the cache.\<close>

definition ctx_step :: "principal option \<Rightarrow> ctx_action \<Rightarrow> ctx \<times> db \<Rightarrow> ctx \<times> db" where
  "ctx_step p a s = ctx_call (fst s) p a s"

subsection \<open>Agreement of cache and store\<close>

text \<open>The loans the server lists to a principal (\<open>getIssuedBooks\<close> without population).\<close>

definition visible_loans :: "principal \<Rightarrow> db \<Rightarrow> issued_book collection" where
  "visible_loans u d =
     filter (\<lambda>(_, ib). case loan_query u of None \<Rightarrow> True | Some k \<Rightarrow> userId ib = k) (loans d)"

definition cache_ok :: "principal \<Rightarrow> ctx \<Rightarrow> db \<Rightarrow> bool" where
  "cache_ok u c d \<longleftrightarrow>
     c_books c = books d \<and> c_users c = users d \<and> map cached_record (c_issued c) = visible_loans u d"

text \<open>A cache in step with \<open>users_store\<close>, for the examples.\<close>

abbreviation synced_ctx :: ctx where
  "synced_ctx \<equiv> \<lparr>c_books = [(0, sicp 2)],
     c_users = [(1, \<lparr>user_name = ''ann'', email = ''ann@uni'', role = Student\<rparr>)], c_issued = []\<rparr>"

subsection \<open>Lemmas on the cache\<close>

lemma shift_available_absent:
  "k \<notin> set (map fst bs) \<Longrightarrow> shift_available k delta bs = bs"
  by (induction bs) (auto simp: shift_available_def)

lemma shift_available_save:
  "distinct (map fst bs) \<Longrightarrow> map_of bs k = Some b \<Longrightarrow>
   shift_available k delta bs = AList.map_entry k (\<lambda>x. x\<lparr>availableCopies := availableCopies b + delta\<rparr>) bs"
proof (induction bs)
  case (Cons a bs)
  then show ?case
    using shift_available_absent [of k bs delta]
    by (cases a) (auto simp: shift_available_def split: if_splits)
qed simp

lemma update_as_map:
  "distinct (map fst al) \<Longrightarrow> k \<in> set (map fst al) \<Longrightarrow>
   AList.update k v al = map (\<lambda>(k', v'). if k' = k then (k, v) else (k', v')) al"
proof (induction al)
  case (Cons a al)
  have "map (\<lambda>(k', v'). if k' = k then (k, v) else (k', v')) al = al" if "k \<notin> set (map fst al)"
    using that by (induction al) auto
  with Cons show ?case by (cases a) auto
qed simp

lemma delete_as_filter:
  "AList.delete k al = filter (\<lambda>(k', _). k' \<noteq> k) al"
  by (induction al) auto

lemma issueBook_keeps_wf:
  assumes "wf_db d" and "issueBook now bid uid due d = Inr (r, d')"
  shows "wf_db d'"
proof -
  from assms(2) obtain book dd where b: "map_of (books d) bid = Some book"
    and d': "d' = save_available bid (availableCopies book - 1)
                (d\<lparr>loans := loans d @ [(next_oid d, new_issued_book bid uid now dd)],
                   next_oid := Suc (next_oid d)\<rparr>)"
    by (rule issueBook_Inr)
  have "bid < next_oid d"
    using assms(1) map_of_Some_key [OF b] by (auto simp: wf_db_def list_all_iff)
  then show ?thesis
    using assms(1) distinct_fresh_append [of "keys (loans d)" "next_oid d"]
    by (auto simp: wf_db_def d' new_issued_book_def list_all_iff)
qed

lemma returnBook_keeps_wf:
  assumes "wf_db d" and "returnBook now lid d = Inr (r, d')"
  shows "wf_db d'"
proof -
  from assms(2) obtain ib where l: "map_of (loans d) lid = Some ib" and r: "r = return_update now ib"
    and d': "d' = (case map_of (books d) (bookId ib) of
                 None \<Rightarrow> save_loan lid r d
               | Some book \<Rightarrow> save_available (bookId ib) (availableCopies book + 1) (save_loan lid r d))"
    by (rule returnBook_Inr)
  have "bookId ib < next_oid d"
    using assms(1) map_of_SomeD [OF l] by (auto simp: wf_db_def list_all_iff)
  then have "wf_db (save_loan lid r d)"
    using assms(1) l by (auto simp: wf_db_def save_loan_def r intro: list_all_update)
  then show ?thesis
    by (auto simp: d' wf_db_def save_loan_def split: option.splits)
qed

lemma addBook_keeps_wf:
  assumes "wf_db d" and "addBook body d = Inr (r, d')"
  shows "wf_db d'"
  using assms addBook_Inr [OF assms(2)] distinct_fresh_append [of "keys (books d)" "next_oid d"]
  by (cases r) (auto simp: wf_db_def list_all_iff)

lemma updateBook_keeps_wf:
  assumes "wf_db d" and "updateBook bid body d = Inr (b, d')"
  shows "wf_db d'"
proof -
  from assms(2) obtain book where "map_of (books d) bid = Some book" and "d' = save_book bid b d"
    by (rule updateBook_Inr)
  then show ?thesis using assms(1) by (simp add: wf_db_def)
qed

lemma deleteBook_keeps_wf:
  assumes "wf_db d" and "deleteBook bid d = Inr d'"
  shows "wf_db d'"
proof -
  from assms(2) have d': "d' = d\<lparr>books := AList.delete bid (books d)\<rparr>"
    by (simp add: deleteBook_def split: option.splits)
  show ?thesis
    using assms(1) by (auto simp: wf_db_iff d' delete_keys distinct_removeAll)
qed

lemma wf_db_users [simp]: "wf_db (d\<lparr>users := us\<rparr>) = wf_db d"
  by (simp add: wf_db_def)

lemma wf_db_register:
  "wf_db d \<Longrightarrow> wf_db (d\<lparr>users := us, next_oid := Suc (next_oid d)\<rparr>)"
  by (auto simp: wf_db_def list_all_iff)

lemma route_keeps_wf:
  assumes "wf_db d" and "route p req d = Inr (r, d')"
  shows "wf_db d'"
  using assms
  by (cases req; cases p)
     (auto simp: route_def guard_admin_Some registerUser_def authUser_def getUsers_def deleteUser_def
        map_sum_Inr_iff Let_def split: option.splits if_splits
        intro: wf_db_register
        dest: issueBook_keeps_wf returnBook_keeps_wf addBook_keeps_wf updateBook_keeps_wf deleteBook_keeps_wf)

lemma api_Some: "api p req d = (Some r, d') \<longleftrightarrow> route p req d = Inr (r, d')"
  by (auto simp: api_def split: sum.splits)

lemma api_None: "api p req d = (None, d') \<longleftrightarrow> (\<exists>e. route p req d = Inl e) \<and> d' = d"
  by (auto simp: api_def split: sum.splits)

lemma visible_loans_admin:
  "principal_role u = Admin \<Longrightarrow> visible_loans u d = loans d"
  by (simp add: visible_loans_def loan_query_def)

lemma visible_loans_getIssuedBooks:
  "map loan_key (getIssuedBooks u d) = visible_loans u d"
  by (simp add: getIssuedBooks_def visible_loans_def unpopulate)

lemma visible_loans_cong: "loans d' = loans d \<Longrightarrow> visible_loans u d' = visible_loans u d"
  by (simp add: visible_loans_def)

lemma cache_ok_write_failed:
  "route (Some u) req d = Inl e \<Longrightarrow> api (Some u) req d = (None, d)"
  by (simp add: api_def)

lemma ctx_addBook_ok:
  assumes "cache_ok u c d" and "ctx_addBook c (Some u) body (c, d) = (c', d')"
  shows "cache_ok u c' d'"
  using assms
  by (cases "addBook body d")
     (auto simp: ctx_addBook_def api_def route_def guard_admin_Some cache_ok_def visible_loans_def
        split: if_splits dest!: addBook_Inr)

lemma ctx_updateBook_ok:
  assumes "cache_ok u c d" and "wf_db d" and "ctx_updateBook c (Some u) k body (c, d) = (c', d')"
  shows "cache_ok u c' d'"
proof (cases "updateBook k body d")
  case (Inr r)
  then obtain b d1 where r: "updateBook k body d = Inr (b, d1)" by (cases r) auto
  then obtain book where bk: "map_of (books d) k = Some book" and d1: "d1 = save_book k b d"
    by (rule updateBook_Inr)
  have "distinct (keys (books d))" using assms(2) by (simp add: wf_db_def)
  then have "books d1 = map (\<lambda>(k', b'). if k' = k then (k, b) else (k', b')) (books d)"
    using update_as_map map_of_Some_key [OF bk] by (simp add: d1)
  then show ?thesis
    using assms(1,3) r d1
    by (auto simp: ctx_updateBook_def api_def route_def guard_admin_Some cache_ok_def visible_loans_def
        save_book_def split: if_splits)
qed (use assms in \<open>auto simp: ctx_updateBook_def api_def route_def guard_admin_Some split: if_splits\<close>)

lemma ctx_deleteBook_ok:
  assumes "cache_ok u c d" and "ctx_deleteBook c (Some u) k (c, d) = (c', d')"
  shows "cache_ok u c' d'"
  using assms
  by (auto simp: ctx_deleteBook_def api_def route_def guard_admin_Some cache_ok_def visible_loans_def
        deleteBook_def delete_as_filter split: if_splits option.splits)

lemma ctx_addUser_ok:
  assumes "cache_ok u c d" and "ctx_addUser c (Some u) usr (c, d) = (c', d')"
  shows "cache_ok u c' d'"
  using assms
  by (auto simp: ctx_addUser_def api_def route_def registerUser_def cache_ok_def visible_loans_def Let_def)

lemma ctx_deleteUser_ok:
  assumes "cache_ok u c d" and "ctx_deleteUser c (Some u) k (c, d) = (c', d')"
  shows "cache_ok u c' d'"
  using assms
  by (auto simp: ctx_deleteUser_def api_def route_def deleteUser_def cache_ok_def visible_loans_def
        delete_as_filter split: option.splits)

lemma cached_record_replace:
  "map cached_record (map (\<lambda>e. if cached_id e = lid then CRaw lid ib else e) cs)
   = map (\<lambda>(k', v'). if k' = lid then (lid, ib) else (k', v')) (map cached_record cs)"
  by (induction cs) (auto simp: cached_id_def split: prod.splits)

lemma ctx_issueBook_ok:
  assumes "cache_ok u c d" and "wf_db d" and "ctx_issueBook c (Some u) now bid uid due (c, d) = (c', d')"
  shows "cache_ok u c' d'"
proof (cases "principal_role u = Admin \<and> (\<exists>r d1. issueBook now bid uid due d = Inr (r, d1))")
  case True
  then obtain r d1 where adm: "principal_role u = Admin" and ok: "issueBook now bid uid due d = Inr (r, d1)"
    by blast
  from ok obtain book dd where bk: "map_of (books d) bid = Some book"
    and r: "r = (next_oid d, new_issued_book bid uid now dd)"
    and d1: "d1 = save_available bid (availableCopies book - 1)
                (d\<lparr>loans := loans d @ [(next_oid d, new_issued_book bid uid now dd)],
                   next_oid := Suc (next_oid d)\<rparr>)"
    by (rule issueBook_Inr)
  have "distinct (keys (books d))" using assms(2) by (simp add: wf_db_def)
  then have "shift_available bid (-1) (books d) = books d1"
    using shift_available_save [OF _ bk, of "-1"] by (simp add: d1)
  then show ?thesis
    using assms(1,3) adm ok r d1
    by (auto simp: ctx_issueBook_def api_def route_def guard_admin_Some cache_ok_def visible_loans_admin)
next
  case False
  then have "api (Some u) (PostIssuedBook now bid uid due) d = (None, d)"
    by (cases "issueBook now bid uid due d") (auto simp: api_def route_def guard_admin_Some)
  then show ?thesis using assms(1,3) by (simp add: ctx_issueBook_def)
qed

lemma ctx_returnBook_ok:
  assumes "cache_ok u c d" and "wf_db d" and "ctx_returnBook c (Some u) now lid (c, d) = (c', d')"
  shows "cache_ok u c' d'"
proof (cases "principal_role u = Admin \<and> (\<exists>r d1. returnBook now lid d = Inr (r, d1))")
  case True
  then obtain r d1 where adm: "principal_role u = Admin" and ok: "returnBook now lid d = Inr (r, d1)"
    by blast
  from ok obtain ib where l: "map_of (loans d) lid = Some ib" and r: "r = return_update now ib"
    and d1: "d1 = (case map_of (books d) (bookId ib) of
                 None \<Rightarrow> save_loan lid r d
               | Some book \<Rightarrow> save_available (bookId ib) (availableCopies book + 1) (save_loan lid r d))"
    by (rule returnBook_Inr)
  have db: "distinct (keys (books d))" and dl: "distinct (keys (loans d))"
    using assms(2) by (simp_all add: wf_db_def)
  have books: "shift_available (bookId ib) 1 (books d) = books d1"
  proof (cases "map_of (books d) (bookId ib)")
    case None
    then have "bookId ib \<notin> set (map fst (books d))" by (simp add: map_of_eq_None_iff)
    then show ?thesis
      using shift_available_absent by (simp add: d1 None save_loan_def)
  next
    case (Some book)
    then show ?thesis
      using shift_available_save [OF db Some, of 1] by (simp add: d1 save_loan_def)
  qed
  have loans: "loans d1 = map (\<lambda>(k', v'). if k' = lid then (lid, r) else (k', v')) (loans d)"
    using update_as_map [OF dl map_of_Some_key [OF l]]
    by (simp add: d1 save_loan_def split: option.split)
  have users: "users d1 = users d"
    by (simp add: d1 save_loan_def split: option.split)
  have "map cached_record (map (\<lambda>e. if cached_id e = lid then CRaw lid r else e) (c_issued c))
      = map (\<lambda>(k', v'). if k' = lid then (lid, r) else (k', v')) (map cached_record (c_issued c))"
    by (rule cached_record_replace)
  also have "\<dots> = loans d1"
    using assms(1) adm loans by (simp add: cache_ok_def visible_loans_admin)
  finally have issued: "map cached_record (map (\<lambda>e. if cached_id e = lid then CRaw lid r else e) (c_issued c))
      = loans d1" .
  show ?thesis
    using assms(1,3) adm ok r books users issued
    by (auto simp: ctx_returnBook_def api_def route_def guard_admin_Some cache_ok_def visible_loans_admin)
next
  case False
  then have "api (Some u) (PutReturn now lid) d = (None, d)"
    by (cases "returnBook now lid d") (auto simp: api_def route_def guard_admin_Some)
  then show ?thesis using assms(1,3) by (simp add: ctx_returnBook_def)
qed

lemma ctx_fetchBooks_sync:
  "c_books (fst (ctx_fetchBooks p s)) = books (snd s) \<and>
   c_users (fst (ctx_fetchBooks p s)) = c_users (fst s) \<and>
   c_issued (fst (ctx_fetchBooks p s)) = c_issued (fst s) \<and> snd (ctx_fetchBooks p s) = snd s"
  by (simp add: ctx_fetchBooks_def api_def route_def getBooks_def)

lemma ctx_fetchUsers_sync:
  "c_users (fst (ctx_fetchUsers (Some u) s)) = users (snd s) \<and>
   c_books (fst (ctx_fetchUsers (Some u) s)) = c_books (fst s) \<and>
   c_issued (fst (ctx_fetchUsers (Some u) s)) = c_issued (fst s) \<and> snd (ctx_fetchUsers (Some u) s) = snd s"
  by (simp add: ctx_fetchUsers_def api_def route_def getUsers_def)

lemma ctx_fetchIssued_sync:
  "map cached_record (c_issued (fst (ctx_fetchIssuedBooks (Some u) s))) = visible_loans u (snd s) \<and>
   c_books (fst (ctx_fetchIssuedBooks (Some u) s)) = c_books (fst s) \<and>
   c_users (fst (ctx_fetchIssuedBooks (Some u) s)) = c_users (fst s) \<and>
   snd (ctx_fetchIssuedBooks (Some u) s) = snd s"
  using visible_loans_getIssuedBooks [of u "snd s"]
  by (simp add: ctx_fetchIssuedBooks_def api_def route_def comp_def)

lemma api_keeps_wf: "api p req d = (x, d') \<Longrightarrow> wf_db d \<Longrightarrow> wf_db d'"
  by (auto simp: api_def split: sum.splits dest: route_keeps_wf)

lemmas ctx_op_defs = ctx_fetchBooks_def ctx_fetchUsers_def ctx_fetchIssuedBooks_def ctx_addBook_def
  ctx_updateBook_def ctx_deleteBook_def ctx_addUser_def ctx_deleteUser_def ctx_issueBook_def
  ctx_returnBook_def

lemma ctx_call_keeps_wf: "wf_db (snd s) \<Longrightarrow> wf_db (snd (ctx_call cl p a s))"
  by (cases a) (auto simp: ctx_op_defs intro: api_keeps_wf
      split: prod.splits option.splits response.splits)

lemma ctx_step_cache_ok:
  assumes "wf_db d" and "cache_ok u c d" and "ctx_step (Some u) a (c, d) = (c', d')"
  shows "cache_ok u c' d'"
proof (cases a)
  case FetchBooks
  then show ?thesis using assms ctx_fetchBooks_sync [of "Some u" "(c, d)"]
    by (auto simp: ctx_step_def cache_ok_def)
next
  case FetchUsers
  then show ?thesis using assms ctx_fetchUsers_sync [of u "(c, d)"]
    by (auto simp: ctx_step_def cache_ok_def)
next
  case FetchIssued
  then show ?thesis using assms ctx_fetchIssued_sync [of u "(c, d)"]
    by (auto simp: ctx_step_def cache_ok_def)
qed (use assms in \<open>auto simp: ctx_step_def intro: ctx_addBook_ok ctx_updateBook_ok ctx_deleteBook_ok
       ctx_addUser_ok ctx_deleteUser_ok ctx_issueBook_ok ctx_returnBook_ok\<close>)

lemma ctx_login_cache_ok:
  "cache_ok u (fst (ctx_login (Some u) s)) (snd (ctx_login (Some u) s)) \<and> snd (ctx_login (Some u) s) = snd s"
  using ctx_fetchBooks_sync [of "Some u" s] ctx_fetchUsers_sync [of u "ctx_fetchBooks (Some u) s"]
    ctx_fetchIssued_sync [of u "ctx_fetchUsers (Some u) (ctx_fetchBooks (Some u) s)"]
  by (simp add: ctx_login_def cache_ok_def)

text \<open>C32.  In a session of calls from the current render, the cache refines the server
  store: if the cached books, users and loan records agree with the server's (the loans as
  the server lists them to the principal), they agree after every call, successful or not,
  and the store stays well formed.\<close>

theorem ctx_step_refines:
  assumes "wf_db d" and "cache_ok u c d" and "ctx_step (Some u) a (c, d) = (c', d')"
  shows "wf_db d' \<and> cache_ok u c' d'"
  using ctx_call_keeps_wf [of "(c, d)" c "Some u" a] ctx_step_cache_ok [OF assms] assms
  by (simp add: ctx_step_def)

lemma ctx_step_refines_witness:
  "wf_db users_store \<and> cache_ok admin_p synced_ctx users_store \<and>
   wf_db (snd (ctx_step (Some admin_p) (IssueAct 0 0 1 (Some 100)) (synced_ctx, users_store))) \<and>
   cache_ok admin_p (fst (ctx_step (Some admin_p) (IssueAct 0 0 1 (Some 100)) (synced_ctx, users_store)))
     (snd (ctx_step (Some admin_p) (IssueAct 0 0 1 (Some 100)) (synced_ctx, users_store)))"
  using ctx_step_refines [of users_store admin_p synced_ctx "IssueAct 0 0 1 (Some 100)"
      "fst (ctx_step (Some admin_p) (IssueAct 0 0 1 (Some 100)) (synced_ctx, users_store))"
      "snd (ctx_step (Some admin_p) (IssueAct 0 0 1 (Some 100)) (synced_ctx, users_store))"]
  by (simp add: wf_db_def cache_ok_def visible_loans_def loan_query_def)

text \<open>C33.  Logging in synchronises the cache with the store, whatever it held before,
  and reads only.\<close>

theorem ctx_login_syncs:
  "cache_ok u (fst (ctx_login (Some u) s)) (snd (ctx_login (Some u) s)) \<and> snd (ctx_login (Some u) s) = snd s"
  by (rule ctx_login_cache_ok)

text \<open>C34.  Two issues submitted from the same render (a double submit of the issue form)
  both succeed on the server, but each handler patches the lists its closure captured: from
  any admin cache in step with the store, for any book with two free copies, the server ends
  with two new loans, the cache with one new loan and one copy fewer, and the cache no
  longer agrees with the store.\<close>

theorem ctx_issueBook_stale_closure:
  assumes adm: "principal_role u = Admin" and ok: "cache_ok u c d" and wf: "wf_db d"
    and b: "map_of (books d) bid = Some book" and a: "2 \<le> availableCopies book"
  shows "\<exists>c2 d2. ctx_issueBook c (Some u) now bid uid (Some dd) (ctx_issueBook c (Some u) now bid uid (Some dd) (c, d))
            = (c2, d2)
     \<and> length (loans d2) = length (loans d) + 2 \<and> length (c_issued c2) = length (c_issued c) + 1
     \<and> c_books c2 = shift_available bid (-1) (c_books c) \<and> \<not> cache_ok u c2 d2"
proof -
  let ?l = "new_issued_book bid uid now dd"
  define d1 where "d1 = save_available bid (availableCopies book - 1)
                          (d\<lparr>loans := loans d @ [(next_oid d, ?l)], next_oid := Suc (next_oid d)\<rparr>)"
  define d2 where "d2 = save_available bid (availableCopies book - 1 - 1)
                          (d1\<lparr>loans := loans d1 @ [(next_oid d1, ?l)], next_oid := Suc (next_oid d1)\<rparr>)"
  have i1: "issueBook now bid uid (Some dd) d = Inr ((next_oid d, ?l), d1)"
    using b a by (simp add: issueBook_def insert_loan_def Let_def d1_def)
  have b1: "map_of (books d1) bid = Some (book\<lparr>availableCopies := availableCopies book - 1\<rparr>)"
    using b by (simp add: d1_def)
  have i2: "issueBook now bid uid (Some dd) d1 = Inr ((next_oid d1, ?l), d2)"
    using b1 a by (simp add: issueBook_def insert_loan_def Let_def d2_def)
  define c2 where "c2 = c\<lparr>c_issued := c_issued c @ [CView (populate d2 (next_oid d1, ?l))],
                          c_books := shift_available bid (-1) (c_books c)\<rparr>"
  have run: "ctx_issueBook c (Some u) now bid uid (Some dd) (ctx_issueBook c (Some u) now bid uid (Some dd) (c, d))
            = (c2, d2)"
    using adm i1 i2 by (simp add: ctx_issueBook_def api_def route_def guard_admin_Some c2_def)
  have ld2: "length (loans d2) = length (loans d) + 2"
    by (simp add: d2_def d1_def)
  have lc2: "length (c_issued c2) = length (c_issued c) + 1"
    by (simp add: c2_def)
  have "map cached_record (c_issued c) = loans d"
    using ok adm by (simp add: cache_ok_def visible_loans_admin)
  then have lc: "length (c_issued c) = length (loans d)"
    by (metis length_map)
  have "\<not> cache_ok u c2 d2"
  proof
    assume "cache_ok u c2 d2"
    then have "map cached_record (c_issued c2) = loans d2"
      using adm by (simp add: cache_ok_def visible_loans_admin)
    then have "length (c_issued c2) = length (loans d2)"
      by (metis length_map)
    with lc ld2 lc2 show False by simp
  qed
  with run ld2 lc2 show ?thesis
    by (auto simp: c2_def)
qed

theorem ctx_issueBook_stale_closure_witness:
  "\<exists>c2 d2. ctx_issueBook synced_ctx (Some admin_p) 0 0 1 (Some 100)
              (ctx_issueBook synced_ctx (Some admin_p) 0 0 1 (Some 100) (synced_ctx, users_store)) = (c2, d2)
     \<and> length (loans d2) = 2 \<and> length (c_issued c2) = 1
     \<and> c_books c2 = [(0, sicp 1)] \<and> \<not> cache_ok admin_p c2 d2"
proof -
  have h1: "principal_role admin_p = Admin" by simp
  have h2: "cache_ok admin_p synced_ctx users_store" by (simp add: cache_ok_def visible_loans_def)
  have h3: "wf_db users_store" by (simp add: wf_db_def)
  have h4: "map_of (books users_store) 0 = Some (sicp 2)" by simp
  have h5: "2 \<le> availableCopies (sicp 2)" by simp
  show ?thesis
    using ctx_issueBook_stale_closure [OF h1 h2 h3 h4 h5, of 0 1 100]
    by (auto simp: shift_available_def)
qed

end
