(* ===== verification/Pages.thy ===== *)
theory Pages
  imports Client
begin

text \<open>
  What the pages of \<open>frontend/src\<close> compute from the cached lists of \<open>Client\<close>: the rows
  and badges of \<open>pages/IssuedBooks.tsx\<close> with its form default, the statistics of
  \<open>pages/Dashboard.tsx\<close>, the table and form of \<open>pages/Books.tsx\<close>, the guard of
  \<open>pages/Users.tsx\<close>, the navigation of \<open>components/Sidebar.tsx\<close> and the route guard of
  \<open>App.tsx\<close>.  Dates are milliseconds as in the backend; the browser's clock is read as
  a parameter \<open>today\<close>, in UTC.
\<close>

definition cached_ib :: "cached_loan \<Rightarrow> issued_book" where
  "cached_ib e = snd (cached_record e)"

subsection \<open>Issued books page\<close>

text \<open>Line 18: the books offered in the issue form.\<close>

definition availableBooks :: "book collection \<Rightarrow> book collection" where
  "availableBooks bs = filter (\<lambda>(_, b). 0 < availableCopies b) bs"

text \<open>Lines 20--31: the due date the form proposes, the date of today plus 14 days
  (\<open>toISOString().split('T')[0]\<close>), which the backend reads as that day's midnight.\<close>

definition due_default :: "time \<Rightarrow> time" where
  "due_default today = ((today + 14 * ms_per_day) div ms_per_day) * ms_per_day"

text \<open>Lines 50--55.\<close>

definition isOverdue :: "time \<Rightarrow> loan_status \<Rightarrow> time \<Rightarrow> bool" where
  "isOverdue due st today = (if st = Returned then False else due < today)"

text \<open>Lines 121--133: a book or user column shows the populated fields, or a placeholder
  when the field is not a populated object (deleted, or a bare id).\<close>

fun row_book :: "cached_loan \<Rightarrow> string \<times> string" where
  "row_book (CView (_, _, Some (n, a), _)) = (n, a)"
| "row_book _ = (''Deleted Book'', ''-'')"

fun row_user :: "cached_loan \<Rightarrow> string \<times> string" where
  "row_user (CView (_, _, _, Some (n, e))) = (n, e)"
| "row_user _ = (''Deleted User'', ''-'')"

datatype badge = BadgeReturned | BadgeOverdue | BadgeIssued

text \<open>Lines 146--172.\<close>

definition row_badge :: "time \<Rightarrow> cached_loan \<Rightarrow> badge" where
  "row_badge today e =
     (let ib = cached_ib e
      in if status ib = Returned then BadgeReturned
         else if isOverdue (dueDate ib) (status ib) today then BadgeOverdue else BadgeIssued)"

text \<open>Line 176: \<open>(issue.fineAmount || 0) > 0 ? $fine : '-'\<close>.\<close>

definition row_fine :: "cached_loan \<Rightarrow> int option" where
  "row_fine e = (let f = fineAmount (cached_ib e) in if 0 < f then Some f else None)"

record issued_row =
  ir_id :: oid
  ir_book :: "string \<times> string"
  ir_user :: "(string \<times> string) option"
  ir_issueDate :: time
  ir_dueDate :: time
  ir_overdue :: bool
  ir_badge :: badge
  ir_fine :: "int option"
  ir_return :: bool

text \<open>Lines 112--191: one row per cached entry; the user column and the return action
  only for an admin, the action only on an \<open>Issued\<close> loan.\<close>

definition issued_row :: "bool \<Rightarrow> time \<Rightarrow> cached_loan \<Rightarrow> issued_row" where
  "issued_row isAdmin today e =
     (let ib = cached_ib e
      in \<lparr>ir_id = cached_id e, ir_book = row_book e,
          ir_user = (if isAdmin then Some (row_user e) else None),
          ir_issueDate = issueDate ib, ir_dueDate = dueDate ib,
          ir_overdue = isOverdue (dueDate ib) (status ib) today,
          ir_badge = row_badge today e, ir_fine = row_fine e,
          ir_return = (isAdmin \<and> status ib = Issued)\<rparr>)"

definition issued_rows :: "bool \<Rightarrow> time \<Rightarrow> cached_loan list \<Rightarrow> issued_row list" where
  "issued_rows isAdmin today cs = map (issued_row isAdmin today) cs"

text \<open>Lines 38--48: submitting the issue form and confirming a return.\<close>

definition issue_submit :: "ctx \<Rightarrow> principal option \<Rightarrow> time \<Rightarrow> oid \<Rightarrow> oid \<Rightarrow> time \<Rightarrow> ctx \<times> db \<Rightarrow> ctx \<times> db" where
  "issue_submit cl p now bid uid due s = ctx_issueBook cl p now bid uid (Some due) s"

definition handle_return :: "ctx \<Rightarrow> principal option \<Rightarrow> bool \<Rightarrow> time \<Rightarrow> oid \<Rightarrow> ctx \<times> db \<Rightarrow> ctx \<times> db" where
  "handle_return cl p confirmed now lid s = (if confirmed then ctx_returnBook cl p now lid s else s)"

subsection \<open>Dashboard\<close>

text \<open>Lines 12--15 (\<open>x || 0\<close> on a number is the number).\<close>

definition total_copies :: "book collection \<Rightarrow> int" where
  "total_copies bs = sum_list (map (\<lambda>(_, b). totalCopies b) bs)"

definition available_copies :: "book collection \<Rightarrow> int" where
  "available_copies bs = sum_list (map (\<lambda>(_, b). availableCopies b) bs)"

definition active_issues :: "cached_loan list \<Rightarrow> nat" where
  "active_issues cs = length (filter (\<lambda>e. status (cached_ib e) = Issued) cs)"

text \<open>Lines 19--29: a student's statistics, over the loans the server listed to them.\<close>

definition my_fines :: "cached_loan list \<Rightarrow> int" where
  "my_fines cs = sum_list (map (\<lambda>e. fineAmount (cached_ib e)) cs)"

definition due_soon_pred :: "time \<Rightarrow> cached_loan \<Rightarrow> bool" where
  "due_soon_pred today e =
     (let ib = cached_ib e
      in if status ib \<noteq> Issued then False
         else (let diffTime = dueDate ib - today;
                   diffDays = ceil_div diffTime ms_per_day
               in diffDays \<le> 3 \<and> diffDays \<ge> 0))"

definition due_soon :: "time \<Rightarrow> cached_loan list \<Rightarrow> nat" where
  "due_soon today cs = length (filter (due_soon_pred today) cs)"

datatype stat_value = StatNum int | StatMoney int

text \<open>Lines 31--89: the four cards.\<close>

definition dashboard_stats :: "bool \<Rightarrow> time \<Rightarrow> ctx \<Rightarrow> (string \<times> stat_value) list" where
  "dashboard_stats isAdmin today c =
     (if isAdmin then
        [(''Total Copies'', StatNum (total_copies (c_books c))),
         (''Available Copies'', StatNum (available_copies (c_books c))),
         (''Active Issues'', StatNum (int (active_issues (c_issued c)))),
         (''Total Users'', StatNum (int (length (c_users c))))]
      else
        [(''My Active Issues'', StatNum (int (active_issues (c_issued c)))),
         (''Due Soon'', StatNum (int (due_soon today (c_issued c)))),
         (''My Fines'', StatMoney (my_fines (c_issued c))),
         (''Available Books'', StatNum (available_copies (c_books c)))])"

text \<open>Lines 127--135: the five first entries, \<open>book?.name || 'Unknown Book'\<close>.\<close>

fun recent_book :: "cached_loan \<Rightarrow> string" where
  "recent_book (CView (_, _, Some (n, _), _)) = js_or_str n ''Unknown Book''"
| "recent_book _ = ''Unknown Book''"

definition recent_activity :: "cached_loan list \<Rightarrow> (string \<times> loan_status) list" where
  "recent_activity cs = map (\<lambda>e. (recent_book e, status (cached_ib e))) (take 5 cs)"

text \<open>Lines 160--161: \<open>Array.from(new Set(xs))\<close> keeps the first occurrence of each value.\<close>

definition js_set_list :: "'a list \<Rightarrow> 'a list" where
  "js_set_list xs = rev (remdups (rev xs))"

definition book_categories :: "book collection \<Rightarrow> (string \<times> nat) list" where
  "book_categories bs =
     map (\<lambda>cat. (cat, length (filter (\<lambda>(_, b). category b = cat) bs)))
       (js_set_list (map (\<lambda>(_, b). category b) bs))"

subsection \<open>Books page\<close>

record book_form =
  f_name :: string
  f_author :: string
  f_category :: string
  f_totalCopies :: int

text \<open>Lines 22--36: the form opened for a book being edited, or empty with one copy.\<close>

definition open_book_form :: "book option \<Rightarrow> book_form" where
  "open_book_form eb =
     (case eb of
        Some b \<Rightarrow> \<lparr>f_name = name b, f_author = author b, f_category = category b, f_totalCopies = totalCopies b\<rparr>
      | None \<Rightarrow> \<lparr>f_name = [], f_author = [], f_category = [], f_totalCopies = 1\<rparr>)"

text \<open>The browser submits only a form whose \<open>required\<close> fields are filled and whose
  \<open>totalCopies\<close> satisfies \<open>min="1"\<close> (lines 174--215).\<close>

definition book_form_valid :: "book_form \<Rightarrow> bool" where
  "book_form_valid f \<longleftrightarrow> f_name f \<noteq> [] \<and> f_author f \<noteq> [] \<and> f_category f \<noteq> [] \<and> 1 \<le> f_totalCopies f"

definition book_form_body :: "book_form \<Rightarrow> book_body" where
  "book_form_body f =
     \<lparr>body_name = f_name f, body_author = f_author f, body_category = f_category f,
      body_totalCopies = Some (f_totalCopies f)\<rparr>"

text \<open>Lines 44--52 (the \<open>availableCopies\<close> the page adds to the body is ignored by both
  handlers).\<close>

definition books_submit :: "ctx \<Rightarrow> principal option \<Rightarrow> oid option \<Rightarrow> book_form \<Rightarrow> ctx \<times> db \<Rightarrow> ctx \<times> db" where
  "books_submit cl p editing f s =
     (if \<not> book_form_valid f then s
      else case editing of
             Some k \<Rightarrow> ctx_updateBook cl p k (book_form_body f) s
           | None \<Rightarrow> ctx_addBook cl p (book_form_body f) s)"

definition handle_delete_book :: "ctx \<Rightarrow> principal option \<Rightarrow> bool \<Rightarrow> oid \<Rightarrow> ctx \<times> db \<Rightarrow> ctx \<times> db" where
  "handle_delete_book cl p confirmed k s = (if confirmed then ctx_deleteBook cl p k s else s)"

text \<open>Lines 120--133: the stock badge and the copies column.\<close>

definition book_row :: "oid \<times> book \<Rightarrow> string \<times> string \<times> string \<times> string \<times> int \<times> int" where
  "book_row kb =
     (let b = snd kb
      in (name b, author b, category b,
          if 0 < availableCopies b then ''Available'' else ''Out of Stock'',
          availableCopies b, totalCopies b))"

subsection \<open>Navigation\<close>

text \<open>The role string the frontend receives in \<open>user.role\<close>: the spec names the roles
  Admin and Student.\<close>

definition role_name :: "role \<Rightarrow> string" where
  "role_name r = (case r of Admin \<Rightarrow> ''Admin'' | Student \<Rightarrow> ''Student'')"

text \<open>\<open>Sidebar.tsx\<close> lines 13--25: the entries whose role list contains the user's role
  (\<open>''''\<close> when logged out).\<close>

definition sidebar_items :: "string option \<Rightarrow> (string \<times> string) list" where
  "sidebar_items r =
     (let rs = (case r of None \<Rightarrow> [] | Some s \<Rightarrow> s);
          items = [(''/'', ''Dashboard'', [''Admin'', ''User'']),
                   (''/books'', ''Books'', [''Admin'', ''User'']),
                   (''/users'', ''Users'', [''Admin'']),
                   (''/issued-books'', if r = Some ''Admin'' then ''Issued Books'' else ''My History'',
                     [''Admin'', ''User''])]
      in map (\<lambda>(path, label, _). (path, label)) (filter (\<lambda>(_, _, roles). rs \<in> set roles) items))"

datatype page = DashboardPage | BooksPage | UsersPage | IssuedBooksPage

datatype screen = Loading | RedirectTo string | Shown page

text \<open>\<open>App.tsx\<close> lines 12--24 with \<open>Users.tsx\<close> lines 17--19: the route guard, and the
  Users page's own redirect of a non-admin.\<close>

definition app_screen :: "bool \<Rightarrow> string option \<Rightarrow> page \<Rightarrow> screen" where
  "app_screen loading r pg =
     (if loading then Loading
      else if r = None then RedirectTo ''/login''
      else if pg = UsersPage \<and> r \<noteq> Some ''Admin'' then RedirectTo ''/''
      else Shown pg)"

subsection \<open>Users page\<close>

text \<open>\<open>Users.tsx\<close> line 83: the role badge.\<close>

definition user_role_label :: "string \<Rightarrow> string" where
  "user_role_label r = (if r = ''User'' then ''Student'' else ''Admin'')"

text \<open>Lines 60--93: one card per user with name, role badge and email; the delete button
  on every card but the viewer's own (\<open>user._id !== useAuth().user?._id\<close>).\<close>

definition user_cards :: "oid option \<Rightarrow> user collection \<Rightarrow> (oid \<times> string \<times> string \<times> string \<times> bool) list" where
  "user_cards self us =
     map (\<lambda>(k, u). (k, user_name u, user_role_label (role_name (role u)), email u, Some k \<noteq> self)) us"

text \<open>Lines 37--41.\<close>

definition handle_delete_user :: "ctx \<Rightarrow> principal option \<Rightarrow> bool \<Rightarrow> oid \<Rightarrow> ctx \<times> db \<Rightarrow> ctx \<times> db" where
  "handle_delete_user cl p confirmed k s = (if confirmed then ctx_deleteUser cl p k s else s)"

text \<open>A store with one copy of SICP out on loan, for the examples.\<close>

abbreviation loaned_store :: db where
  "loaned_store \<equiv> demo_store 1 [(1, demo_loan)] 2"

abbreviation loaned_ctx :: ctx where
  "loaned_ctx \<equiv> \<lparr>c_books = [(0, sicp 1)], c_users = [], c_issued = [CView (populate loaned_store (1, demo_loan))]\<rparr>"

subsection \<open>Lemmas on the pages\<close>

lemma length_filter_disj:
  "(\<And>x. \<not> (P x \<and> Q x)) \<Longrightarrow> length (filter (\<lambda>x. P x \<or> Q x) xs) = length (filter P xs) + length (filter Q xs)"
  by (induction xs) auto

lemma sum_outstanding:
  "distinct (map fst bs) \<Longrightarrow>
   sum_list (map (\<lambda>(k, _). int (outstanding ls k)) bs)
   = int (length (filter (\<lambda>(_, ib). bookId ib \<in> set (map fst bs) \<and> status ib = Issued) ls))"
proof (induction bs)
  case Nil
  then show ?case by simp
next
  case (Cons kb bs)
  obtain k b where kb: "kb = (k, b)" by (cases kb)
  have "length (filter (\<lambda>(_, ib). bookId ib \<in> set (map fst (kb # bs)) \<and> status ib = Issued) ls)
      = length (filter (\<lambda>x. (\<lambda>(_, ib). bookId ib = k \<and> status ib = Issued) x
                           \<or> (\<lambda>(_, ib). bookId ib \<in> set (map fst bs) \<and> status ib = Issued) x) ls)"
    by (auto simp: kb intro: arg_cong [where f = length] filter_cong)
  also have "\<dots> = outstanding ls k + length (filter (\<lambda>(_, ib). bookId ib \<in> set (map fst bs) \<and> status ib = Issued) ls)"
    using Cons.prems by (subst length_filter_disj) (auto simp: kb outstanding_def)
  finally show ?case using Cons by (simp add: kb)
qed

lemma balance_sum:
  assumes "ledger_inv d"
  shows "total_copies (books d) - available_copies (books d)
       = int (length (filter (\<lambda>(_, ib). bookId ib \<in> set (keys (books d)) \<and> status ib = Issued) (loans d)))"
proof -
  have dk: "distinct (keys (books d))" and bal: "copies_balanced d"
    using assms by (simp_all add: ledger_inv_def wf_db_def)
  have "total_copies (books d) - available_copies (books d)
      = sum_list (map (\<lambda>(_, b). totalCopies b - availableCopies b) (books d))"
    by (simp add: total_copies_def available_copies_def sum_list_subtractf case_prod_unfold)
  also have "\<dots> = sum_list (map (\<lambda>(k, _). int (outstanding (loans d) k)) (books d))"
    using bal by (intro arg_cong [where f = sum_list] map_cong) (auto simp: copies_balanced_def list_all_iff)
  finally show ?thesis using sum_outstanding [OF dk] by simp
qed

lemma active_issues_records:
  "active_issues cs = length (filter (\<lambda>(_, ib). status ib = Issued) (map cached_record cs))"
  by (simp add: active_issues_def cached_ib_def comp_def case_prod_unfold)

text \<open>C35.  The admin dashboard balances: when the cache agrees with the store, the
  ledger invariant holds and no loan on loan refers to a deleted book, ``Total Copies'' minus
  ``Available Copies'' is ``Active Issues''.  (A deleted book takes its copies out of both sums
  while its loans stay in the count, which is why the last hypothesis is needed.)\<close>

theorem dashboard_balance:
  assumes "principal_role u = Admin" and "cache_ok u c d" and "ledger_inv d"
    and "list_all (\<lambda>(_, ib). bookId ib \<in> set (keys (books d))) (filter (\<lambda>(_, ib). status ib = Issued) (loans d))"
  shows "total_copies (c_books c) - available_copies (c_books c) = int (active_issues (c_issued c))"
proof -
  have "filter (\<lambda>(_, ib). bookId ib \<in> set (keys (books d)) \<and> status ib = Issued) (loans d)
      = filter (\<lambda>(_, ib). status ib = Issued) (loans d)"
    using assms(4) by (intro filter_cong) (auto simp: list_all_iff)
  then show ?thesis
    using assms(1-3) balance_sum [OF assms(3)]
    by (simp add: cache_ok_def active_issues_records visible_loans_admin)
qed

lemma map_replace_member:
  assumes "e \<in> set (map (\<lambda>e. if cached_id e = lid then y else e) cs)" and "cached_id e = lid"
  shows "e = y"
proof -
  from assms(1) obtain x where "e = (if cached_id x = lid then y else x)"
    by (simp only: set_map image_iff) blast
  with assms(2) show ?thesis by (cases "cached_id x = lid") simp_all
qed

text \<open>C36.  After a successful return the cache holds the record the return route sends,
  with bare ids, so the row of the returned loan shows the placeholders ``Deleted Book'' and
  ``Deleted User'' although neither was deleted, until the list is fetched again.\<close>

theorem returned_row_placeholder:
  assumes "principal_role u = Admin" and "returnBook now lid d = Inr (r, d1)"
  shows "\<forall>e \<in> set (c_issued (fst (ctx_returnBook c (Some u) now lid (c, d)))).
           cached_id e = lid \<longrightarrow> row_book e = (''Deleted Book'', ''-'') \<and> row_user e = (''Deleted User'', ''-'')"
proof -
  have *: "c_issued (fst (ctx_returnBook c (Some u) now lid (c, d)))
      = map (\<lambda>e. if cached_id e = lid then CRaw lid r else e) (c_issued c)"
    using assms by (simp add: ctx_returnBook_def api_def route_def guard_admin_Some)
  show ?thesis
  proof (intro ballI impI)
    fix e
    assume "e \<in> set (c_issued (fst (ctx_returnBook c (Some u) now lid (c, d))))" and "cached_id e = lid"
    then have "e = CRaw lid r"
      unfolding * by (rule map_replace_member)
    then show "row_book e = (''Deleted Book'', ''-'') \<and> row_user e = (''Deleted User'', ''-'')" by simp
  qed
qed

text \<open>C37.  The form's default due date is midnight (UTC) of the day two weeks ahead, so a
  loan issued with it and returned exactly two weeks later, at the same time of day, is fined
  one day (5), unless it was issued at midnight.\<close>

theorem two_week_loan_fined:
  assumes "t mod ms_per_day \<noteq> 0"
  shows "fineAmount (return_update (t + 14 * ms_per_day) (new_issued_book b u t (due_default t))) = fine_per_day"
proof -
  let ?D = ms_per_day
  let ?due = "due_default t"
  have "?D \<noteq> 0" by (simp add: ms_per_day_def)
  then have q: "(t + 14 * ?D) div ?D = t div ?D + 14"
    by (simp add: div_mult_self1)
  have due: "?due = t div ?D * ?D + 14 * ?D"
    using q by (simp add: due_default_def algebra_simps)
  have "t mod ?D = t - t div ?D * ?D"
    by (simp add: minus_div_mult_eq_mod)
  with due have e: "t + 14 * ?D - ?due = t mod ?D"
    by linarith
  have "0 \<le> t mod ?D" by simp
  with assms have m1: "0 < t mod ?D"
    by (simp add: order_less_le)
  have m2: "t mod ?D < ?D"
    by (rule pos_mod_bound) simp
  note m = m1 m2
  have "ceil_div (t mod ?D) ?D = 1"
    using m1 less_imp_le [OF m2] by (intro ceil_div_unique) simp_all
  then have "late_fine ?due (t + 14 * ?D) = fine_per_day"
    using e m by (simp add: late_fine_def)
  moreover have "?due < t + 14 * ?D"
    using e m by linarith
  ultimately show ?thesis
    by (simp add: new_issued_book_def)
qed

text \<open>C38.  ``Due Soon'' counts the issued loans whose due date lies in the window from one
  day ago (exclusive) to three days ahead (inclusive): a loan overdue by less than a day is
  still ``due soon'', because \<open>Math.ceil\<close> of a small negative difference is 0.\<close>

theorem due_soon_window:
  "due_soon_pred today e \<longleftrightarrow>
     status (cached_ib e) = Issued \<and>
     today - ms_per_day < dueDate (cached_ib e) \<and> dueDate (cached_ib e) \<le> today + 3 * ms_per_day"
proof -
  let ?x = "dueDate (cached_ib e) - today"
  let ?n = "ceil_div ?x ms_per_day"
  have b: "(?n - 1) * ms_per_day < ?x" "?x \<le> ?n * ms_per_day"
    using ceil_div_bounds [OF ms_per_day_pos, of ?x] by auto
  have "?n \<le> 3 \<longleftrightarrow> ?x \<le> 3 * ms_per_day"
  proof
    assume "?n \<le> 3"
    then have "?n * ms_per_day \<le> 3 * ms_per_day" by (simp add: mult_right_mono)
    with b show "?x \<le> 3 * ms_per_day" by linarith
  next
    assume "?x \<le> 3 * ms_per_day"
    with b have "(?n - 1) * ms_per_day < 3 * ms_per_day" by linarith
    then show "?n \<le> 3" by (simp add: mult_less_cancel_right_pos)
  qed
  moreover have "0 \<le> ?n \<longleftrightarrow> - ms_per_day < ?x"
  proof
    assume "0 \<le> ?n"
    then have "0 \<le> ?n * ms_per_day"
      using less_imp_le [OF ms_per_day_pos] by (rule mult_nonneg_nonneg)
    with b show "- ms_per_day < ?x" by (simp add: algebra_simps)
  next
    assume "- ms_per_day < ?x"
    from \<open>- ms_per_day < ?x\<close> b have "-1 < ?n"
      using mult_less_cancel_right_pos [OF ms_per_day_pos, of "-1" ?n] by linarith
    then show "0 \<le> ?n" by simp
  qed
  ultimately show ?thesis
    by (auto simp: due_soon_pred_def Let_def)
qed

lemma sum_indicator_distinct:
  "distinct cs \<Longrightarrow> sum_list (map (\<lambda>c. if x = c then 1 else 0) cs) = (if x \<in> set cs then 1 else (0::nat))"
  by (induction cs) auto

lemma sum_counts:
  "distinct cs \<Longrightarrow> set (map f bs) \<subseteq> set cs \<Longrightarrow>
   sum_list (map (\<lambda>c. length (filter (\<lambda>x. f x = c) bs)) cs) = length bs"
proof (induction bs)
  case (Cons x bs)
  have "sum_list (map (\<lambda>c. length (filter (\<lambda>y. f y = c) (x # bs))) cs)
      = sum_list (map (\<lambda>c. (if f x = c then 1 else 0) + length (filter (\<lambda>y. f y = c) bs)) cs)"
    by (intro arg_cong [where f = sum_list] map_cong) simp_all
  also have "\<dots> = sum_list (map (\<lambda>c. if f x = c then 1 else 0) cs) + sum_list (map (\<lambda>c. length (filter (\<lambda>y. f y = c) bs)) cs)"
    by (rule sum_list_addf)
  also have "\<dots> = 1 + length bs"
    using Cons by (simp add: sum_indicator_distinct)
  finally show ?case by simp
qed simp

text \<open>The category panel lists each category once and its counts add up to the number
  of books.\<close>

theorem book_categories_count:
  "sum_list (map snd (book_categories bs)) = length bs \<and> distinct (map fst (book_categories bs))"
  using sum_counts [of "js_set_list (map (\<lambda>(_, b). category b) bs)" "\<lambda>(_, b). category b" bs]
  by (simp add: book_categories_def js_set_list_def comp_def case_prod_unfold)

lemma updateBook_unchanged:
  assumes "map_of (books d) k = Some b"
  shows "updateBook k (book_form_body (open_book_form (Some b))) d = Inr (b, d)"
proof -
  have "save_book k b d = d"
    using update_present_same [OF assms] by (simp add: save_book_def)
  then show ?thesis
    using assms by (simp add: updateBook_def book_form_body_def open_book_form_def js_or_str_def Let_def)
qed

text \<open>C39.  Round trip through the edit form: opening the form on a stored book and saving
  it unchanged sends a body that \<open>updateBook\<close> maps back to the same book, so neither the
  store nor the cache changes (when the form is valid, which a book with an empty field or
  fewer than one copy is not).\<close>

theorem edit_form_roundtrip:
  assumes "principal_role u = Admin" and "cache_ok u c d" and "wf_db d"
    and "map_of (books d) k = Some b" and "book_form_valid (open_book_form (Some b))"
  shows "books_submit c (Some u) (Some k) (open_book_form (Some b)) (c, d) = (c, d)"
proof -
  have "distinct (keys (books d))" using assms(3) by (simp add: wf_db_def)
  then have "map (\<lambda>(k', b'). if k' = k then (k, b) else (k', b')) (books d) = books d"
    by (rule map_replace_same [OF _ assms(4)])
  then show ?thesis
    using assms updateBook_unchanged [OF assms(4)]
    by (simp add: books_submit_def ctx_updateBook_def api_def route_def guard_admin_Some cache_ok_def)
qed

lemma available_cached_book:
  assumes "cache_ok u c d" and "wf_db d" and "(bid, b) \<in> set (availableBooks (c_books c))"
  shows "map_of (books d) bid = Some b \<and> 0 < availableCopies b"
proof -
  have dk: "distinct (keys (books d))" using assms(2) by (simp add: wf_db_def)
  from assms(1,3) have mem: "(bid, b) \<in> set (books d)" and av: "0 < availableCopies b"
    by (auto simp: availableBooks_def cache_ok_def)
  from map_of_is_SomeI [OF dk mem] av show ?thesis ..
qed

text \<open>C10.  The issue form composes with the cache and the handler: a book the form offers
  (\<open>availableBooks\<close> of the cached list) is one the server issues, when the cache agrees with
  the store, so \<open>BookNotAvailable\<close> cannot come from a form submission of an admin in step
  with the server; the cache gets the new loan and one copy fewer.\<close>

theorem issue_form_offers_issuable:
  assumes "principal_role u = Admin" and "cache_ok u c d" and "wf_db d"
    and "(bid, b) \<in> set (availableBooks (c_books c))"
  shows "\<exists>r d'. issueBook now bid uid (Some due) d = Inr (r, d') \<and>
    issue_submit c (Some u) now bid uid due (c, d) =
      (c\<lparr>c_issued := c_issued c @ [CView (populate d' r)], c_books := shift_available bid (-1) (c_books c)\<rparr>, d')"
proof -
  from available_cached_book [OF assms(2,3,4)] have bk: "map_of (books d) bid = Some b"
    and av: "0 < availableCopies b" by simp_all
  obtain r d' where ok: "issueBook now bid uid (Some due) d = Inr (r, d')"
    using bk av by (simp add: issueBook_def insert_loan_def Let_def)
  then show ?thesis
    using assms(1)
    by (auto simp: issue_submit_def ctx_issueBook_def api_def route_def guard_admin_Some)
qed

text \<open>C26.  A student's ``My Fines'' card composes the backend's filter, the cache and the
  dashboard: when the cache agrees with the store it shows the sum of the fines of the
  student's own loans in the store, returned loans included, and of no one else's.\<close>

theorem my_fines_own_loans:
  assumes "principal_role u \<noteq> Admin" and "cache_ok u c d"
  shows "my_fines (c_issued c) =
           sum_list (map (\<lambda>(_, ib). fineAmount ib) (filter (\<lambda>(_, ib). userId ib = principal_id u) (loans d)))"
proof -
  have "map cached_record (c_issued c) = filter (\<lambda>(_, ib). userId ib = principal_id u) (loans d)"
    using assms by (simp add: cache_ok_def visible_loans_def loan_query_def)
  then have "map (\<lambda>(_, ib). fineAmount ib) (map cached_record (c_issued c))
           = map (\<lambda>(_, ib). fineAmount ib) (filter (\<lambda>(_, ib). userId ib = principal_id u) (loans d))"
    by simp
  then show ?thesis
    by (simp add: my_fines_def cached_ib_def comp_def split_def)
qed

text \<open>The sidebar offers its entries to the role strings \<open>'Admin'\<close> and \<open>'User'\<close>
  only: a principal whose role is the spec's Student sees no navigation at all, while the
  frontend's \<open>'User'\<close> sees three entries; and the Users page labels a Student ``Admin''.\<close>

theorem sidebar_student_empty:
  "sidebar_items (Some (role_name Student)) = [] \<and> length (sidebar_items (Some ''User'')) = 3 \<and>
   user_role_label (role_name Student) = ''Admin''"
  by (simp add: sidebar_items_def role_name_def user_role_label_def)


lemma dashboard_balance_witness:
  "principal_role admin_p = Admin \<and> cache_ok admin_p loaned_ctx loaned_store \<and> ledger_inv loaned_store \<and>
   list_all (\<lambda>(_, ib). bookId ib \<in> set (keys (books loaned_store)))
     (filter (\<lambda>(_, ib). status ib = Issued) (loans loaned_store)) \<and>
   total_copies (c_books loaned_ctx) - available_copies (c_books loaned_ctx) = int (active_issues (c_issued loaned_ctx))"
  using dashboard_balance [of admin_p loaned_ctx loaned_store]
  by (simp add: cache_ok_def visible_loans_def loan_query_def populate_def loan_key_def ledger_inv_def
      wf_db_def copies_balanced_def copies_nonneg_def outstanding_def new_issued_book_def)

lemma returned_row_placeholder_witness:
  "principal_role admin_p = Admin \<and>
   returnBook 50 1 loaned_store = Inr (return_update 50 demo_loan,
     save_available 0 2 (save_loan 1 (return_update 50 demo_loan) loaned_store)) \<and>
   row_book (hd (c_issued (fst (ctx_returnBook loaned_ctx (Some admin_p) 50 1 (loaned_ctx, loaned_store)))))
     = (''Deleted Book'', ''-'')"
  using returned_row_placeholder [of admin_p 50 1 loaned_store "return_update 50 demo_loan"
      "save_available 0 2 (save_loan 1 (return_update 50 demo_loan) loaned_store)" loaned_ctx]
  by (simp add: returnBook_def save_loan_def Let_def new_issued_book_def ctx_returnBook_def api_def
      route_def guard_admin_Some cached_id_def loan_key_def populate_def)

lemma two_week_loan_fined_witness:
  "1 mod ms_per_day \<noteq> 0 \<and>
   fineAmount (return_update (1 + 14 * ms_per_day) (new_issued_book 0 7 1 (due_default 1))) = fine_per_day"
  using two_week_loan_fined [of 1 0 7] by (simp add: ms_per_day_def)
lemma edit_form_roundtrip_witness:
  "principal_role admin_p = Admin \<and> cache_ok admin_p synced_ctx users_store \<and> wf_db users_store \<and>
   map_of (books users_store) 0 = Some (sicp 2) \<and> book_form_valid (open_book_form (Some (sicp 2))) \<and>
   books_submit synced_ctx (Some admin_p) (Some 0) (open_book_form (Some (sicp 2))) (synced_ctx, users_store)
     = (synced_ctx, users_store)"
  using edit_form_roundtrip [of admin_p synced_ctx users_store 0 "sicp 2"]
  by (simp add: cache_ok_def visible_loans_def loan_query_def wf_db_def book_form_valid_def open_book_form_def)

lemma issue_form_offers_issuable_witness:
  "principal_role admin_p = Admin \<and> cache_ok admin_p synced_ctx users_store \<and> wf_db users_store \<and>
   (0, sicp 2) \<in> set (availableBooks (c_books synced_ctx)) \<and>
   (\<exists>r d'. issueBook 5 0 1 (Some 100) users_store = Inr (r, d'))"
  using issue_form_offers_issuable [of admin_p synced_ctx users_store 0 "sicp 2" 5 1 100]
  by (auto simp: cache_ok_def visible_loans_def loan_query_def wf_db_def availableBooks_def)

lemma my_fines_own_loans_witness:
  "principal_role \<lparr>principal_id = 7, principal_role = Student\<rparr> \<noteq> Admin \<and>
   cache_ok \<lparr>principal_id = 7, principal_role = Student\<rparr>
     \<lparr>c_books = [(0, sicp 2)], c_users = [], c_issued = [CRaw 1 (return_update (100 + 3 * ms_per_day) demo_loan)]\<rparr>
     (demo_store 2 [(1, return_update (100 + 3 * ms_per_day) demo_loan), (2, new_issued_book 0 8 0 100)] 3) \<and>
   my_fines [CRaw 1 (return_update (100 + 3 * ms_per_day) demo_loan)] = 15"
proof -
  have h1: "principal_role \<lparr>principal_id = 7, principal_role = Student\<rparr> \<noteq> Admin" by simp
  have h2: "cache_ok \<lparr>principal_id = 7, principal_role = Student\<rparr>
     \<lparr>c_books = [(0, sicp 2)], c_users = [], c_issued = [CRaw 1 (return_update (100 + 3 * ms_per_day) demo_loan)]\<rparr>
     (demo_store 2 [(1, return_update (100 + 3 * ms_per_day) demo_loan), (2, new_issued_book 0 8 0 100)] 3)"
    by (simp add: cache_ok_def visible_loans_def loan_query_def new_issued_book_def return_update_def Let_def)
  have "late_fine 100 (100 + 3 * ms_per_day) = 15"
    using ceil_div_multiple [of ms_per_day 3] by (simp add: late_fine_days abs_mult)
  then show ?thesis
    using h1 h2 my_fines_own_loans [OF h1 h2]
    by (simp add: new_issued_book_def return_update_def Let_def)
qed

end
