(* ===== verification/Shell.thy ===== *)
theory Shell
  imports Pages
begin

text \<open>
  The shell of the frontend as a state machine: the logged-in user of \<open>AuthContext\<close>
  (not among the sources; its \<open>login\<close>/\<open>logout\<close> set and clear the user, after the
  spec), the current path of the router, the mobile sidebar of \<open>components/Layout.tsx\<close>,
  the logout of \<open>components/Topbar.tsx\<close>, the route table of \<open>App.tsx\<close>, and the
  library cache of \<open>Client\<close> with the \<open>useEffect\<close> of \<open>LibraryContext.tsx\<close> that
  refetches after a render in which the user changed.  The modal dialogs of the Books,
  Issued Books and Users pages are state machines of their own.
\<close>

subsection \<open>Routing and session\<close>

datatype view = LoginView | RegisterView | PageView screen | NoMatch

text \<open>\<open>App.tsx\<close> lines 31--66: the two public routes, the four protected ones, and no
  element for any other path.\<close>

definition app_view :: "bool \<Rightarrow> string option \<Rightarrow> string \<Rightarrow> view" where
  "app_view loading r path =
     (if path = ''/login'' then LoginView
      else if path = ''/register'' then RegisterView
      else if path = ''/'' then PageView (app_screen loading r DashboardPage)
      else if path = ''/books'' then PageView (app_screen loading r BooksPage)
      else if path = ''/users'' then PageView (app_screen loading r UsersPage)
      else if path = ''/issued-books'' then PageView (app_screen loading r IssuedBooksPage)
      else NoMatch)"

record shell =
  sh_user :: "principal option"
  sh_path :: string
  sh_sidebar :: bool
  sh_effect :: bool
  sh_ctx :: ctx
  sh_db :: db

text \<open>\<open>Layout.tsx\<close> lines 7--35: the mobile sidebar opens on the menu button (line 31)
  and closes on the overlay (line 15) and through the sidebar's \<open>onClose\<close> (line 24).\<close>

datatype layout_event = MenuButton | OverlayClick | SidebarClose

definition layout_step :: "layout_event \<Rightarrow> bool \<Rightarrow> bool" where
  "layout_step ev isOpen = (case ev of MenuButton \<Rightarrow> True | OverlayClick \<Rightarrow> False | SidebarClose \<Rightarrow> False)"

text \<open>\<open>Sidebar.tsx\<close> lines 51--53: a link navigates and calls \<open>onClose\<close>.\<close>

definition nav_link :: "string \<Rightarrow> shell \<Rightarrow> shell" where
  "nav_link path s = s\<lparr>sh_path := path, sh_sidebar := layout_step SidebarClose (sh_sidebar s)\<rparr>"

text \<open>\<open>Topbar.tsx\<close> lines 9--12: \<open>logout()\<close> clears the user, then the router goes to
  the login page.  The cache of the library context is left as it is.\<close>

definition handleLogout :: "shell \<Rightarrow> shell" where
  "handleLogout s = s\<lparr>sh_user := None, sh_path := ''/login''\<rparr>"

text \<open>The login of \<open>AuthContext\<close> and the login page (not among the sources, after the
  spec): the user is set and the router goes to the dashboard.\<close>

definition auth_login :: "principal \<Rightarrow> shell \<Rightarrow> shell" where
  "auth_login p s = s\<lparr>sh_user := Some p, sh_path := ''/''\<rparr>"

text \<open>The events: logging in and out, the effect run after a render, a click on a sidebar
  link, the menu button and the overlay of the mobile layout, and a call of the library
  context from the page shown (\<open>Client.ctx_step\<close>).  A change of the user schedules the
  effect of \<open>LibraryContext.tsx\<close> lines 57--63, which runs after the next render.\<close>

datatype shell_event =
    LoginAs principal | Logout | RunEffects | GoTo string | OpenMenu | CloseOverlay | Act ctx_action

definition shell_step :: "shell_event \<Rightarrow> shell \<Rightarrow> shell" where
  "shell_step ev s =
     (case ev of
        LoginAs p \<Rightarrow> (auth_login p s)\<lparr>sh_effect := True\<rparr>
      | Logout \<Rightarrow> (handleLogout s)\<lparr>sh_effect := True\<rparr>
      | RunEffects \<Rightarrow>
          (if sh_effect s then
             (let (c, d) = ctx_login (sh_user s) (sh_ctx s, sh_db s)
              in s\<lparr>sh_ctx := c, sh_db := d, sh_effect := False\<rparr>)
           else s)
      | GoTo path \<Rightarrow> nav_link path s
      | OpenMenu \<Rightarrow> s\<lparr>sh_sidebar := layout_step MenuButton (sh_sidebar s)\<rparr>
      | CloseOverlay \<Rightarrow> s\<lparr>sh_sidebar := layout_step OverlayClick (sh_sidebar s)\<rparr>
      | Act a \<Rightarrow>
          (let (c, d) = ctx_step (sh_user s) a (sh_ctx s, sh_db s) in s\<lparr>sh_ctx := c, sh_db := d\<rparr>))"

definition shell_run :: "shell_event list \<Rightarrow> shell \<Rightarrow> shell" where
  "shell_run evs s = fold shell_step evs s"

text \<open>What the browser shows: the route's view for the user's role.\<close>

definition shell_view :: "shell \<Rightarrow> view" where
  "shell_view s = app_view False (map_option (role_name \<circ> principal_role) (sh_user s)) (sh_path s)"

definition shell_init :: "db \<Rightarrow> shell" where
  "shell_init d = \<lparr>sh_user = None, sh_path = ''/login'', sh_sidebar = False, sh_effect = False,
                   sh_ctx = empty_ctx, sh_db = d\<rparr>"

text \<open>The session invariant: the store is well formed, and unless a refetch is pending the
  cache of a logged-in user agrees with the store.\<close>

definition shell_ok :: "shell \<Rightarrow> bool" where
  "shell_ok s \<longleftrightarrow> wf_db (sh_db s) \<and>
     (sh_effect s \<or> (case sh_user s of None \<Rightarrow> True | Some u \<Rightarrow> cache_ok u (sh_ctx s) (sh_db s)))"

subsection \<open>Modal dialogs\<close>

text \<open>\<open>Books.tsx\<close> lines 11--42 and 166--217: the dialog, the book being edited and the
  form; a number field reads \<open>parseInt(value) || 0\<close> (\<open>None\<close>: not a number).\<close>

record books_modal =
  bm_open :: bool
  bm_editing :: "(oid \<times> book) option"
  bm_form :: book_form

definition empty_book_form :: book_form where
  "empty_book_form = open_book_form None"

definition books_modal_open :: "(oid \<times> book) option \<Rightarrow> books_modal" where
  "books_modal_open eb = \<lparr>bm_open = True, bm_editing = eb, bm_form = open_book_form (map_option snd eb)\<rparr>"

definition books_modal_close :: books_modal where
  "books_modal_close = \<lparr>bm_open = False, bm_editing = None, bm_form = empty_book_form\<rparr>"

definition parse_copies :: "int option \<Rightarrow> int" where
  "parse_copies v = (case v of None \<Rightarrow> 0 | Some n \<Rightarrow> n)"

datatype book_field = FName string | FAuthor string | FCategory string | FTotal "int option"

definition books_modal_edit :: "book_field \<Rightarrow> books_modal \<Rightarrow> books_modal" where
  "books_modal_edit fld m =
     (let f = bm_form m
      in m\<lparr>bm_form := (case fld of
                          FName v \<Rightarrow> f\<lparr>f_name := v\<rparr>
                        | FAuthor v \<Rightarrow> f\<lparr>f_author := v\<rparr>
                        | FCategory v \<Rightarrow> f\<lparr>f_category := v\<rparr>
                        | FTotal v \<Rightarrow> f\<lparr>f_totalCopies := parse_copies v\<rparr>)\<rparr>)"

text \<open>Lines 44--52: submit, then close; a form the browser rejects is not submitted and
  the dialog stays open.\<close>

definition books_modal_submit ::
  "ctx \<Rightarrow> principal option \<Rightarrow> books_modal \<Rightarrow> ctx \<times> db \<Rightarrow> books_modal \<times> (ctx \<times> db)" where
  "books_modal_submit cl p m s =
     (if \<not> book_form_valid (bm_form m) then (m, s)
      else (books_modal_close, books_submit cl p (map_option fst (bm_editing m)) (bm_form m) s))"

text \<open>\<open>IssuedBooks.tsx\<close> lines 10--42 and 199--273: the dialog and its three required
  fields; the selects offer the available books and the users of the cache.\<close>

record issue_modal =
  im_open :: bool
  im_book :: "oid option"
  im_user :: "oid option"
  im_due :: "time option"

definition issue_modal_open :: "time \<Rightarrow> issue_modal" where
  "issue_modal_open today = \<lparr>im_open = True, im_book = None, im_user = None, im_due = Some (due_default today)\<rparr>"

definition issue_modal_close :: issue_modal where
  "issue_modal_close = \<lparr>im_open = False, im_book = None, im_user = None, im_due = None\<rparr>"

definition issue_options :: "ctx \<Rightarrow> oid list \<times> oid list" where
  "issue_options c = (map fst (availableBooks (c_books c)), map fst (c_users c))"

datatype issue_field = SelectBook oid | SelectUser oid | SetDue "time option"

text \<open>A select takes only one of its options.\<close>

definition issue_modal_edit :: "ctx \<Rightarrow> issue_field \<Rightarrow> issue_modal \<Rightarrow> issue_modal" where
  "issue_modal_edit c fld m =
     (case fld of
        SelectBook k \<Rightarrow> (if k \<in> set (fst (issue_options c)) then m\<lparr>im_book := Some k\<rparr> else m)
      | SelectUser k \<Rightarrow> (if k \<in> set (snd (issue_options c)) then m\<lparr>im_user := Some k\<rparr> else m)
      | SetDue v \<Rightarrow> m\<lparr>im_due := v\<rparr>)"

definition issue_modal_submit ::
  "ctx \<Rightarrow> principal option \<Rightarrow> time \<Rightarrow> issue_modal \<Rightarrow> ctx \<times> db \<Rightarrow> issue_modal \<times> (ctx \<times> db)" where
  "issue_modal_submit cl p now m s =
     (case (im_book m, im_user m, im_due m) of
        (Some bid, Some uid, Some due) \<Rightarrow> (issue_modal_close, issue_submit cl p now bid uid due s)
      | _ \<Rightarrow> (m, s))"

text \<open>\<open>Users.tsx\<close> lines 11--35 and 98--135: the add-user dialog with its two required
  fields.\<close>

record users_modal =
  um_open :: bool
  um_name :: string
  um_email :: string

definition users_modal_open :: users_modal where
  "users_modal_open = \<lparr>um_open = True, um_name = [], um_email = []\<rparr>"

definition users_modal_close :: users_modal where
  "users_modal_close = \<lparr>um_open = False, um_name = [], um_email = []\<rparr>"

text \<open>Lines 104--121: the two inputs.\<close>

datatype user_field = UName string | UEmail string

definition users_modal_edit :: "user_field \<Rightarrow> users_modal \<Rightarrow> users_modal" where
  "users_modal_edit fld m = (case fld of UName v \<Rightarrow> m\<lparr>um_name := v\<rparr> | UEmail v \<Rightarrow> m\<lparr>um_email := v\<rparr>)"

abbreviation relogin :: "shell_event list" where
  "relogin \<equiv> [LoginAs admin_p, RunEffects, Logout, LoginAs student_p]"

subsection \<open>The session\<close>

lemma ctx_login_None [simp]: "ctx_login None s = s"
  by (simp add: ctx_login_def)

lemma shell_step_ok:
  assumes "shell_ok s"
  shows "shell_ok (shell_step ev s)"
proof (cases ev)
  case RunEffects
  show ?thesis
  proof (cases "sh_effect s")
    case True
    show ?thesis
    proof (cases "sh_user s")
      case None
      with assms True RunEffects show ?thesis by (simp add: shell_step_def shell_ok_def)
    next
      case (Some u)
      with assms True RunEffects ctx_login_cache_ok [of u "(sh_ctx s, sh_db s)"] show ?thesis
        by (auto simp: shell_step_def shell_ok_def split: prod.splits)
    qed
  qed (use assms RunEffects in \<open>simp add: shell_step_def\<close>)
next
  case (Act a)
  obtain c d where st: "ctx_step (sh_user s) a (sh_ctx s, sh_db s) = (c, d)" by fastforce
  have wf: "wf_db d"
    using ctx_call_keeps_wf [of "(sh_ctx s, sh_db s)" "sh_ctx s" "sh_user s" a] assms st
    by (simp add: ctx_step_def shell_ok_def)
  have "sh_effect s \<or> (case sh_user s of None \<Rightarrow> True | Some u \<Rightarrow> cache_ok u c d)"
  proof (cases "sh_user s")
    case (Some u)
    then show ?thesis
      using assms st ctx_step_cache_ok [of "sh_db s" u "sh_ctx s" a c d] by (auto simp: shell_ok_def)
  qed simp
  with wf st Act show ?thesis by (auto simp: shell_step_def shell_ok_def split: option.splits)
qed (use assms in \<open>auto simp: shell_step_def shell_ok_def auth_login_def handleLogout_def nav_link_def
    split: option.splits\<close>)

lemma shell_run_ok: "shell_ok s \<Longrightarrow> shell_ok (shell_run evs s)"
  by (induction evs arbitrary: s) (simp_all add: shell_run_def shell_step_ok)

text \<open>C8.  The session invariant of the frontend: from a well-formed store and the logged
  out start, after any sequence of logins, logouts, navigations and calls of the library
  context, the store is well formed and, whenever no refetch is pending, the cache of the
  logged-in user agrees with the store.  (While a refetch is pending it need not: see
  \<open>shell_stale_after_relogin\<close>.)\<close>

theorem shell_session_in_sync:
  assumes "wf_db d"
  shows "shell_ok (shell_run evs (shell_init d))"
  using assms by (intro shell_run_ok) (simp add: shell_ok_def shell_init_def)

text \<open>The first render after a student logs in where an admin was logged in before shows
  the admin's cache: \<open>LibraryContext\<close> keeps its lists on logout and only refetches in the
  effect after that render, so the student's dashboard counts another user's loan.\<close>

lemma shell_stale_after_relogin:
  "shell_view (shell_run relogin (shell_init loaned_store)) = PageView (Shown DashboardPage) \<and>
   map cached_record (c_issued (sh_ctx (shell_run relogin (shell_init loaned_store)))) = [(1, demo_loan)] \<and>
   visible_loans student_p loaned_store = [] \<and>
   dashboard_stats False 0 (sh_ctx (shell_run relogin (shell_init loaned_store))) ! 0
     = (''My Active Issues'', StatNum 1)"
  by (simp add: shell_run_def shell_step_def auth_login_def handleLogout_def shell_view_def shell_init_def app_view_def app_screen_def
      role_name_def ctx_login_def ctx_fetchBooks_def ctx_fetchUsers_def ctx_fetchIssuedBooks_def
      api_def route_def getBooks_def getUsers_def getIssuedBooks_def loan_query_def populate_def
      loan_key_def visible_loans_def dashboard_stats_def active_issues_def cached_ib_def
      new_issued_book_def empty_ctx_def)


lemma issue_modal_edit_offered:
  "set_option (im_book m) \<subseteq> set (fst (issue_options c)) \<Longrightarrow>
   set_option (im_book (fold (issue_modal_edit c) fs m)) \<subseteq> set (fst (issue_options c))"
  by (induction fs arbitrary: m) (auto simp: issue_modal_edit_def split: issue_field.splits)

text \<open>C25.  The issue dialog never sends a request the server rejects: opened by an admin
  whose cache agrees with the store and edited in any way, its submit either keeps the
  dialog open and changes nothing (a field is missing) or closes it with one more loan
  recorded on the server and the cache still in step with the store.\<close>

theorem issue_dialog_never_rejected:
  assumes adm: "principal_role u = Admin" and ok: "cache_ok u c d" and wf: "wf_db d"
    and sub: "issue_modal_submit c (Some u) now (fold (issue_modal_edit c) fs (issue_modal_open today)) (c, d)
              = (m', (c', d'))"
  shows "(m' = fold (issue_modal_edit c) fs (issue_modal_open today) \<and> c' = c \<and> d' = d)
       \<or> (m' = issue_modal_close \<and> length (loans d') = Suc (length (loans d)) \<and> cache_ok u c' d')"
proof -
  define m where "m = fold (issue_modal_edit c) fs (issue_modal_open today)"
  have inv: "set_option (im_book m) \<subseteq> set (fst (issue_options c))"
    unfolding m_def by (rule issue_modal_edit_offered) (simp add: issue_modal_open_def)
  show ?thesis
  proof (cases "\<exists>bid uid due. im_book m = Some bid \<and> im_user m = Some uid \<and> im_due m = Some due")
    case True
    then obtain bid uid due where f: "im_book m = Some bid" "im_user m = Some uid" "im_due m = Some due"
      by blast
    from inv f obtain b where "(bid, b) \<in> set (availableBooks (c_books c))"
      by (auto simp: issue_options_def)
    from available_cached_book [OF ok wf this] have bk: "map_of (books d) bid = Some b"
      and av: "0 < availableCopies b" by simp_all
    have s': "(c', d') = ctx_issueBook c (Some u) now bid uid (Some due) (c, d)" and m': "m' = issue_modal_close"
      using sub f by (simp_all add: m_def [symmetric] issue_modal_submit_def issue_submit_def)
    have "length (loans d') = Suc (length (loans d))"
      using s' adm bk av
      by (simp add: ctx_issueBook_def api_def route_def guard_admin_Some issueBook_def insert_loan_def Let_def)
    moreover have "cache_ok u c' d'"
      using ctx_issueBook_ok [OF ok wf s' [symmetric]] .
    ultimately show ?thesis using m' by simp
  next
    case False
    then have "issue_modal_submit c (Some u) now m (c, d) = (m, (c, d))"
      by (auto simp: issue_modal_submit_def split: option.splits)
    with sub show ?thesis by (simp add: m_def)
  qed
qed


theorem issue_dialog_never_rejected_witness:
  "\<exists>c' d'. issue_modal_submit synced_ctx (Some admin_p) 5 (fold (issue_modal_edit synced_ctx) [SelectBook 0, SelectUser 1] (issue_modal_open 0)) (synced_ctx, users_store)
     = (issue_modal_close, (c', d')) \<and> length (loans d') = 1 \<and> cache_ok admin_p c' d'"
proof -
  obtain m' c' d' where sub: "issue_modal_submit synced_ctx (Some admin_p) 5 (fold (issue_modal_edit synced_ctx) [SelectBook 0, SelectUser 1] (issue_modal_open 0)) (synced_ctx, users_store)
     = (m', (c', d'))"
    by (metis prod.exhaust)
  have h1: "principal_role admin_p = Admin" by simp
  have h2: "cache_ok admin_p synced_ctx users_store" by (simp add: cache_ok_def visible_loans_def)
  have h3: "wf_db users_store" by (simp add: wf_db_def)
  have m': "m' = issue_modal_close"
    using sub by (simp add: issue_modal_submit_def issue_modal_open_def issue_modal_edit_def issue_options_def
        availableBooks_def)
  have "issue_modal_close \<noteq> (fold (issue_modal_edit synced_ctx) [SelectBook 0, SelectUser 1] (issue_modal_open 0))"
    by (simp add: issue_modal_close_def issue_modal_open_def issue_modal_edit_def issue_options_def availableBooks_def)
  with issue_dialog_never_rejected [OF h1 h2 h3 sub] m' have "length (loans d') = 1 \<and> cache_ok admin_p c' d'"
    by simp
  with sub m' show ?thesis by blast
qed

theorem shell_session_in_sync_witness:
  "wf_db loaned_store \<and> shell_ok (shell_run (relogin @ [RunEffects]) (shell_init loaned_store)) \<and>
   sh_user (shell_run (relogin @ [RunEffects]) (shell_init loaned_store)) = Some student_p \<and>
   \<not> sh_effect (shell_run (relogin @ [RunEffects]) (shell_init loaned_store))"
  using shell_session_in_sync [of loaned_store "relogin @ [RunEffects]"]
  by (simp add: wf_db_def new_issued_book_def shell_run_def shell_step_def auth_login_def handleLogout_def
      shell_init_def split: prod.splits)

end
