(* ===== verification/Views.thy ===== *)
theory Views
  imports Shell
begin

text \<open>
  What the frame and the pages of \<open>frontend/src\<close> render, as data: the titles and columns
  that depend on the role, the buttons (\<open>control\<close>) each page offers and the dialog it
  shows, the sidebar with its active link, the topbar and the mobile layout.  The buttons
  are then composed with the session of \<open>Shell\<close> and the route tables of \<open>Routes\<close>: what
  a page offers is what the server lets the viewer do, and the one-click buttons of a cache
  in step with the store succeed.  The \<open>Modal\<close> component is not among the sources; its
  children are taken to be shown exactly when \<open>isOpen\<close> holds.
\<close>

subsection \<open>Controls\<close>

text \<open>The buttons that lead to a request: the add, edit and delete buttons of
  \<open>Books.tsx\<close>, the issue and return buttons of \<open>IssuedBooks.tsx\<close>, the add and delete
  buttons of \<open>Users.tsx\<close>.\<close>

datatype control =
    AddBookBtn | EditBookBtn oid | DeleteBookBtn oid
  | IssueBookBtn | ReturnBtn oid
  | AddUserBtn | DeleteUserBtn oid

text \<open>The requests a button can lead to: the one its click sends after the confirm dialog
  (\<open>handleDelete\<close>, \<open>handleReturn\<close>), or the one the submit of the dialog it opens sends
  (\<open>books_modal_submit\<close>, \<open>issue_modal_submit\<close>, \<open>users_modal_submit\<close>), whatever is
  typed into the form.\<close>

fun control_sends :: "control \<Rightarrow> http_request \<Rightarrow> bool" where
  "control_sends AddBookBtn r = (case r of PostBook _ \<Rightarrow> True | _ \<Rightarrow> False)"
| "control_sends (EditBookBtn k) r = (case r of PutBook k' _ \<Rightarrow> k' = k | _ \<Rightarrow> False)"
| "control_sends (DeleteBookBtn k) r = (r = DeleteBook k)"
| "control_sends IssueBookBtn r = (case r of PostIssuedBook _ _ _ _ \<Rightarrow> True | _ \<Rightarrow> False)"
| "control_sends (ReturnBtn k) r = (case r of PutReturn _ k' \<Rightarrow> k' = k | _ \<Rightarrow> False)"
| "control_sends AddUserBtn r = (case r of PostRegister _ \<Rightarrow> True | _ \<Rightarrow> False)"
| "control_sends (DeleteUserBtn k) r = (r = DeleteUser k)"

text \<open>The buttons whose request carries no form: delete a book, return a loan, delete a
  user.\<close>

definition one_click :: "control \<Rightarrow> bool" where
  "one_click c = (case c of DeleteBookBtn _ \<Rightarrow> True | ReturnBtn _ \<Rightarrow> True | DeleteUserBtn _ \<Rightarrow> True | _ \<Rightarrow> False)"

text \<open>\<open>const isAdmin = user?.role === 'Admin'\<close> (\<open>Books.tsx\<close> line 20, and alike in
  \<open>IssuedBooks.tsx\<close> and \<open>Dashboard.tsx\<close>).\<close>

definition is_admin :: "principal option \<Rightarrow> bool" where
  "is_admin u = (map_option (role_name \<circ> principal_role) u = Some ''Admin'')"

subsection \<open>Books page\<close>

text \<open>\<open>Books.tsx\<close> lines 69--77 and 135--152: the add button, and the edit and delete
  buttons of every row, for an admin only.\<close>

definition books_controls :: "bool \<Rightarrow> book collection \<Rightarrow> control list" where
  "books_controls isAdmin bs =
     (if isAdmin then AddBookBtn # concat (map (\<lambda>(k, _). [EditBookBtn k, DeleteBookBtn k]) bs) else [])"

record books_view =
  bv_subtitle :: string
  bv_columns :: "string list"
  bv_rows :: "(string \<times> string \<times> string \<times> string \<times> int \<times> int) list"
  bv_controls :: "control list"
  bv_dialog :: "(string \<times> book_form \<times> string) option"

text \<open>Lines 60--239: the subtitle, the columns (Actions for an admin), one row per book,
  and for an admin the dialog when open, titled and labelled by whether a book is being
  edited.\<close>

definition books_view :: "bool \<Rightarrow> book collection \<Rightarrow> books_modal \<Rightarrow> books_view" where
  "books_view isAdmin bs m =
     \<lparr>bv_subtitle = (if isAdmin then ''Manage your library collection'' else ''Browse library collection''),
      bv_columns = [''Book Name'', ''Author'', ''Category'', ''Status'', ''Copies''] @
                   (if isAdmin then [''Actions''] else []),
      bv_rows = map book_row bs,
      bv_controls = books_controls isAdmin bs,
      bv_dialog = (if isAdmin \<and> bm_open m
                   then Some (if bm_editing m = None then ''Add New Book'' else ''Edit Book'', bm_form m,
                              (if bm_editing m = None then ''Add'' else ''Update'') @ '' Book'')
                   else None)\<rparr>"

subsection \<open>Issued books page\<close>

text \<open>\<open>IssuedBooks.tsx\<close> lines 68--76 and 179--193: the issue button for an admin, and a
  return button on each row whose action cell offers one.\<close>

definition issued_controls :: "bool \<Rightarrow> issued_row list \<Rightarrow> control list" where
  "issued_controls isAdmin rows =
     (if isAdmin then [IssueBookBtn] else []) @ map (\<lambda>r. ReturnBtn (ir_id r)) (filter ir_return rows)"

record issued_view =
  iv_title :: string
  iv_subtitle :: string
  iv_columns :: "string list"
  iv_rows :: "issued_row list"
  iv_controls :: "control list"
  iv_dialog :: "(issue_modal \<times> oid list \<times> oid list) option"

text \<open>Lines 57--275: the headings by role, the User and Actions columns for an admin, the
  rows, and for an admin the issue dialog when open, with the options of its two
  selects.\<close>

definition issued_view :: "bool \<Rightarrow> time \<Rightarrow> ctx \<Rightarrow> issue_modal \<Rightarrow> issued_view" where
  "issued_view isAdmin today c m =
     (let rows = issued_rows isAdmin today (c_issued c)
      in \<lparr>iv_title = (if isAdmin then ''Issued Books'' else ''My History''),
          iv_subtitle = (if isAdmin then ''Track book issues and returns'' else ''View your borrowing history''),
          iv_columns = [''Book Name''] @ (if isAdmin then [''User''] else []) @
                       [''Issue Date'', ''Due Date'', ''Status'', ''Fine''] @
                       (if isAdmin then [''Actions''] else []),
          iv_rows = rows,
          iv_controls = issued_controls isAdmin rows,
          iv_dialog = (if isAdmin \<and> im_open m then Some (m, issue_options c) else None)\<rparr>)"

subsection \<open>Users page\<close>

text \<open>\<open>Users.tsx\<close> lines 50--73: the add button, and the delete button of every card that
  offers one (all but the viewer's own).\<close>

definition users_controls :: "(oid \<times> string \<times> string \<times> string \<times> bool) list \<Rightarrow> control list" where
  "users_controls cards = AddUserBtn # map (\<lambda>(k, _). DeleteUserBtn k) (filter (\<lambda>(_, _, _, _, del). del) cards)"

record users_view =
  uv_cards :: "(oid \<times> string \<times> string \<times> string \<times> bool) list"
  uv_controls :: "control list"
  uv_dialog :: "users_modal option"

text \<open>Lines 43--143, reached by an admin only (lines 17--19).\<close>

definition users_view :: "oid option \<Rightarrow> user collection \<Rightarrow> users_modal \<Rightarrow> users_view" where
  "users_view self us m =
     (let cards = user_cards self us
      in \<lparr>uv_cards = cards, uv_controls = users_controls cards,
          uv_dialog = (if um_open m then Some m else None)\<rparr>)"

text \<open>Lines 31--35: both fields are \<open>required\<close>, and they are the whole body of the
  request; the role of the new user is whatever the register handler (not among the
  sources) gives it, a parameter here.\<close>

definition users_modal_submit ::
  "role \<Rightarrow> ctx \<Rightarrow> principal option \<Rightarrow> users_modal \<Rightarrow> ctx \<times> db \<Rightarrow> users_modal \<times> (ctx \<times> db)" where
  "users_modal_submit r cl p m s =
     (if um_name m = [] \<or> um_email m = [] then (m, s)
      else (users_modal_close, ctx_addUser cl p \<lparr>user_name = um_name m, email = um_email m, role = r\<rparr> s))"

subsection \<open>Dashboard\<close>

text \<open>\<open>Dashboard.tsx\<close> lines 134--139: the second line of an activity entry, \<open>Issued to\<close>
  the user's name (\<open>issueUser?.name || 'Unknown User'\<close>) for an admin, the due date for a
  student.\<close>

fun recent_user :: "cached_loan \<Rightarrow> string" where
  "recent_user (CView (_, _, _, Some (n, _))) = js_or_str n ''Unknown User''"
| "recent_user _ = ''Unknown User''"

definition recent_detail :: "bool \<Rightarrow> cached_loan \<Rightarrow> string + time" where
  "recent_detail isAdmin e = (if isAdmin then Inl (''Issued to '' @ recent_user e) else Inr (dueDate (cached_ib e)))"

record dashboard_view =
  dv_title :: string
  dv_subtitle :: string
  dv_stats :: "(string \<times> stat_value) list"
  dv_activity_title :: string
  dv_activity :: "((string \<times> loan_status) \<times> (string + time)) list"
  dv_no_activity :: bool
  dv_categories :: "(string \<times> nat) list"

text \<open>Lines 91--173.\<close>

definition dashboard_view :: "bool \<Rightarrow> time \<Rightarrow> ctx \<Rightarrow> dashboard_view" where
  "dashboard_view isAdmin today c =
     \<lparr>dv_title = (if isAdmin then ''Admin Dashboard'' else ''My Dashboard''),
      dv_subtitle = (if isAdmin then ''Overview of library statistics'' else ''Welcome back to your library portal''),
      dv_stats = dashboard_stats isAdmin today c,
      dv_activity_title = (if isAdmin then ''Recent Activity'' else ''My Recent Activity''),
      dv_activity = zip (recent_activity (c_issued c)) (map (recent_detail isAdmin) (take 5 (c_issued c))),
      dv_no_activity = (c_issued c = []),
      dv_categories = book_categories (c_books c)\<rparr>"

subsection \<open>Frame\<close>

record sidebar_view =
  sv_title :: string
  sv_close :: bool
  sv_links :: "(string \<times> string \<times> bool) list"

text \<open>\<open>Sidebar.tsx\<close> lines 27--75: the heading by role, the close button when an
  \<open>onClose\<close> is passed, and the entries with the one of the current path highlighted.\<close>

definition sidebar_view :: "string option \<Rightarrow> bool \<Rightarrow> string \<Rightarrow> sidebar_view" where
  "sidebar_view r closable path =
     \<lparr>sv_title = (if r = Some ''Admin'' then ''Library Admin'' else ''Student Portal''),
      sv_close = closable,
      sv_links = map (\<lambda>(p, l). (p, l, path = p)) (sidebar_items r)\<rparr>"

text \<open>\<open>Topbar.tsx\<close> lines 14--51: the name and email of the logged-in user, with
  \<open>|| 'User'\<close> and \<open>|| 'email@example.com'\<close> for a missing or empty field.  The search
  box has no handler and the bell no action.\<close>

definition topbar_view :: "user option \<Rightarrow> string \<times> string" where
  "topbar_view u =
     (case u of
        None \<Rightarrow> (''User'', ''email@example.com'')
      | Some v \<Rightarrow> (js_or_str (user_name v) ''User'', js_or_str (email v) ''email@example.com''))"

record layout_view =
  lv_overlay :: bool
  lv_sidebar_in :: bool
  lv_sidebar :: sidebar_view

text \<open>\<open>Layout.tsx\<close> lines 9--48, at mobile width: the overlay and the slid-in sidebar
  while \<open>isSidebarOpen\<close>; the sidebar always gets an \<open>onClose\<close> (line 24).\<close>

definition layout_view :: "string option \<Rightarrow> string \<Rightarrow> bool \<Rightarrow> layout_view" where
  "layout_view r path isOpen = \<lparr>lv_overlay = isOpen, lv_sidebar_in = isOpen, lv_sidebar = sidebar_view r True path\<rparr>"

subsection \<open>The buttons of the session\<close>

text \<open>The buttons the page of a route offers to a viewer.\<close>

definition page_controls :: "principal option \<Rightarrow> time \<Rightarrow> ctx \<Rightarrow> page \<Rightarrow> control list" where
  "page_controls u today c pg =
     (case pg of
        DashboardPage \<Rightarrow> []
      | BooksPage \<Rightarrow> books_controls (is_admin u) (c_books c)
      | UsersPage \<Rightarrow> users_controls (user_cards (map_option principal_id u) (c_users c))
      | IssuedBooksPage \<Rightarrow> issued_controls (is_admin u) (issued_rows (is_admin u) today (c_issued c)))"

text \<open>The buttons on the screen of a session: those of the page its path shows, none on
  the login, register, loading and redirect screens.\<close>

definition shell_controls :: "time \<Rightarrow> shell \<Rightarrow> control list" where
  "shell_controls today s =
     (case shell_view s of PageView (Shown pg) \<Rightarrow> page_controls (sh_user s) today (sh_ctx s) pg | _ \<Rightarrow> [])"

text \<open>The admin on the Books page, for the examples.\<close>

abbreviation admin_books :: shell where
  "admin_books \<equiv> \<lparr>sh_user = Some admin_p, sh_path = ''/books'', sh_sidebar = False, sh_effect = False,
                   sh_ctx = synced_ctx, sh_db = users_store\<rparr>"

subsection \<open>Lemmas on the views\<close>

lemma role_name_Admin [simp]: "role_name r = ''Admin'' \<longleftrightarrow> r = Admin"
  by (cases r) (simp_all add: role_name_def)

lemma is_admin_Some [simp]: "is_admin (Some u) \<longleftrightarrow> principal_role u = Admin"
  by (simp add: is_admin_def)

lemma issued_controls_admin:
  "c \<in> set (issued_controls isAdmin (issued_rows isAdmin today cs)) \<Longrightarrow> isAdmin"
  by (auto simp: issued_controls_def issued_rows_def issued_row_def Let_def)

lemma shell_controls_page:
  assumes "c \<in> set (shell_controls today s)"
  obtains u pg where "sh_user s = Some u" and "c \<in> set (page_controls (Some u) today (sh_ctx s) pg)"
    and "pg = UsersPage \<Longrightarrow> principal_role u = Admin"
  using assms
  by (cases "sh_user s")
     (auto simp: shell_controls_def shell_view_def app_view_def app_screen_def split: if_splits)

lemma page_controls_admin:
  "c \<in> set (page_controls (Some u) today cl pg) \<Longrightarrow> (pg = UsersPage \<Longrightarrow> principal_role u = Admin) \<Longrightarrow>
   principal_role u = Admin"
  by (cases pg) (auto simp: page_controls_def books_controls_def dest: issued_controls_admin split: if_splits)

lemma control_sends_no_login: "control_sends c req \<Longrightarrow> req \<noteq> PostLogin k"
  by (cases c) (auto split: http_request.splits)

lemma route_admin_authorised:
  assumes "principal_role u = Admin" "\<And>k. req \<noteq> PostLogin k"
  shows "route (Some u) req d \<noteq> Inl NotAuthorized \<and> route (Some u) req d \<noteq> Inl NotAdmin"
  using assms
  by (cases req) (auto simp: route_def guard_admin_Some handler_defs registerUser_def getUsers_def
      deleteUser_def Let_def split: option.splits if_splits prod.splits)

lemma delete_book_btn_key:
  "DeleteBookBtn k \<in> set (page_controls u today cl pg) \<Longrightarrow> k \<in> set (keys (c_books cl))"
  by (cases pg) (force simp: page_controls_def books_controls_def issued_controls_def users_controls_def
      split: if_splits)+

lemma delete_user_btn_key:
  "DeleteUserBtn k \<in> set (page_controls u today cl pg) \<Longrightarrow> k \<in> set (keys (c_users cl))"
  by (cases pg) (force simp: page_controls_def books_controls_def issued_controls_def users_controls_def
      user_cards_def split: if_splits)+

lemma return_btn_key:
  "ReturnBtn k \<in> set (page_controls u today cl pg) \<Longrightarrow> k \<in> set (map cached_id (c_issued cl))"
  by (cases pg) (force simp: page_controls_def books_controls_def issued_controls_def users_controls_def
      issued_rows_def issued_row_def Let_def split: if_splits)+

lemma cache_ok_loan_key:
  assumes "cache_ok u cl d" "k \<in> set (map cached_id (c_issued cl))"
  shows "k \<in> set (keys (loans d))"
proof -
  from assms(1) have "map cached_record (c_issued cl) = visible_loans u d"
    by (simp add: cache_ok_def)
  then have "keys (map cached_record (c_issued cl)) = keys (visible_loans u d)"
    by (rule arg_cong)
  moreover have "map cached_id (c_issued cl) = keys (map cached_record (c_issued cl))"
    by (simp add: cached_id_def)
  ultimately have "k \<in> set (keys (visible_loans u d))"
    using assms(2) by simp
  then show ?thesis
    by (auto simp: visible_loans_def)
qed

lemma key_map_of: "k \<in> set (keys al) \<Longrightarrow> \<exists>v. map_of al k = Some v"
  by (cases "map_of al k") (auto simp: map_of_eq_None_iff)

lemma route_delete_book_Inr:
  "principal_role u = Admin \<Longrightarrow> k \<in> set (keys (books d)) \<Longrightarrow> \<exists>r d'. route (Some u) (DeleteBook k) d = Inr (r, d')"
  by (drule key_map_of) (auto simp: route_def guard_admin_Some deleteBook_def)

lemma route_return_key_Inr:
  "principal_role u = Admin \<Longrightarrow> k \<in> set (keys (loans d)) \<Longrightarrow> \<exists>r d'. route (Some u) (PutReturn now k) d = Inr (r, d')"
  by (drule key_map_of) (auto simp: route_def guard_admin_Some returnBook_def Let_def split: option.splits)

lemma route_delete_user_Inr:
  "k \<in> set (keys (users d)) \<Longrightarrow> \<exists>r d'. route (Some u) (DeleteUser k) d = Inr (r, d')"
  by (drule key_map_of) (auto simp: route_def deleteUser_def)

subsection \<open>The buttons agree with the server\<close>

text \<open>C9.  The pages offer only what the server allows the viewer: every button on the
  screen of a session, and every request it leads to, passes the \<open>protect\<close> and
  \<open>admin\<close> middleware of the route it takes.  (The Users page hides its delete buttons
  from a student by its redirect, although the route would let the student through:
  see \<open>route_student_deletes_user\<close>.)\<close>

theorem shown_controls_authorised:
  assumes "c \<in> set (shell_controls today s)" "control_sends c req"
  shows "route (sh_user s) req d \<noteq> Inl NotAuthorized \<and> route (sh_user s) req d \<noteq> Inl NotAdmin"
proof -
  obtain u pg where u: "sh_user s = Some u" and c: "c \<in> set (page_controls (Some u) today (sh_ctx s) pg)"
    and up: "pg = UsersPage \<Longrightarrow> principal_role u = Admin"
    using shell_controls_page [OF assms(1)] by blast
  have "principal_role u = Admin"
    using c up by (rule page_controls_admin)
  with u control_sends_no_login [OF assms(2)] show ?thesis
    by (simp add: route_admin_authorised)
qed

text \<open>C11.  The one-click buttons work: in a session whose cache agrees with the store
  (no refetch pending), deleting a book, returning a loan and deleting a user from the
  button the page shows all succeed on the server.\<close>

theorem one_click_controls_succeed:
  assumes "shell_ok s" "\<not> sh_effect s" "c \<in> set (shell_controls today s)" "one_click c" "control_sends c req"
  shows "\<exists>r d'. route (sh_user s) req (sh_db s) = Inr (r, d')"
proof -
  obtain u pg where u: "sh_user s = Some u" and c: "c \<in> set (page_controls (Some u) today (sh_ctx s) pg)"
    and up: "pg = UsersPage \<Longrightarrow> principal_role u = Admin"
    using shell_controls_page [OF assms(3)] by blast
  have adm: "principal_role u = Admin"
    using c up by (rule page_controls_admin)
  have ok: "cache_ok u (sh_ctx s) (sh_db s)"
    using assms(1,2) u by (simp add: shell_ok_def)
  show ?thesis
  proof (cases c)
    case (DeleteBookBtn k)
    with c ok have "k \<in> set (keys (books (sh_db s)))"
      by (auto simp: cache_ok_def dest: delete_book_btn_key)
    with DeleteBookBtn assms(5) u adm show ?thesis
      by (simp add: route_delete_book_Inr)
  next
    case (ReturnBtn k)
    with c ok have "k \<in> set (keys (loans (sh_db s)))"
      by (blast dest: return_btn_key cache_ok_loan_key)
    with ReturnBtn assms(5) u adm show ?thesis
      by (auto simp: route_return_key_Inr split: http_request.splits)
  next
    case (DeleteUserBtn k)
    with c ok have "k \<in> set (keys (users (sh_db s)))"
      by (auto simp: cache_ok_def dest: delete_user_btn_key)
    with DeleteUserBtn assms(5) u show ?thesis
      by (simp add: route_delete_user_Inr)
  qed (use assms(4) in \<open>simp_all add: one_click_def\<close>)
qed

lemma return_btn_issued:
  "ReturnBtn k \<in> set (page_controls u today cl pg) \<Longrightarrow>
   \<exists>e \<in> set (c_issued cl). cached_id e = k \<and> status (cached_ib e) = Issued"
  by (cases pg) (auto simp: page_controls_def books_controls_def issued_controls_def users_controls_def
      issued_rows_def issued_row_def Let_def split: if_splits)

lemma cache_ok_cached_loan:
  assumes "cache_ok u cl d" and "wf_db d" and "e \<in> set (c_issued cl)"
  shows "map_of (loans d) (cached_id e) = Some (cached_ib e)"
proof -
  have "cached_record e \<in> set (visible_loans u d)"
  proof -
    have "cached_record e \<in> set (map cached_record (c_issued cl))"
      using assms(3) by simp
    moreover have "map cached_record (c_issued cl) = visible_loans u d"
      using assms(1) by (simp add: cache_ok_def)
    ultimately show ?thesis
      by metis
  qed
  then have "(cached_id e, cached_ib e) \<in> set (loans d)"
    by (auto simp: visible_loans_def cached_id_def cached_ib_def)
  moreover have "distinct (keys (loans d))"
    using assms(2) by (simp add: wf_db_def)
  ultimately show ?thesis
    by (simp add: map_of_is_SomeI)
qed

text \<open>C22.  The Return button keeps the ledger: in a session whose cache agrees with the
  store, returning a loan from the button the Issued Books page shows succeeds and keeps the
  ledger invariant, because the page offers the button only on loans still \<open>Issued\<close>.  The
  double return that breaks the ledger (\<open>returnBook_Returned_unbalances\<close>) cannot be sent
  from the page.\<close>

theorem ui_return_keeps_ledger:
  assumes "shell_ok s" and "\<not> sh_effect s" and inv: "ledger_inv (sh_db s)"
    and btn: "ReturnBtn k \<in> set (shell_controls today s)"
  shows "\<exists>r d'. route (sh_user s) (PutReturn now k) (sh_db s) = Inr (r, d') \<and> ledger_inv d'"
proof -
  obtain u pg where u: "sh_user s = Some u" and c: "ReturnBtn k \<in> set (page_controls (Some u) today (sh_ctx s) pg)"
    and up: "pg = UsersPage \<Longrightarrow> principal_role u = Admin"
    using shell_controls_page [OF btn] by blast
  have adm: "principal_role u = Admin"
    using c up by (rule page_controls_admin)
  have ok: "cache_ok u (sh_ctx s) (sh_db s)"
    using assms(1,2) u by (simp add: shell_ok_def)
  have wf: "wf_db (sh_db s)"
    using inv by (simp add: ledger_inv_def)
  from return_btn_issued [OF c] obtain e where e: "e \<in> set (c_issued (sh_ctx s))" and k: "cached_id e = k"
    and st: "status (cached_ib e) = Issued" by blast
  have l: "map_of (loans (sh_db s)) k = Some (cached_ib e)"
    using cache_ok_cached_loan [OF ok wf e] k by simp
  then obtain r d' where ret: "returnBook now k (sh_db s) = Inr (r, d')"
    by (cases "map_of (books (save_loan k (return_update now (cached_ib e)) (sh_db s))) (bookId (cached_ib e))")
      (auto simp: returnBook_def Let_def)
  have "ledger_inv d'"
    using returnBook_keeps_ledger_inv [OF inv l st ret] .
  with ret u adm show ?thesis
    by (simp add: route_def guard_admin_Some)
qed

text \<open>C31.  The delete buttons of the Users page, for an admin: a user of the cache has one
  exactly when it is not the admin's own account, so the page never offers an admin to
  delete themselves and offers every other deletion.\<close>

theorem users_page_delete_buttons:
  assumes "sh_user s = Some u" and "principal_role u = Admin" and "sh_path s = ''/users''"
  shows "DeleteUserBtn k \<in> set (shell_controls today s) \<longleftrightarrow>
           k \<in> set (keys (c_users (sh_ctx s))) \<and> k \<noteq> principal_id u"
  using assms
  by (force simp: shell_controls_def shell_view_def app_view_def app_screen_def role_name_def page_controls_def
      users_controls_def user_cards_def)

text \<open>C40.  The sidebar agrees with the routes: no link it shows leads to a redirect, for any
  role string, and for the frontend's two roles \<open>'Admin'\<close> and \<open>'User'\<close> every page the
  router shows is linked.  (For the spec's \<open>'Student'\<close> the sidebar is empty while the
  pages are shown: \<open>sidebar_student_empty\<close>.)\<close>

theorem sidebar_matches_routes:
  "(p \<in> set (map fst (sidebar_items r)) \<longrightarrow> (\<exists>pg. app_view False r p = PageView (Shown pg))) \<and>
   (r = Some ''Admin'' \<or> r = Some ''User'' \<longrightarrow>
      (\<exists>pg. app_view False r p = PageView (Shown pg)) \<longrightarrow> p \<in> set (map fst (sidebar_items r)))"
  by (cases r) (auto simp: sidebar_items_def app_view_def app_screen_def split: if_splits)

theorem shown_controls_authorised_witness:
  "EditBookBtn 0 \<in> set (shell_controls 0 admin_books) \<and>
   control_sends (EditBookBtn 0) (PutBook 0 \<lparr>body_name = ''B'', body_author = ''A'', body_category = ''C'', body_totalCopies = Some 3\<rparr>) \<and>
   route (Some admin_p) (PutBook 0 \<lparr>body_name = ''B'', body_author = ''A'', body_category = ''C'', body_totalCopies = Some 3\<rparr>)
     users_store \<noteq> Inl NotAdmin"
  using shown_controls_authorised [of "EditBookBtn 0" 0 admin_books
      "PutBook 0 \<lparr>body_name = ''B'', body_author = ''A'', body_category = ''C'', body_totalCopies = Some 3\<rparr>" users_store]
  by (simp add: shell_controls_def shell_view_def app_view_def app_screen_def page_controls_def
      books_controls_def is_admin_def role_name_def)

theorem one_click_controls_succeed_witness:
  "shell_ok admin_books \<and> DeleteBookBtn 0 \<in> set (shell_controls 0 admin_books) \<and>
   (\<exists>r d'. route (Some admin_p) (DeleteBook 0) users_store = Inr (r, d'))"
  using one_click_controls_succeed [of admin_books "DeleteBookBtn 0" 0 "DeleteBook 0"]
  by (simp add: shell_controls_def shell_view_def app_view_def app_screen_def page_controls_def
      books_controls_def is_admin_def role_name_def one_click_def shell_ok_def cache_ok_def visible_loans_def
      wf_db_iff)

theorem ui_return_keeps_ledger_witness:
  "\<exists>r d'. route (Some admin_p) (PutReturn 50 1) loaned_store = Inr (r, d') \<and> ledger_inv d'"
proof -
  let ?s = "\<lparr>sh_user = Some admin_p, sh_path = ''/issued-books'', sh_sidebar = False, sh_effect = False,
             sh_ctx = loaned_ctx, sh_db = loaned_store\<rparr>"
  have h1: "shell_ok ?s"
    by (simp add: shell_ok_def cache_ok_def visible_loans_def loan_query_def populate_def loan_key_def
        new_issued_book_def wf_db_def)
  have h2: "\<not> sh_effect ?s" by simp
  have h3: "ledger_inv (sh_db ?s)"
    by (simp add: ledger_inv_def wf_db_def copies_balanced_def copies_nonneg_def outstanding_def
        new_issued_book_def)
  have h4: "ReturnBtn 1 \<in> set (shell_controls 0 ?s)"
    by (simp add: shell_controls_def shell_view_def app_view_def app_screen_def role_name_def page_controls_def
        is_admin_def issued_controls_def issued_rows_def issued_row_def cached_id_def cached_ib_def loan_key_def
        populate_def new_issued_book_def Let_def)
  show ?thesis using ui_return_keeps_ledger [OF h1 h2 h3 h4, of 50] by simp
qed

theorem users_page_delete_buttons_witness:
  "DeleteUserBtn 1 \<in> set (shell_controls 0 (admin_books\<lparr>sh_path := ''/users'',
      sh_ctx := synced_ctx\<lparr>c_users := [(1, \<lparr>user_name = ''ann'', email = ''ann@uni'', role = Student\<rparr>),
                                     (2, \<lparr>user_name = ''root'', email = ''root@uni'', role = Admin\<rparr>)]\<rparr>\<rparr>)) \<and>
   DeleteUserBtn 2 \<notin> set (shell_controls 0 (admin_books\<lparr>sh_path := ''/users'',
      sh_ctx := synced_ctx\<lparr>c_users := [(1, \<lparr>user_name = ''ann'', email = ''ann@uni'', role = Student\<rparr>),
                                     (2, \<lparr>user_name = ''root'', email = ''root@uni'', role = Admin\<rparr>)]\<rparr>\<rparr>))"
  using users_page_delete_buttons [of "admin_books\<lparr>sh_path := ''/users'',
      sh_ctx := synced_ctx\<lparr>c_users := [(1, \<lparr>user_name = ''ann'', email = ''ann@uni'', role = Student\<rparr>),
                                     (2, \<lparr>user_name = ''root'', email = ''root@uni'', role = Admin\<rparr>)]\<rparr>\<rparr>"
      admin_p _ 0]
  by simp

theorem sidebar_matches_routes_witness:
  "''/books'' \<in> set (map fst (sidebar_items (Some ''User''))) \<and>
   (\<exists>pg. app_view False (Some ''User'') ''/books'' = PageView (Shown pg)) \<and>
   ''/users'' \<notin> set (map fst (sidebar_items (Some ''User'')))"
  using sidebar_matches_routes [of "''/books''" "Some ''User''"] sidebar_matches_routes [of "''/users''" "Some ''User''"]
  by (simp add: sidebar_items_def app_view_def app_screen_def)

end
