(* ===== verification/Spec2Isabelle.thy ===== *)
theory Spec2Isabelle
  imports Concurrency Views
begin

text \<open>
  \<^bold>\<open>A verification development of the library-management application.\<close>

  \<^emph>\<open>The program.\<close>  A REST backend (\<open>src/library-management/backend\<close>: Express routes,
  Mongoose models, two controllers) over a document database with three collections
  (books, issued books, users), and a React frontend (\<open>src/library-management/frontend\<close>)
  that caches the collections in a context and renders pages for admins and students.  The
  state that matters is the inventory ledger (\<open>totalCopies\<close>/\<open>availableCopies\<close> of each
  book) and the loan records with their lifecycle \<open>Issued \<rightarrow> Returned\<close>; the loan
  controller mutates the ledger, the book controller edits it directly.

  \<^emph>\<open>How the theories model it.\<close>
  \<^item> \<open>Prelude\<close>: identifiers (\<open>oid\<close>, a counter standing for ObjectIds), times (milliseconds
    as \<open>int\<close>), collections as insertion-ordered association lists, and the list and
    association-list lemmas the components share.
  \<^item> \<open>Model\<close>: the schemas of \<open>models/Book.js\<close> and \<open>models/IssuedBook.js\<close> as records
    \<open>book\<close> and \<open>issued_book\<close>, the status enum as \<open>loan_status\<close>, roles and users after
    \<open>frontend/src/types.ts\<close>; the store \<open>db\<close>; the Mongoose writes the controllers make
    (\<open>insert_loan\<close>, \<open>save_available\<close> for a \<open>save()\<close> that sets only the modified path,
    \<open>save_book\<close>, \<open>save_loan\<close>); and the ledger invariant \<open>ledger_inv\<close>: ids well formed,
    \<open>totalCopies - availableCopies\<close> equal to the book's outstanding (\<open>Issued\<close>) loans, and
    \<open>availableCopies \<ge> 0\<close>, which together give the spec's
    \<open>0 \<le> availableCopies \<le> totalCopies\<close>.
  \<^item> \<open>Fine\<close>: the fine of \<open>returnBook\<close> (\<open>issuedBookController.js\<close> lines 81--85) with
    \<open>Math.ceil\<close> as integer division rounded up, proved equal to the real-number ceiling.
  \<^item> \<open>Loans\<close>: \<open>getIssuedBooks\<close>, \<open>issueBook\<close>, \<open>returnBook\<close> of
    \<open>controllers/issuedBookController.js\<close>, each \<open>db \<Rightarrow> error + (result \<times> db)\<close>; every
    early \<open>return\<close> with a 4xx status is an \<open>Inl\<close>, and since no handler writes before its
    last check an error needs no store.
  \<^item> \<open>Books\<close>: \<open>getBooks\<close>, \<open>addBook\<close>, \<open>updateBook\<close>, \<open>deleteBook\<close> of
    \<open>controllers/bookController.js\<close>, with JavaScript's \<open>||\<close> defaults written out
    (\<open>js_or_int\<close>, \<open>js_or_str\<close>).
  \<^item> \<open>Lifecycle\<close>: the state-changing requests as a datatype, \<open>serve\<close> dispatching each to
    its handler, \<open>run_requests\<close> serving a list in order, and the inductive step relation
    \<open>lib_step\<close> with its \<open>reachable\<close> states; \<open>guarded\<close> is the discipline of the user
    interface, which offers \<open>Return\<close> only on an \<open>Issued\<close> loan (\<open>IssuedBooks.tsx\<close>
    lines 179--193) and leaves every other request unconstrained, and
    \<open>guarded_reachable\<close> the states reached under it.
  \<^item> \<open>Concurrency\<close>: \<open>issueBook\<close> and \<open>returnBook\<close> cut at their \<open>await\<close>s into a
    datatype of suspended handlers (\<open>proc\<close>) with \<open>proc_step\<close> running one segment;
    \<open>run_schedule\<close> interleaves several handlers by a list of indices, as Node's event loop
    may between two awaits.  \<open>run_proc\<close> (one handler resumed until it responds),
    \<open>sequential_schedule\<close> and \<open>fair_for\<close> are drivers of the model, not code of the
    program; the lemmas on them (\<open>run_proc_atomic\<close>, \<open>sequential_schedule_refines\<close>,
    \<open>fair_schedule_completes\<close>) check that the split handlers, run without
    interleaving, are the atomic handlers of \<open>Loans\<close>.
  \<^item> \<open>Routes\<close>: \<open>book_route\<close>, \<open>issued_route\<close>, \<open>user_route\<close> for the tables of
    \<open>routes/bookRoutes.js\<close>, \<open>issuedBookRoutes.js\<close>, \<open>userRoutes.js\<close>, combined by
    \<open>route\<close>; the \<open>protect\<close>/\<open>admin\<close> middleware and the user controller
    (\<open>registerUser\<close>, \<open>authUser\<close>, \<open>getUsers\<close>, \<open>deleteUser\<close>) are not under
    \<open>src\<close> and follow the spec.
  \<^item> \<open>Client\<close>: the React state of \<open>context/LibraryContext.tsx\<close> as the record \<open>ctx\<close>;
    each fetch and write (\<open>ctx_fetchBooks\<close> \<dots> \<open>ctx_returnBook\<close>) maps a cache and the
    server store to new ones through \<open>route\<close>, with the lists its closure captured as an
    explicit argument; \<open>ctx_step\<close> is a call from the current render; \<open>cache_ok\<close> is the
    abstraction relation (cached lists equal the server's, loans as listed to the principal).
  \<^item> \<open>Pages\<close>: the derived views of \<open>pages/IssuedBooks.tsx\<close> (rows, badges, overdue test,
    the default due date), \<open>pages/Dashboard.tsx\<close> (the cards, due soon, recent activity,
    categories), \<open>pages/Books.tsx\<close> (form, submit, table rows), \<open>pages/Users.tsx\<close>
    (cards, delete), \<open>components/Sidebar.tsx\<close> and the route guard of \<open>App.tsx\<close>.
  \<^item> \<open>Shell\<close>: the frame of the frontend as one state machine.  The record \<open>shell\<close>
    holds the logged-in user (\<open>AuthContext\<close>), the path, the mobile sidebar flag of
    \<open>components/Layout.tsx\<close>, a pending-effect flag for the refetch
    \<open>LibraryProvider\<close> runs after a render in which the user changed, the cache and the
    store; \<open>app_view\<close> is the route table of \<open>App.tsx\<close>, \<open>layout_step\<close>,
    \<open>nav_link\<close> and \<open>handleLogout\<close> the handlers of \<open>Layout.tsx\<close>,
    \<open>Sidebar.tsx\<close> and \<open>Topbar.tsx\<close>, and \<open>shell_step\<close> composes them with the
    context calls of \<open>Client\<close>.  The modal dialogs of \<open>Books.tsx\<close>,
    \<open>IssuedBooks.tsx\<close> and \<open>Users.tsx\<close> are records with their open, close, edit
    and submit handlers.
  \<^item> \<open>Views\<close>: what each page renders, as records: \<open>books_view\<close>, \<open>issued_view\<close>,
    \<open>users_view\<close> and \<open>dashboard_view\<close> for the headings, columns, rows and dialogs by
    role, and \<open>sidebar_view\<close>, \<open>topbar_view\<close> and \<open>layout_view\<close> for the frame.  The
    buttons that lead to a request are a datatype \<open>control\<close>, with \<open>books_controls\<close>,
    \<open>issued_controls\<close> and \<open>users_controls\<close> giving those a page offers.
    \<open>shell_controls\<close> gives the buttons on the screen of a \<open>Shell\<close> session, and
    \<open>control_sends\<close> the HTTP requests of \<open>Routes\<close> that each one can lead to.

  \<^emph>\<open>What is proved.\<close>  Issue and return of an \<open>Issued\<close> loan keep the ledger invariant
  (C1, C2); on every balanced store, returning an already returned loan succeeds, puts the
  copy back a second time and breaks the balance, since \<open>returnBook\<close> has no status guard
  (C3, a bug); the error and success behaviour of every branch of \<open>issueBook\<close> and
  \<open>returnBook\<close> (C4--C6); on a fresh loan the fine is zero exactly for a return by the due
  date and grows with the return time (C7); the frontend session keeps the cache in step
  with the store through any sequence of logins, logouts, navigations and calls (C8); every
  button a page shows passes the middleware of the request it leads to (C9); a book the
  issue form offers is one the server issues (C10); the delete, return and delete-user
  buttons of a cache in step with the store succeed on the server (C11); a student sees
  exactly their own loans (C12); issuing a copy and returning that loan restores every book
  and only appends the returned record (C13, a round trip); \<open>totalCopies || 1\<close> turns 0
  into 1 and lets a negative count in (C14, C15); \<open>updateBook\<close> keeps the balance but
  may make \<open>availableCopies\<close> negative (C16, C17); deleting an existing book removes
  exactly that book and keeps the invariant (C18).  Over request sequences: every loan
  record of a reachable state agrees with its status (C19); a loan survives every later
  request with its book and user, and \<open>Returned\<close> stays final (C20); under the UI's
  discipline every book's \<open>totalCopies - availableCopies\<close> is its number of outstanding
  loans (C21), and a Return button shown on a cache in step with the store succeeds and
  keeps the invariant, so the UI never sends the return of C3 (C22).  Two \<open>issueBook\<close>
  calls interleaved at their awaits both succeed on any balanced store while the count
  drops by one only (C23, the spec's lost update); no schedule makes \<open>availableCopies\<close>
  negative from a non-negative start (C27).  After a logout and a login as a user who may
  see other loans, the shell renders the previous user's cache until the refetch runs
  (C24, a bug); the issue dialog, after any edits, either does nothing or issues a loan the
  server accepts (C25); a student's ``My Fines'' card is the sum of the fines of exactly
  their stored loans (C26).  A non-admin never changes books or loans through any route
  (C28), but a student can delete users (C29, a bug); for an admin the routes refine
  \<open>serve\<close> (C30); for an admin on the Users page a delete button is shown exactly for
  the other users of the cache (C31).  The client cache refines the store call by call
  (C32) and is synchronised by the login fetches (C33), but two issues from one render
  (a double submit) store two loans and record one (C34, a bug).  The dashboard balances
  under the invariant (C35); a returned row shows placeholders until a refetch (C36); a
  two-week loan returned on time of day is fined a day (C37); the due-soon window (C38);
  opening the edit form on a book and submitting it unchanged changes nothing (C39, a
  round trip); no sidebar link leads to a redirect, and for the roles \<open>'Admin'\<close> and
  \<open>'User'\<close> every shown page is linked (C40).  Outside the claims,
  \<open>sidebar_student_empty\<close> shows that the spec's \<open>Student\<close> role string gets an empty
  sidebar and the label ``Admin'' on the Users page, since the frontend expects
  \<open>'User'\<close>.

  \<^emph>\<open>Bounds and fuel.\<close>  No loop of the program is unbounded: every handler is
  straight-line code over finite collections, so every definition is a total, executable
  function and no fuel is needed; \<open>iter_proc\<close> runs a handler by a step count, and the
  handlers end within 3 (issue) and 4 (return) steps (\<open>proc_steps\<close>), which the refinement
  lemmas use.  \<open>run_proc\<close> is written without a bound, as \<open>while_option\<close>, and
  \<open>run_proc_terminates\<close> proves it returns: every step lowers \<open>proc_rank\<close> (at most 4)
  until the handler is done, so \<open>iter_proc\<close> with \<open>proc_rank\<close> steps is its value.  Sessions of the shell are finite
  event lists (\<open>shell_run\<close> is a fold).
  JavaScript numbers are modelled as unbounded \<open>int\<close>: counts and millisecond times stay
  far below \<open>2^53\<close>, where doubles are exact, and the division in the fine is exact in the
  model (the lemmas show it equals the real ceiling).  The browser clock is UTC.

  \<^emph>\<open>Not modelled, and why.\<close>  The \<open>User\<close> schema, the JWT handling inside \<open>protect\<close>,
  \<open>AuthContext\<close>, \<open>services/api.ts\<close> and \<open>server.js\<close> are not among the sources (their
  behaviour is taken from the spec); a Mongoose \<open>CastError\<close> for a malformed id (ids are
  well-typed here); a persistence failure between the two writes of a handler (the spec's
  documented gap); \<open>main.tsx\<close>, which only mounts \<open>App\<close>; the Login and Register pages, whose submit goes to \<open>AuthContext\<close>
  (modelled from the spec as \<open>auth_login\<close>); the \<open>Modal\<close> component, which is
  not among the sources (its children are taken to show exactly while \<open>isOpen\<close>); icons
  and CSS classes; the role of a user added from the Users page, which the register
  handler (not among the sources) decides from a body of name and email only: it is a
  parameter of \<open>users_modal_submit\<close>.
\<close>

end
